(* ===== verification/RC_Prelude.thy ===== *)
theory RC_Prelude
  imports Main "HOL-Library.Word"
begin

text \<open>
  Shared vocabulary of the development: byte strings, Rust results and panics, the lemma
  collections the component theories feed, and generic facts on lists and options.

  \<^item> A Rust \<open>Result<T, E>\<close> is the sum \<open>'e + 't\<close>, read with the abbreviations
    \<open>Err\<close> and \<open>Ok\<close>.
  \<^item> A call that may panic returns \<open>'a run\<close>: \<open>Ret\<close> of a value, or \<open>Panic\<close>
    with the text of the panic.
  \<^item> A call that may wait for ever returns \<open>'a comp\<close>, an optional run: \<open>None\<close>
    means that the call has not returned.
\<close>

section \<open>Types\<close>

type_synonym byte = "8 word"
type_synonym bytes = "8 word list"
type_synonym u32 = "32 word"
type_synonym u64 = "64 word"
type_synonym usize = "64 word"

abbreviation Ok :: "'t \<Rightarrow> 'e + 't" where "Ok \<equiv> Inr"
abbreviation Err :: "'e \<Rightarrow> 'e + 't" where "Err \<equiv> Inl"

definition is_ok :: "'e + 't \<Rightarrow> bool" where
  "is_ok r = (case r of Inl _ \<Rightarrow> False | Inr _ \<Rightarrow> True)"

datatype 'a run = Ret 'a | Panic string

type_synonym 'a comp = "'a run option"

definition run_bind :: "'a run \<Rightarrow> ('a \<Rightarrow> 'b run) \<Rightarrow> 'b run" where
  "run_bind m f = (case m of Ret a \<Rightarrow> f a | Panic p \<Rightarrow> Panic p)"

definition comp_bind :: "'a comp \<Rightarrow> ('a \<Rightarrow> 'b comp) \<Rightarrow> 'b comp" where
  "comp_bind m f = (case m of None \<Rightarrow> None
     | Some (Ret a) \<Rightarrow> f a | Some (Panic p) \<Rightarrow> Some (Panic p))"

abbreviation done_with :: "'a \<Rightarrow> 'a comp" where "done_with a \<equiv> Some (Ret a)"

text \<open>
  \<open>assert!\<close>, \<open>expect\<close> and \<open>unwrap\<close>: a panic with the given text where the condition
  fails.
\<close>

definition assert_that :: "bool \<Rightarrow> string \<Rightarrow> 'a run \<Rightarrow> 'a run" where
  "assert_that b msg k = (if b then k else Panic msg)"

definition expect :: "'e + 't \<Rightarrow> string \<Rightarrow> ('t \<Rightarrow> 'a run) \<Rightarrow> 'a run" where
  "expect r msg k = (case r of Inl _ \<Rightarrow> Panic msg | Inr t \<Rightarrow> k t)"

text \<open>The operator \<open>?\<close>: an error returns early, converted by the \<open>From\<close> impl given.\<close>

definition try_op :: "'e + 't \<Rightarrow> ('e \<Rightarrow> 'f) \<Rightarrow> ('t \<Rightarrow> 'f + 'a) \<Rightarrow> 'f + 'a" where
  "try_op r conv k = (case r of Inl e \<Rightarrow> Err (conv e) | Inr t \<Rightarrow> k t)"

definition returns :: "'a run \<Rightarrow> bool" where
  "returns m = (case m of Ret _ \<Rightarrow> True | Panic _ \<Rightarrow> False)"

text \<open>Iterator helpers of the Rust standard library.\<close>

fun find_map :: "('a \<Rightarrow> 'b option) \<Rightarrow> 'a list \<Rightarrow> 'b option" where
  "find_map f [] = None"
| "find_map f (x # xs) = (case f x of Some y \<Rightarrow> Some y | None \<Rightarrow> find_map f xs)"

text \<open>Unsigned integers as \<open>Display\<close> prints them.\<close>

fun decimal :: "nat \<Rightarrow> string" where
  "decimal n = (if n < 10 then [''0123456789'' ! n]
     else decimal (n div 10) @ [''0123456789'' ! (n mod 10)])"

declare decimal.simps [simp del]

section \<open>Lemma collections\<close>

named_theorems outcome_simps \<open>unfolding rules of the result and panic combinators\<close>
named_theorems model_defs \<open>definitions of the modelled operations\<close>

section \<open>Results and panics\<close>

lemma run_bind_Ret [simp]: "run_bind (Ret a) f = f a"
  by (simp add: run_bind_def)

lemma run_bind_Panic [simp]: "run_bind (Panic p) f = Panic p"
  by (simp add: run_bind_def)

lemma run_bind_eq_Ret [outcome_simps]:
  "run_bind m f = Ret b \<longleftrightarrow> (\<exists>a. m = Ret a \<and> f a = Ret b)"
  by (cases m) simp_all

lemma run_bind_cong [fundef_cong]:
  "m = m' \<Longrightarrow> (\<And>a. m' = Ret a \<Longrightarrow> f a = g a) \<Longrightarrow> run_bind m f = run_bind m' g"
  by (cases m') simp_all

lemma comp_bind_None [simp]: "comp_bind None f = None"
  by (simp add: comp_bind_def)

lemma comp_bind_Ret [simp]: "comp_bind (Some (Ret a)) f = f a"
  by (simp add: comp_bind_def)

lemma comp_bind_Panic [simp]: "comp_bind (Some (Panic p)) f = Some (Panic p)"
  by (simp add: comp_bind_def)

lemma comp_bind_eq_Ret [outcome_simps]:
  "comp_bind m f = Some (Ret b) \<longleftrightarrow> (\<exists>a. m = Some (Ret a) \<and> f a = Some (Ret b))"
  by (auto simp: comp_bind_def split: option.splits run.splits)

lemma assert_that_eq_Ret [outcome_simps]:
  "assert_that b msg k = Ret a \<longleftrightarrow> b \<and> k = Ret a"
  by (simp add: assert_that_def)

lemma assert_that_True [simp]: "assert_that True msg k = k"
  by (simp add: assert_that_def)

lemma assert_that_False [simp]: "assert_that False msg k = Panic msg"
  by (simp add: assert_that_def)

lemma expect_Inr [simp]: "expect (Inr t) msg k = k t"
  by (simp add: expect_def)

lemma expect_Inl [simp]: "expect (Inl e) msg k = Panic msg"
  by (simp add: expect_def)

lemma expect_eq_Ret [outcome_simps]:
  "expect r msg k = Ret a \<longleftrightarrow> (\<exists>t. r = Inr t \<and> k t = Ret a)"
  by (cases r) simp_all

lemma try_op_simps [simp]:
  "try_op (Inl e) conv k = Inl (conv e)"
  "try_op (Inr t) conv k = k t"
  by (simp_all add: try_op_def)

lemma try_op_eq_Ok [outcome_simps]:
  "try_op r conv k = Inr a \<longleftrightarrow> (\<exists>t. r = Inr t \<and> k t = Inr a)"
  by (cases r) simp_all

lemma try_op_eq_Err [outcome_simps]:
  "try_op r conv k = Inl f \<longleftrightarrow>
     (\<exists>e. r = Inl e \<and> f = conv e) \<or> (\<exists>t. r = Inr t \<and> k t = Inl f)"
  by (cases r) auto

lemma returns_simps [simp]: "returns (Ret a)" "\<not> returns (Panic p)"
  by (simp_all add: returns_def)

lemma returns_iff: "returns m \<longleftrightarrow> (\<exists>a. m = Ret a)"
  by (cases m) simp_all

lemma is_ok_simps [simp]: "is_ok (Inr t)" "\<not> is_ok (Inl e)"
  by (simp_all add: is_ok_def)

text \<open>Loops that may not return are least fixed points: the bind of such calls is monotone.\<close>

lemma comp_bind_bind:
  "comp_bind m f = Option.bind m (\<lambda>r. case r of Ret a \<Rightarrow> f a | Panic p \<Rightarrow> Some (Panic p))"
  by (auto simp: comp_bind_def split: option.splits run.splits)

lemma comp_bind_mono [partial_function_mono]:
  assumes "mono_option B" and "\<And>y. mono_option (\<lambda>f. C y f)"
  shows "mono_option (\<lambda>f. comp_bind (B f) (\<lambda>y. C y f))"
  unfolding comp_bind_bind
proof (intro bind_mono assms(1))
  fix r :: "'c run"
  show "mono_option (\<lambda>f. case r of Ret a \<Rightarrow> C a f | Panic p \<Rightarrow> Some (Panic p))"
    by (cases r) (simp_all add: assms(2) option.const_mono)
qed

section \<open>Loops\<close>

text \<open>
  A \<open>loop\<close> of the source: its body runs on a state and either goes on in a new state or leaves
  the loop with a value. The loop has not returned if some body has not, or if no body ever leaves.
\<close>

partial_function (option) rust_loop :: "('s \<Rightarrow> ('s + 'r) comp) \<Rightarrow> 's \<Rightarrow> 'r comp" where
  "rust_loop body s =
     comp_bind (body s) (\<lambda>x. case x of Inl s' \<Rightarrow> rust_loop body s' | Inr r \<Rightarrow> done_with r)"

fun loop_rounds :: "('s \<Rightarrow> ('s + 'r) comp) \<Rightarrow> nat \<Rightarrow> 's \<Rightarrow> ('s + 'r) comp" where
  "loop_rounds body 0 s = done_with (Inl s)"
| "loop_rounds body (Suc n) s =
     comp_bind (body s) (\<lambda>x. case x of Inl s' \<Rightarrow> loop_rounds body n s' | Inr r \<Rightarrow> done_with (Inr r))"

lemma rust_loop_fold_aux:
  "rust_loop body s = Some y \<Longrightarrow> y = Ret r \<Longrightarrow>
     (\<And>s r. body s = Some (Ret (Inr r)) \<Longrightarrow> P s r) \<Longrightarrow>
     (\<And>s s' r. body s = Some (Ret (Inl s')) \<Longrightarrow> P s' r \<Longrightarrow> P s r) \<Longrightarrow> P s r"
proof (induction body s y rule: rust_loop.raw_induct [rotated, consumes 1, case_names 1])
  case (1 loop body s y)
  obtain x where x: "body s = Some (Ret x)"
    and k: "(case x of Inl s' \<Rightarrow> loop body s' | Inr r \<Rightarrow> done_with r) = Some y"
    using "1.hyps" "1.prems"(1) by (auto simp: comp_bind_eq_Ret)
  show ?case
  proof (cases x)
    case (Inl s')
    then have "P s' r" using "1.IH" [of body s' y] k "1.prems" by simp
    then show ?thesis using "1.prems"(3) x Inl by blast
  next
    case (Inr r')
    then show ?thesis using k x "1.prems"(1,2) by simp
  qed
qed

lemma rust_loop_fold [consumes 1, case_names leave continue]:
  assumes "rust_loop body s = Some (Ret r)"
    and "\<And>s r. body s = Some (Ret (Inr r)) \<Longrightarrow> P s r"
    and "\<And>s s' r. body s = Some (Ret (Inl s')) \<Longrightarrow> P s' r \<Longrightarrow> P s r"
  shows "P s r"
  using rust_loop_fold_aux [OF assms(1) refl] assms(2,3) by blast

lemma rust_loop_ends: "loop_rounds body n s = Some (Ret (Inr r)) \<Longrightarrow> rust_loop body s = Some (Ret r)"
proof (induction n arbitrary: s)
  case (Suc n)
  obtain x where "body s = Some (Ret x)"
    and "(case x of Inl s' \<Rightarrow> loop_rounds body n s' | Inr r \<Rightarrow> done_with (Inr r)) = Some (Ret (Inr r))"
    using Suc.prems by (auto simp: comp_bind_eq_Ret)
  then show ?case by (subst rust_loop.simps) (auto simp: Suc.IH split: sum.splits)
qed simp

lemma rust_loop_rounds:
  "rust_loop body s = Some (Ret r) \<Longrightarrow> \<exists>n. loop_rounds body n s = Some (Ret (Inr r))"
proof (induction rule: rust_loop_fold)
  case (leave s r)
  then show ?case by (intro exI [of _ 1]) simp
next
  case (continue s s' r)
  then obtain n where "loop_rounds body n s' = Some (Ret (Inr r))" by blast
  then show ?case using continue(1) by (intro exI [of _ "Suc n"]) simp
qed

lemma rust_loop_returns_iff:
  "rust_loop body s = Some (Ret r) \<longleftrightarrow> (\<exists>n. loop_rounds body n s = Some (Ret (Inr r)))"
  using rust_loop_ends [of body _ s r] rust_loop_rounds [of body s r] by blast

lemma loop_rounds_leave:
  "loop_rounds body n s = Some (Ret (Inr r)) \<Longrightarrow>
     \<exists>k s'. loop_rounds body k s = Some (Ret (Inl s')) \<and> body s' = Some (Ret (Inr r))"
proof (induction n arbitrary: s)
  case (Suc n)
  obtain x where x: "body s = Some (Ret x)"
    and k: "(case x of Inl s' \<Rightarrow> loop_rounds body n s' | Inr r \<Rightarrow> done_with (Inr r)) = Some (Ret (Inr r))"
    using Suc.prems by (auto simp: comp_bind_eq_Ret)
  show ?case
  proof (cases x)
    case (Inl s1)
    then obtain k s' where "loop_rounds body k s1 = Some (Ret (Inl s'))" "body s' = Some (Ret (Inr r))"
      using Suc.IH [of s1] k by auto
    then show ?thesis using x Inl by (intro exI [of _ "Suc k"] exI [of _ s']) simp
  next
    case (Inr r')
    then show ?thesis using x k by (intro exI [of _ 0] exI [of _ s]) simp
  qed
qed simp

lemma loop_rounds_then_leave:
  "loop_rounds body k s = Some (Ret (Inl s')) \<Longrightarrow> body s' = Some (Ret (Inr r)) \<Longrightarrow>
     loop_rounds body (Suc k) s = Some (Ret (Inr r))"
proof (induction k arbitrary: s)
  case (Suc k)
  obtain x where x: "body s = Some (Ret x)"
    and k: "(case x of Inl s' \<Rightarrow> loop_rounds body k s' | Inr r \<Rightarrow> done_with (Inr r)) = Some (Ret (Inl s'))"
    using Suc.prems(1) by (auto simp: comp_bind_eq_Ret)
  then obtain s1 where "x = Inl s1" by (cases x) simp_all
  then show ?case using Suc.IH [of s1] Suc.prems(2) x k by simp
qed simp

lemma rust_loop_leaves_iff:
  "(\<exists>r. rust_loop body s = Some (Ret r)) \<longleftrightarrow>
     (\<exists>n s'. loop_rounds body n s = Some (Ret (Inl s')) \<and> (\<exists>r. body s' = Some (Ret (Inr r))))"
  unfolding rust_loop_returns_iff
  using loop_rounds_leave [of body] loop_rounds_then_leave [of body] by blast

lemma rust_loop_no_panic_aux:
  "rust_loop body s = Some y \<Longrightarrow> (\<And>s p. body s \<noteq> Some (Panic p)) \<Longrightarrow> \<exists>r. y = Ret r"
proof (induction body s y rule: rust_loop.raw_induct [rotated, consumes 1, case_names 1])
  case (1 loop body s y)
  obtain z where z: "body s = Some z" using "1.hyps" by (cases "body s") simp_all
  then obtain x where "body s = Some (Ret x)" using "1.prems" [of s] by (cases z) simp_all
  then show ?case using "1.hyps" "1.IH" "1.prems" by (cases x) auto
qed

lemma rust_loop_no_panic:
  "(\<And>s p. body s \<noteq> Some (Panic p)) \<Longrightarrow> rust_loop body s \<noteq> Some (Panic p)"
  using rust_loop_no_panic_aux [of body s "Panic p"] by blast

section \<open>Lists\<close>

lemma find_map_None_iff: "find_map f xs = None \<longleftrightarrow> (\<forall>x \<in> set xs. f x = None)"
  by (induction xs) (auto split: option.splits)

lemma find_map_SomeD: "find_map f xs = Some y \<Longrightarrow> \<exists>x \<in> set xs. f x = Some y"
  by (induction xs) (auto split: option.splits)

lemma find_Some_iff_first:
  "List.find P xs = Some x \<longleftrightarrow>
     (\<exists>us vs. xs = us @ x # vs \<and> P x \<and> (\<forall>u \<in> set us. \<not> P u))"
proof (induction xs)
  case Nil
  then show ?case by simp
next
  case (Cons a xs)
  show ?case
  proof
    assume "List.find P (a # xs) = Some x"
    then consider "P a" "a = x" | "\<not> P a" "List.find P xs = Some x"
      by (auto split: if_splits)
    then show "\<exists>us vs. a # xs = us @ x # vs \<and> P x \<and> (\<forall>u \<in> set us. \<not> P u)"
    proof cases
      case 1
      then show ?thesis by (intro exI [of _ "[]"] exI [of _ xs]) auto
    next
      case 2
      then obtain us vs where "xs = us @ x # vs \<and> P x \<and> (\<forall>u \<in> set us. \<not> P u)"
        using Cons.IH by auto
      then show ?thesis using 2 by (metis append_Cons set_ConsD)
    qed
  next
    assume "\<exists>us vs. a # xs = us @ x # vs \<and> P x \<and> (\<forall>u \<in> set us. \<not> P u)"
    then show "List.find P (a # xs) = Some x"
      using Cons.IH by (auto simp: Cons_eq_append_conv)
  qed
qed

end
