(* ===== verification/Hex_Repr.thy ===== *)
theory Hex_Repr
  imports RC_Prelude
begin

text \<open>
  The hex rendering helper (\<open>rc-crypto/src/hex.rs\<close>) and the lazily cached string
  (\<open>rc-crypto/src/cached_string_repr.rs\<close>) that the certificate identifiers, serial numbers,
  fingerprints and key identifiers share. The locale \<open>rendered\<close> is the contract between
  such a type and its \<open>as_hex_str\<close>; every type that renders itself interprets it.
\<close>

section \<open>Rendering\<close>

text \<open>The format \<open>{v:02x}\<close>: two lower-case hex characters.\<close>

definition hex_digit :: "nat \<Rightarrow> char" where
  "hex_digit n = ''0123456789abcdef'' ! n"

definition hex_byte :: "byte \<Rightarrow> string" where
  "hex_byte v = [hex_digit (unat v div 16), hex_digit (unat v mod 16)]"

text \<open>
  The capacity is computed with unsigned subtraction and the loop slices up to
  \<open>len - 1\<close>, so an empty input panics before anything is written.
\<close>

definition colon_string :: "bytes \<Rightarrow> string run" where
  "colon_string bs =
     (let cap = length bs * 2 in
      if cap + cap div 2 < 1 then Panic ''attempt to subtract with overflow''
      else
        let s = fold (\<lambda>v s. s @ hex_byte v @ '':'') (take (length bs - 1) bs) [] in
        Ret (s @ hex_byte (last bs)))"

section \<open>The lazily rendered string\<close>

datatype cached_string_repr = CachedStringRepr "string option"

definition cached_default :: cached_string_repr where
  "cached_default = CachedStringRepr None"

fun get_or_init :: "cached_string_repr \<Rightarrow> string run \<Rightarrow> (cached_string_repr \<times> string) run" where
  "get_or_init (CachedStringRepr (Some s)) f = Ret (CachedStringRepr (Some s), s)"
| "get_or_init (CachedStringRepr None) f =
     run_bind f (\<lambda>s. Ret (CachedStringRepr (Some s), s))"

text \<open>The state-insensitive comparison impls, so that parent types can derive theirs.\<close>

datatype ordering = Less | Equal | Greater

definition cached_eq :: "cached_string_repr \<Rightarrow> cached_string_repr \<Rightarrow> bool" where
  "cached_eq a b = True"

definition cached_hash :: "cached_string_repr \<Rightarrow> bytes" where
  "cached_hash c = [42]"

definition cached_cmp :: "cached_string_repr \<Rightarrow> cached_string_repr \<Rightarrow> ordering" where
  "cached_cmp a b = Equal"

definition cached_partial_cmp :: "cached_string_repr \<Rightarrow> cached_string_repr \<Rightarrow> ordering option" where
  "cached_partial_cmp a b = Some (cached_cmp a b)"

section \<open>Reading a rendering back\<close>

definition unhex_digit :: "char \<Rightarrow> nat option" where
  "unhex_digit c = find_map (\<lambda>n. if hex_digit n = c then Some n else None) [0..<16]"

fun hex_decode :: "string \<Rightarrow> bytes option" where
  "hex_decode [] = Some []"
| "hex_decode [c] = None"
| "hex_decode (c # d # cs) =
     (case (unhex_digit c, unhex_digit d, hex_decode cs) of
        (Some h, Some l, Some bs) \<Rightarrow> Some (of_nat (h * 16 + l) # bs)
      | _ \<Rightarrow> None)"

definition strip_colons :: "string \<Rightarrow> string" where
  "strip_colons s = filter (\<lambda>c. c \<noteq> CHR '':'') s"

lemma hex_digit_roundtrip: "n < 16 \<Longrightarrow> unhex_digit (hex_digit n) = Some n"
proof -
  assume "n < 16"
  then have "n \<in> set [0..<16]" by simp
  moreover have "\<forall>n \<in> set [0..<16]. unhex_digit (hex_digit n) = Some n"
    by code_simp
  ultimately show ?thesis by blast
qed

lemma hex_digit_not_colon: "n < 16 \<Longrightarrow> hex_digit n \<noteq> CHR '':''"
proof -
  assume "n < 16"
  then have "n \<in> set [0..<16]" by simp
  moreover have "\<forall>n \<in> set [0..<16]. hex_digit n \<noteq> CHR '':''"
    by code_simp
  ultimately show ?thesis by blast
qed

lemma unat_byte_less: "unat (v :: byte) < 256"
  using unsigned_less [where w = v and 'a = nat] by simp

lemma unat_byte_div: "unat (v :: byte) div 16 < 16"
  using unat_byte_less [of v] by (simp add: less_mult_imp_div_less)

lemma hex_byte_no_colon [simp]: "strip_colons (hex_byte v) = hex_byte v"
  by (simp add: strip_colons_def hex_byte_def hex_digit_not_colon unat_byte_div)

lemma hex_byte_length [simp]: "length (hex_byte v) = 2"
  by (simp add: hex_byte_def)

lemma strip_colons_append [simp]: "strip_colons (s @ t) = strip_colons s @ strip_colons t"
  by (simp add: strip_colons_def)

lemma strip_colons_colon [simp]: "strip_colons '':'' = []"
  by (simp add: strip_colons_def)

lemma hex_decode_byte_append:
  "hex_decode (hex_byte v @ s) = map_option (\<lambda>bs. v # bs) (hex_decode s)"
proof -
  have "unat v div 16 * 16 + unat v mod 16 = unat v" by simp
  then have "of_nat (unat v div 16 * 16 + unat v mod 16) = v" by simp
  then show ?thesis
    by (simp add: hex_byte_def hex_digit_roundtrip unat_byte_div split: option.splits)
qed

lemma hex_decode_bytes: "hex_decode (concat (map hex_byte bs)) = Some bs"
  by (induction bs) (simp_all add: hex_decode_byte_append)

lemma render_fold:
  "fold (\<lambda>v s. s @ hex_byte v @ '':'') bs acc = acc @ concat (map (\<lambda>v. hex_byte v @ '':'') bs)"
  by (induction bs arbitrary: acc) simp_all

lemma colon_string_nonempty:
  assumes "bs \<noteq> []"
  shows "colon_string bs =
    Ret (concat (map (\<lambda>v. hex_byte v @ '':'') (butlast bs)) @ hex_byte (last bs))"
proof -
  have "\<not> length bs * 2 + length bs * 2 div 2 < 1"
    using assms by (cases bs) simp_all
  then show ?thesis
    by (simp add: colon_string_def Let_def render_fold butlast_conv_take)
qed

lemma colon_string_empty: "colon_string [] = Panic ''attempt to subtract with overflow''"
  by (simp add: colon_string_def)

lemma strip_colons_render:
  "strip_colons (concat (map (\<lambda>v. hex_byte v @ '':'') bs)) = concat (map hex_byte bs)"
proof (induction bs)
  case Nil
  show ?case by (simp add: strip_colons_def)
next
  case (Cons v bs)
  then show ?case
    by (metis (no_types, lifting) append.assoc append_Nil2 concat.simps(2) hex_byte_no_colon
        list.simps(9) strip_colons_append strip_colons_colon)
qed

lemma colon_string_decodes:
  assumes "colon_string bs = Ret s"
  shows "hex_decode (strip_colons s) = Some bs"
proof -
  have ne: "bs \<noteq> []" using assms colon_string_empty by auto
  then have "s = concat (map (\<lambda>v. hex_byte v @ '':'') (butlast bs)) @ hex_byte (last bs)"
    using assms by (simp add: colon_string_nonempty)
  then have "strip_colons s = concat (map hex_byte (butlast bs @ [last bs]))"
    by (simp add: strip_colons_render)
  then show ?thesis using ne hex_decode_bytes [of bs] by (metis append_butlast_last_id)
qed

lemma colon_string_inj:
  assumes "colon_string a = Ret s" and "colon_string b = Ret s"
  shows "a = b"
  using colon_string_decodes [OF assms(1)] colon_string_decodes [OF assms(2)] by simp

lemma colon_string_returns_iff: "returns (colon_string bs) \<longleftrightarrow> bs \<noteq> []"
  by (cases "bs = []") (simp_all add: colon_string_nonempty colon_string_empty)

lemma colon_string_length:
  assumes "colon_string bs = Ret s"
  shows "length s = 3 * length bs - 1"
proof -
  have ne: "bs \<noteq> []" using assms colon_string_empty by auto
  have l: "length (concat (map (\<lambda>v. hex_byte v @ '':'') xs)) = 3 * length xs" for xs
    by (induction xs) simp_all
  have "s = concat (map (\<lambda>v. hex_byte v @ '':'') (butlast bs)) @ hex_byte (last bs)"
    using assms ne by (simp add: colon_string_nonempty)
  then have "length s = 3 * (length bs - 1) + 2"
    using l [of "butlast bs"] by simp
  then show ?thesis using ne by (cases bs) simp_all
qed

section \<open>The contract of a self-rendering type\<close>

text \<open>The cache is in sync when it is empty or holds the rendering of the bytes.\<close>

fun repr_in_sync :: "cached_string_repr \<Rightarrow> bytes \<Rightarrow> bool" where
  "repr_in_sync (CachedStringRepr None) bs = True"
| "repr_in_sync (CachedStringRepr (Some s)) bs = (colon_string bs = Ret s)"

lemma default_in_sync [simp]: "repr_in_sync cached_default bs"
  by (simp add: cached_default_def)

text \<open>
  A type with raw bytes and a cached string whose \<open>as_hex_str\<close> fills the cache on first
  use.
\<close>

locale rendered =
  fixes raw :: "'t \<Rightarrow> bytes"
    and cell :: "'t \<Rightarrow> cached_string_repr"
    and set_cell :: "cached_string_repr \<Rightarrow> 't \<Rightarrow> 't"
    and as_hex :: "'t \<Rightarrow> ('t \<times> string) run"
  assumes raw_set: "raw (set_cell c x) = raw x"
    and cell_set: "cell (set_cell c x) = c"
    and set_same: "set_cell (cell x) x = x"
    and as_hex_eq: "as_hex x =
      run_bind (get_or_init (cell x) (colon_string (raw x))) (\<lambda>(c, s). Ret (set_cell c x, s))"
begin

lemma as_hex_renders:
  assumes "repr_in_sync (cell x) (raw x)" and "raw x \<noteq> []"
  shows "\<exists>x' s. as_hex x = Ret (x', s) \<and> colon_string (raw x) = Ret s \<and> raw x' = raw x
           \<and> repr_in_sync (cell x') (raw x') \<and> as_hex x' = Ret (x', s)"
proof -
  obtain s where s: "colon_string (raw x) = Ret s"
    using assms(2) colon_string_returns_iff [of "raw x"] by (auto simp: returns_iff)
  let ?x' = "set_cell (CachedStringRepr (Some s)) x"
  have "as_hex x = Ret (?x', s)"
  proof (cases "cell x")
    case (CachedStringRepr o')
    show ?thesis
    proof (cases o')
      case None
      then show ?thesis using CachedStringRepr s by (simp add: as_hex_eq)
    next
      case (Some t)
      then have "t = s" using assms(1) CachedStringRepr s by simp
      then show ?thesis using CachedStringRepr Some by (simp add: as_hex_eq)
    qed
  qed
  moreover have "as_hex ?x' = Ret (?x', s)"
    using set_same [of ?x'] by (simp add: as_hex_eq cell_set)
  moreover have "repr_in_sync (cell ?x') (raw ?x')" by (simp add: cell_set raw_set s)
  ultimately show ?thesis using s raw_set by metis
qed

lemma as_hex_injective:
  assumes "repr_in_sync (cell x) (raw x)" "repr_in_sync (cell y) (raw y)" "raw x \<noteq> []" "raw y \<noteq> []"
    and "as_hex x = Ret (x', s)" and "as_hex y = Ret (y', s)"
  shows "raw x = raw y"
proof -
  have "colon_string (raw x) = Ret s" using as_hex_renders [of x] assms by auto
  moreover have "colon_string (raw y) = Ret s" using as_hex_renders [of y] assms by auto
  ultimately show ?thesis by (rule colon_string_inj)
qed

end

section \<open>Properties\<close>

text \<open>
  The colon-separated rendering panics exactly on the empty input; otherwise it has three
  characters per byte less one, and stripping the colons and decoding the hex digits gives the
  bytes back, so different inputs never share a rendering.
\<close>

lemma colon_string_correct:
  "(returns (colon_string bs) \<longleftrightarrow> bs \<noteq> [])
   \<and> (colon_string bs = Ret s \<longrightarrow>
        length s = 3 * length bs - 1 \<and> hex_decode (strip_colons s) = Some bs
        \<and> (colon_string cs = Ret s \<longrightarrow> cs = bs))"
  using colon_string_returns_iff [of bs] colon_string_length [of bs s] colon_string_decodes [of bs s]
    colon_string_inj [of bs s cs] by auto

lemma colon_string_correct_witness:
  "colon_string [42, 13] = Ret ''2a:0d'' \<and> hex_decode (strip_colons ''2a:0d'') = Some [42, 13]"
proof -
  have "hex_byte 42 = ''2a''" "hex_byte 13 = ''0d''"
    by (simp_all add: hex_byte_def hex_digit_def)
  then have "colon_string [42, 13] = Ret ''2a:0d''"
    by (simp add: colon_string_nonempty)
  then show ?thesis
    using colon_string_correct [of "[42, 13]" "''2a:0d''"] by blast
qed

end
