(* ===== verification/Hash_Sign.thy ===== *)
theory Hash_Sign
  imports Hex_Repr
begin

text \<open>
  Hashing, key identifiers, signatures and keys of \<open>rc-crypto\<close>: \<open>hash/traits.rs\<close>,
  \<open>hash/digest.rs\<close>, \<open>hash/sha256.rs\<close>, \<open>signature.rs\<close>, \<open>signer.rs\<close>,
  \<open>keys/key_id.rs\<close>, \<open>keys/private.rs\<close> and \<open>keys/public.rs\<close>.

  The cryptographic module (\<open>aws-lc-rs\<close>) and the ASN.1 encoder of \<open>rcgen\<close> are
  parameters: \<open>'h sha_lib\<close> holds the incremental SHA-256 context and \<open>'k ecdsa_lib\<close>
  the ECDSA-P256 key operations. Randomness is the argument \<open>seed\<close> of the calls that draw it.
\<close>

section \<open>SHA-256\<close>

record 'h sha_lib =
  ctx_new :: 'h
  ctx_update :: "'h \<Rightarrow> bytes \<Rightarrow> 'h"
  ctx_finish :: "'h \<Rightarrow> bytes"

text \<open>
  The documented behaviour of the hash module: a digest has 32 bytes, and splitting the input
  over several updates does not change it.
\<close>

definition sha_digest_len :: "'h sha_lib \<Rightarrow> bool" where
  "sha_digest_len S \<longleftrightarrow> (\<forall>c. length (ctx_finish S c) = 32)"

definition sha_incremental :: "'h sha_lib \<Rightarrow> bool" where
  "sha_incremental S \<longleftrightarrow> (\<forall>c a b. ctx_finish S (ctx_update S (ctx_update S c a) b) =
     ctx_finish S (ctx_update S c (a @ b)))"

definition SHA256_OUTPUT_LEN :: nat where
  "SHA256_OUTPUT_LEN = 32"

datatype digest = Digest bytes

fun digest_as_bytes :: "digest \<Rightarrow> bytes" where
  "digest_as_bytes (Digest d) = d"

definition digest_from_raw :: "bytes \<Rightarrow> digest" where
  "digest_from_raw raw = Digest raw"

definition digest_eq :: "digest \<Rightarrow> digest \<Rightarrow> bool" where
  "digest_eq a b = (digest_as_bytes a = digest_as_bytes b)"

definition digest_hash :: "digest \<Rightarrow> nat \<times> bytes" where
  "digest_hash d = (length (digest_as_bytes d), digest_as_bytes d)"

definition sha256_incremental :: "'h sha_lib \<Rightarrow> 'h" where
  "sha256_incremental S = ctx_new S"

definition sha256_update :: "'h sha_lib \<Rightarrow> 'h \<Rightarrow> bytes \<Rightarrow> 'h" where
  "sha256_update S c data = ctx_update S c data"

definition sha256_finish :: "'h sha_lib \<Rightarrow> 'h \<Rightarrow> digest run" where
  "sha256_finish S c =
     (let out = ctx_finish S c in
      if length out = SHA256_OUTPUT_LEN then Ret (digest_from_raw out)
      else Panic ''sha256 digest is 32 bytes'')"

definition hash_data :: "'h sha_lib \<Rightarrow> bytes \<Rightarrow> digest run" where
  "hash_data S data =
     (let ctx = sha256_incremental S;
          ctx = sha256_update S ctx data
      in sha256_finish S ctx)"

section \<open>Signatures\<close>

definition MAX_LEN :: nat where
  "MAX_LEN = 120"

record signature =
  sig_data :: bytes
  sig_len :: byte

definition signature_try_from :: "bytes \<Rightarrow> (string + signature) run" where
  "signature_try_from value =
     (if length value > MAX_LEN then Ret (Err ''invalid signature: too long'')
      else
        let data = replicate MAX_LEN 0;
            data = value @ drop (length value) data
        in if length value < 256
           then Ret (Ok \<lparr>sig_data = data, sig_len = of_nat (length value)\<rparr>)
           else Panic ''signature is too large'')"

definition signature_as_ref :: "signature \<Rightarrow> bytes run" where
  "signature_as_ref s =
     (if unat (sig_len s) \<le> length (sig_data s)
      then Ret (take (unat (sig_len s)) (sig_data s))
      else Panic ''range end index out of range for slice'')"

definition signature_eq :: "signature \<Rightarrow> signature \<Rightarrow> bool" where
  "signature_eq a b = (sig_data a = sig_data b \<and> sig_len a = sig_len b)"

text \<open>
  A formatter is a state and a \<open>write_str\<close> that either fails or gives the next state.
\<close>

datatype fmt_error = FmtError

fun write_hex :: "('w \<Rightarrow> string \<Rightarrow> fmt_error + 'w) \<Rightarrow> bytes \<Rightarrow> 'w \<Rightarrow> fmt_error + 'w" where
  "write_hex write [] buf = Ok buf"
| "write_hex write (b # bs) buf =
     (case write buf (hex_byte b) of Inl e \<Rightarrow> Err e | Inr buf' \<Rightarrow> write_hex write bs buf')"

definition signature_as_hex_str ::
  "('w \<Rightarrow> string \<Rightarrow> fmt_error + 'w) \<Rightarrow> signature \<Rightarrow> 'w \<Rightarrow> (fmt_error + 'w) run" where
  "signature_as_hex_str write s buf =
     run_bind (signature_as_ref s) (\<lambda>bs. Ret (write_hex write bs buf))"

definition signature_debug ::
  "('w \<Rightarrow> string \<Rightarrow> fmt_error + 'w) \<Rightarrow> signature \<Rightarrow> 'w \<Rightarrow> (fmt_error + 'w) run" where
  "signature_debug write s f =
     (case write f ''Signature('' of
        Inl e \<Rightarrow> Ret (Err e)
      | Inr f \<Rightarrow> run_bind (signature_as_hex_str write s f)
          (\<lambda>r. case r of Inl e \<Rightarrow> Ret (Err e) | Inr f \<Rightarrow> Ret (write f '')'')))"

section \<open>Keys and key identifiers\<close>

type_synonym seed = nat

record 'k ecdsa_lib =
  try_fips_mode :: bool
  generate_pkcs8 :: "seed \<Rightarrow> unit + bytes"
  from_pkcs8 :: "bytes \<Rightarrow> unit + 'k"
  kp_public_key :: "'k \<Rightarrow> bytes"
  kp_sign :: "'k \<Rightarrow> seed \<Rightarrow> bytes \<Rightarrow> unit + bytes"
  unparsed_verify :: "bytes \<Rightarrow> bytes \<Rightarrow> bytes \<Rightarrow> bool"
  subject_public_key_info :: "bytes \<Rightarrow> bytes"

datatype public_key = PublicKey bytes

fun der_bytes :: "public_key \<Rightarrow> bytes" where
  "der_bytes (PublicKey raw) = raw"

record key_id =
  kid_digest :: digest
  kid_rendered :: cached_string_repr

datatype key_id_parse_error = KeyIdParseError nat

definition key_id_as_bytes :: "key_id \<Rightarrow> bytes" where
  "key_id_as_bytes k = digest_as_bytes (kid_digest k)"

definition key_id_as_hex_str :: "key_id \<Rightarrow> (key_id \<times> string) run" where
  "key_id_as_hex_str k =
     run_bind (get_or_init (kid_rendered k) (colon_string (key_id_as_bytes k)))
       (\<lambda>(c, s). Ret (k\<lparr>kid_rendered := c\<rparr>, s))"

definition key_id_from :: "'h sha_lib \<Rightarrow> 'k ecdsa_lib \<Rightarrow> public_key \<Rightarrow> key_id run" where
  "key_id_from S E key =
     (let info = subject_public_key_info E (der_bytes key) in
      run_bind (hash_data S info)
        (\<lambda>d. Ret \<lparr>kid_digest = d, kid_rendered = cached_default\<rparr>))"

definition key_id_try_from :: "bytes \<Rightarrow> key_id_parse_error + key_id" where
  "key_id_try_from value =
     (if length value = SHA256_OUTPUT_LEN
      then Ok \<lparr>kid_digest = digest_from_raw value, kid_rendered = cached_default\<rparr>
      else Err (KeyIdParseError (length value)))"

definition key_id_eq :: "key_id \<Rightarrow> key_id \<Rightarrow> bool" where
  "key_id_eq a b =
     (digest_eq (kid_digest a) (kid_digest b) \<and> cached_eq (kid_rendered a) (kid_rendered b))"

datatype 'k private_key = PrivateKey 'k

text \<open>
  \<open>fips_build\<close> is whether neither of the features \<open>dd-source\<close> and \<open>non-fips\<close> is on.
\<close>

definition private_key_new :: "'k ecdsa_lib \<Rightarrow> bool \<Rightarrow> seed \<Rightarrow> 'k private_key run" where
  "private_key_new E fips_build rand =
     assert_that (fips_build \<longrightarrow> try_fips_mode E) ''crypto module must be in FIPS mode''
       (expect (generate_pkcs8 E rand) ''ecdsa key generation failed'' (\<lambda>raw.
          expect (from_pkcs8 E raw) ''invalid pkcs8'' (\<lambda>key. Ret (PrivateKey key))))"

fun private_key_public_key :: "'k ecdsa_lib \<Rightarrow> 'k private_key \<Rightarrow> public_key" where
  "private_key_public_key E (PrivateKey key) = PublicKey (kp_public_key E key)"

definition signature_from_lib :: "bytes \<Rightarrow> signature run" where
  "signature_from_lib value =
     run_bind (signature_try_from value)
       (\<lambda>r. expect r ''called `Result::unwrap()` on an `Err` value'' Ret)"

fun sign :: "'k ecdsa_lib \<Rightarrow> 'k private_key \<Rightarrow> seed \<Rightarrow> bytes \<Rightarrow> signature run" where
  "sign E (PrivateKey key) rand data =
     expect (kp_sign E key rand data) ''signature generation failed'' signature_from_lib"

datatype signature_verify_err = SignatureVerifyErr

definition verify_signature ::
  "'k ecdsa_lib \<Rightarrow> public_key \<Rightarrow> bytes \<Rightarrow> signature \<Rightarrow> (signature_verify_err + unit) run" where
  "verify_signature E key data sig =
     run_bind (signature_as_ref sig) (\<lambda>s.
       Ret (if unparsed_verify E (der_bytes key) data s then Ok () else Err SignatureVerifyErr))"

definition public_key_key_id :: "'h sha_lib \<Rightarrow> 'k ecdsa_lib \<Rightarrow> public_key \<Rightarrow> key_id run" where
  "public_key_key_id S E key = key_id_from S E key"

section \<open>Hash lemmas\<close>

lemma sha256_split_updates:
  assumes "sha_incremental S"
  shows "sha256_finish S (sha256_update S (sha256_update S (sha256_incremental S) a) b) =
         hash_data S (a @ b)"
  using assms
  by (simp add: sha256_finish_def sha256_update_def hash_data_def sha_incremental_def Let_def)

lemma hash_data_returns:
  assumes "sha_digest_len S"
  shows "hash_data S d = Ret (Digest (ctx_finish S (ctx_update S (ctx_new S) d)))"
  using assms by (simp add: hash_data_def sha256_finish_def sha256_update_def
      sha256_incremental_def sha_digest_len_def digest_from_raw_def SHA256_OUTPUT_LEN_def Let_def)

lemma hash_data_length:
  assumes "hash_data S d = Ret h"
  shows "length (digest_as_bytes h) = 32"
  using assms by (auto simp: hash_data_def sha256_finish_def SHA256_OUTPUT_LEN_def
      digest_from_raw_def Let_def split: if_splits)

lemma digest_hash_respects_eq: "digest_eq a b \<Longrightarrow> digest_hash a = digest_hash b"
  by (simp add: digest_eq_def digest_hash_def)

section \<open>Signature lemmas\<close>

text \<open>The invariant of the fixed buffer: full width, and the tail beyond the length is zero.\<close>

definition signature_wf :: "signature \<Rightarrow> bool" where
  "signature_wf s \<longleftrightarrow> length (sig_data s) = MAX_LEN \<and> unat (sig_len s) \<le> MAX_LEN
     \<and> (\<forall>b \<in> set (drop (unat (sig_len s)) (sig_data s)). b = 0)"

lemma signature_len_unat: "n \<le> MAX_LEN \<Longrightarrow> unat (of_nat n :: byte) = n"
  by (simp add: MAX_LEN_def unsigned_of_nat take_bit_nat_eq_self)

lemma signature_try_from_cases:
  "signature_try_from v =
     (if length v > 120 then Ret (Err ''invalid signature: too long'')
      else Ret (Ok \<lparr>sig_data = v @ replicate (120 - length v) 0, sig_len = of_nat (length v)\<rparr>))"
  by (simp add: signature_try_from_def MAX_LEN_def Let_def)

lemma signature_try_from_returns: "returns (signature_try_from v)"
  by (simp add: signature_try_from_cases)

lemma signature_try_from_wf:
  assumes "signature_try_from v = Ret (Ok s)"
  shows "signature_wf s"
  using assms signature_len_unat [of "length v"]
  by (auto simp: signature_try_from_cases signature_wf_def MAX_LEN_def split: if_splits)

lemma signature_roundtrip:
  assumes "signature_try_from v = Ret (Ok s)"
  shows "signature_as_ref s = Ret v"
  using assms signature_len_unat [of "length v"]
  by (auto simp: signature_try_from_cases signature_as_ref_def MAX_LEN_def split: if_splits)

lemma signature_as_ref_returns:
  "signature_wf s \<Longrightarrow> signature_as_ref s = Ret (take (unat (sig_len s)) (sig_data s))"
  by (simp add: signature_wf_def signature_as_ref_def)

lemma signature_eq_iff_bytes:
  assumes "signature_wf a" "signature_wf b"
  shows "signature_eq a b \<longleftrightarrow> signature_as_ref a = signature_as_ref b"
proof
  assume "signature_eq a b"
  then show "signature_as_ref a = signature_as_ref b"
    by (simp add: signature_eq_def signature_as_ref_def)
next
  assume eq: "signature_as_ref a = signature_as_ref b"
  have split: "sig_data s = take (unat (sig_len s)) (sig_data s) @
      replicate (MAX_LEN - unat (sig_len s)) 0" if "signature_wf s" for s
  proof -
    have "drop (unat (sig_len s)) (sig_data s) =
        replicate (length (drop (unat (sig_len s)) (sig_data s))) 0"
      using that by (intro replicate_eqI) (auto simp: signature_wf_def)
    then show ?thesis
      using that by (metis append_take_drop_id length_drop signature_wf_def)
  qed
  have t: "take (unat (sig_len a)) (sig_data a) = take (unat (sig_len b)) (sig_data b)"
    using eq assms by (simp add: signature_as_ref_returns)
  then have "length (take (unat (sig_len a)) (sig_data a)) =
      length (take (unat (sig_len b)) (sig_data b))" by simp
  then have l: "unat (sig_len a) = unat (sig_len b)"
    using assms by (simp add: signature_wf_def)
  then have "sig_data a = sig_data b"
    using split [OF assms(1)] split [OF assms(2)] t by metis
  then show "signature_eq a b"
    using l by (simp add: signature_eq_def word_unat_eq_iff)
qed

lemma write_hex_string:
  "write_hex (\<lambda>w s. Ok (w @ s)) bs buf = Ok (buf @ concat (map hex_byte bs))"
  by (induction bs arbitrary: buf) simp_all

section \<open>Key lemmas\<close>

lemma sign_verifies:
  assumes lib: "\<And>k r d s. kp_sign E k r d = Ok s \<Longrightarrow> unparsed_verify E (kp_public_key E k) d s"
    and signed: "sign E key rand data = Ret sig"
  shows "verify_signature E (private_key_public_key E key) data sig = Ret (Ok ())"
proof (cases key)
  case (PrivateKey k)
  obtain raw where raw: "kp_sign E k rand data = Ok raw" "signature_try_from raw = Ret (Ok sig)"
    using signed PrivateKey by (auto simp: outcome_simps signature_from_lib_def)
  then show ?thesis
    using PrivateKey lib signature_roundtrip [OF raw(2)] by (simp add: verify_signature_def)
qed

lemma key_id_from_length:
  assumes "key_id_from S E key = Ret k"
  shows "length (key_id_as_bytes k) = 32"
  using assms hash_data_length
  by (fastforce simp: key_id_from_def key_id_as_bytes_def outcome_simps Let_def)

lemma key_id_try_from_roundtrip:
  "key_id_try_from v = Ok k \<Longrightarrow> key_id_as_bytes k = v \<and> length v = 32"
  by (auto simp: key_id_try_from_def key_id_as_bytes_def digest_from_raw_def
      SHA256_OUTPUT_LEN_def split: if_splits)

interpretation key_id_rendered:
  rendered key_id_as_bytes kid_rendered "\<lambda>c k. k\<lparr>kid_rendered := c\<rparr>" key_id_as_hex_str
  by unfold_locales (simp_all add: key_id_as_bytes_def key_id_as_hex_str_def)

section \<open>A sample instance\<close>

text \<open>
  An instance of the hash parameter with the documented behaviour, for evaluating the model on
  concrete inputs: the context is the input so far, and the digest its first 32 bytes, padded.
\<close>

definition sample_sha :: "bytes sha_lib" where
  "sample_sha = \<lparr>ctx_new = [], ctx_update = (@), ctx_finish = (\<lambda>c. take 32 (c @ replicate 32 0))\<rparr>"

lemma sample_sha_laws: "sha_digest_len sample_sha" "sha_incremental sample_sha"
  by (simp_all add: sample_sha_def sha_digest_len_def sha_incremental_def min_def)

section \<open>Properties\<close>

text \<open>
  A signature is stored exactly when it has at most 120 bytes, without a panic; reading it back
  gives the same bytes, and two stored signatures are equal as structs exactly when their bytes
  are, because the unused tail of the buffer is always zero.
\<close>

lemma signature_store_roundtrip:
  "if length v \<le> 120
   then \<exists>s. signature_try_from v = Ret (Ok s) \<and> signature_as_ref s = Ret v
     \<and> (\<forall>w t. signature_try_from w = Ret (Ok t) \<longrightarrow> signature_eq s t = (v = w))
   else signature_try_from v = Ret (Err ''invalid signature: too long'')"
proof (cases "length v \<le> 120")
  case True
  then obtain s where s: "signature_try_from v = Ret (Ok s)"
    by (simp add: signature_try_from_cases)
  have "signature_eq s t = (v = w)" if "signature_try_from w = Ret (Ok t)" for w t
    using signature_eq_iff_bytes [OF signature_try_from_wf [OF s] signature_try_from_wf [OF that]]
      signature_roundtrip [OF s] signature_roundtrip [OF that] by simp
  then show ?thesis
    using True s signature_roundtrip by auto
next
  case False
  then show ?thesis by (simp add: signature_try_from_cases)
qed

lemma signature_store_roundtrip_witness:
  "\<exists>s. signature_try_from [1, 2] = Ret (Ok s) \<and> signature_as_ref s = Ret [1, 2]"
  using signature_store_roundtrip [of "[1, 2]"] by auto

end
