(* ===== verification/Csr.thy ===== *)
theory Csr
  imports Hash_Sign
begin

text \<open>
  Certificate signing requests, \<open>rc-crypto/src/certificate/csr.rs\<close>: the leaf and the
  intermediate profile, and the accessors. The \<open>rcgen\<close> crate is a parameter: its default
  parameters, its distinguished names (the type \<open>'d\<close>), the IA5 check and the serialiser.
  Text is modelled up to U+00FF, a character for a code point.
\<close>

section \<open>Parameters of the certificate generator\<close>

type_synonym rcgen_error = string

datatype basic_constraints = Unconstrained | Constrained byte

datatype is_ca = NoCa | ExplicitNoCa | Ca basic_constraints

datatype dn_type = CommonName | OrganizationName | OrganizationalUnitName | OtherDnType string

datatype dn_value =
    Utf8String string
  | PrintableString string
  | Ia5StringValue string
  | TeletexString string
  | BmpString bytes
  | UniversalString bytes

datatype san_type = DnsName string | OtherSan string

datatype key_usage_purpose = DigitalSignature | KeyCertSign | CrlSign | OtherKeyUsage nat

datatype extended_key_usage_purpose =
    Any
  | ServerAuth
  | ClientAuth
  | CodeSigning
  | EmailProtection
  | TimeStamping
  | OcspSigning
  | OtherExtendedKeyUsage "u64 list"

datatype general_subtree = SubtreeDnsName string | OtherSubtree string

record name_constraints =
  permitted_subtrees :: "general_subtree list"
  excluded_subtrees :: "general_subtree list"

record custom_extension =
  ext_oid :: "u64 list"
  ext_critical :: bool
  ext_content :: bytes

datatype key_id_method = PreSpecified bytes | OtherKeyIdMethod nat

text \<open>Times are seconds since the epoch.\<close>

record 'd certificate_params =
  cp_not_before :: int
  cp_not_after :: int
  cp_is_ca :: is_ca
  cp_serial_number :: "bytes option"
  cp_name_constraints :: "name_constraints option"
  cp_crl_distribution_points :: "string list"
  cp_custom_extensions :: "custom_extension list"
  cp_distinguished_name :: 'd
  cp_subject_alt_names :: "san_type list"
  cp_key_usages :: "key_usage_purpose list"
  cp_extended_key_usages :: "extended_key_usage_purpose list"
  cp_key_identifier_method :: key_id_method
  cp_use_authority_key_identifier_extension :: bool

record ('d, 'k) rcgen_lib =
  params_new :: "string list \<Rightarrow> rcgen_error + 'd certificate_params"
  dn_new :: 'd
  dn_push :: "'d \<Rightarrow> dn_type \<Rightarrow> dn_value \<Rightarrow> 'd"
  dn_get :: "'d \<Rightarrow> dn_type \<Rightarrow> dn_value option"
  ia5_try_from :: "string \<Rightarrow> rcgen_error + string"
  serialize_request :: "'d certificate_params \<Rightarrow> 'k private_key \<Rightarrow> seed \<Rightarrow> rcgen_error + bytes"
  request_pem :: "bytes \<Rightarrow> rcgen_error + string"

text \<open>Documented: pushing an entry makes it the value of its type and no other's.\<close>

definition dn_laws :: "('d, 'k) rcgen_lib \<Rightarrow> bool" where
  "dn_laws R \<longleftrightarrow> (\<forall>d t v t'. dn_get R (dn_push R d t v) t' = (if t = t' then Some v else dn_get R d t'))"

section \<open>Requests\<close>

definition CSR_ON :: string where
  "CSR_ON = ''Datadog, Inc.''"

definition CSR_OU :: string where
  "CSR_OU = ''RC Attestation Certificate''"

datatype csr_error = San rcgen_error | Serialise rcgen_error | EmptyIdent

record 'd certificate_signing_request =
  csr_profile :: "'d certificate_params"
  csr_serialised :: bytes

text \<open>\<open>str::trim\<close>: the characters with the property White\_Space, up to U+00FF.\<close>

definition is_whitespace :: "char \<Rightarrow> bool" where
  "is_whitespace c = (let n = of_char c :: nat in (9 \<le> n \<and> n \<le> 13) \<or> n = 32 \<or> n = 133 \<or> n = 160)"

definition trim :: "string \<Rightarrow> string" where
  "trim s = rev (dropWhile is_whitespace (rev (dropWhile is_whitespace s)))"

definition csr_dn :: "('d, 'k) rcgen_lib \<Rightarrow> string \<Rightarrow> 'd" where
  "csr_dn R cn =
     (let d = dn_new R;
          d = dn_push R d CommonName (Utf8String cn);
          d = dn_push R d OrganizationName (Utf8String CSR_ON)
      in dn_push R d OrganizationalUnitName (Utf8String CSR_OU))"

definition new_leaf ::
  "'h sha_lib \<Rightarrow> 'k ecdsa_lib \<Rightarrow> ('d, 'k) rcgen_lib \<Rightarrow> 'k private_key \<Rightarrow> seed \<Rightarrow> string \<Rightarrow> string
     \<Rightarrow> (csr_error + 'd certificate_signing_request) run" where
  "new_leaf S E R private_key rand cn san =
     (if trim cn = [] \<or> trim san = [] then Ret (Err EmptyIdent)
      else case params_new R [] of
        Inl e \<Rightarrow> Ret (Err (San e))
      | Inr profile \<Rightarrow>
          let profile = profile\<lparr>cp_is_ca := NoCa\<rparr>;
              profile = profile\<lparr>cp_serial_number := None, cp_name_constraints := None,
                cp_crl_distribution_points := [], cp_custom_extensions := []\<rparr>;
              profile = profile\<lparr>cp_distinguished_name := csr_dn R cn\<rparr>
          in case ia5_try_from R san of
            Inl e \<Rightarrow> Ret (Err (San e))
          | Inr name \<Rightarrow>
              let profile = profile\<lparr>cp_subject_alt_names := [DnsName name]\<rparr>;
                  profile = profile\<lparr>cp_key_usages := [DigitalSignature],
                    cp_extended_key_usages := [CodeSigning]\<rparr>
              in run_bind (public_key_key_id S E (private_key_public_key E private_key)) (\<lambda>kid.
                let profile = profile\<lparr>cp_key_identifier_method := PreSpecified (key_id_as_bytes kid)\<rparr>
                in Ret (try_op (serialize_request R profile private_key rand) Serialise (\<lambda>serialised.
                  Ok \<lparr>csr_profile = profile, csr_serialised = serialised\<rparr>))))"

definition new_intermediate ::
  "'h sha_lib \<Rightarrow> 'k ecdsa_lib \<Rightarrow> ('d, 'k) rcgen_lib \<Rightarrow> 'k private_key \<Rightarrow> seed \<Rightarrow> string
     \<Rightarrow> (csr_error + 'd certificate_signing_request) run" where
  "new_intermediate S E R private_key rand cn =
     (if trim cn = [] then Ret (Err EmptyIdent)
      else case params_new R [] of
        Inl e \<Rightarrow> Ret (Err (San e))
      | Inr profile \<Rightarrow>
          let profile = profile\<lparr>cp_name_constraints := None\<rparr>;
              profile = profile\<lparr>cp_serial_number := None, cp_name_constraints := None,
                cp_crl_distribution_points := [], cp_custom_extensions := []\<rparr>;
              profile = profile\<lparr>cp_distinguished_name := csr_dn R cn\<rparr>;
              profile = profile\<lparr>cp_is_ca := NoCa\<rparr>;
              profile = profile\<lparr>cp_key_usages := [KeyCertSign, CrlSign],
                cp_extended_key_usages := []\<rparr>
          in run_bind (public_key_key_id S E (private_key_public_key E private_key)) (\<lambda>kid.
            let profile = profile\<lparr>cp_key_identifier_method := PreSpecified (key_id_as_bytes kid)\<rparr>
            in Ret (try_op (serialize_request R profile private_key rand) Serialise (\<lambda>serialised.
              Ok \<lparr>csr_profile = profile, csr_serialised = serialised\<rparr>))))"

definition as_der_bytes :: "'d certificate_signing_request \<Rightarrow> bytes" where
  "as_der_bytes self = csr_serialised self"

definition as_pem_string :: "('d, 'k) rcgen_lib \<Rightarrow> 'd certificate_signing_request \<Rightarrow> string run" where
  "as_pem_string R self =
     expect (request_pem R (csr_serialised self)) ''failed to generate CSR PEM'' Ret"

definition common_name :: "('d, 'k) rcgen_lib \<Rightarrow> 'd certificate_signing_request \<Rightarrow> string run" where
  "common_name R self =
     (case dn_get R (cp_distinguished_name (csr_profile self)) CommonName of
        None \<Rightarrow> Panic ''CSR should always have a CommonName''
      | Some (Utf8String s) \<Rightarrow> Ret s
      | Some (PrintableString s) \<Rightarrow> Ret s
      | Some (Ia5StringValue s) \<Rightarrow> Ret s
      | Some (TeletexString s) \<Rightarrow> Ret s
      | Some _ \<Rightarrow> Panic ''Unexpected DnValue type for CommonName'')"

section \<open>Lemmas\<close>

lemma trim_empty_iff: "trim s = [] \<longleftrightarrow> (\<forall>c \<in> set s. is_whitespace c)"
proof -
  have "trim s = [] \<longleftrightarrow> (\<forall>c \<in> set (dropWhile is_whitespace s). is_whitespace c)"
    by (simp add: trim_def)
  also have "\<dots> \<longleftrightarrow> (\<forall>c \<in> set s. is_whitespace c)"
    by (metis dropWhile_eq_Nil_conv hd_dropWhile list.set_sel(1) list.set(1) empty_iff)
  finally show ?thesis .
qed

lemma csr_dn_get:
  "dn_laws R \<Longrightarrow> dn_get R (csr_dn R cn) CommonName = Some (Utf8String cn)"
  by (simp add: csr_dn_def dn_laws_def Let_def)

lemma new_leaf_Ok:
  assumes "new_leaf S E R key rand cn san = Ret (Ok r)"
  shows "\<exists>base kid name.
    params_new R [] = Ok base \<and> trim cn \<noteq> [] \<and> trim san \<noteq> [] \<and> ia5_try_from R san = Ok name
    \<and> key_id_from S E (private_key_public_key E key) = Ret kid
    \<and> csr_profile r = base\<lparr>cp_is_ca := NoCa, cp_serial_number := None, cp_name_constraints := None,
        cp_crl_distribution_points := [], cp_custom_extensions := [],
        cp_distinguished_name := csr_dn R cn, cp_subject_alt_names := [DnsName name],
        cp_key_usages := [DigitalSignature], cp_extended_key_usages := [CodeSigning],
        cp_key_identifier_method := PreSpecified (key_id_as_bytes kid)\<rparr>
    \<and> serialize_request R (csr_profile r) key rand = Ok (csr_serialised r)"
  using assms
  by (auto simp: new_leaf_def public_key_key_id_def outcome_simps Let_def
      split: if_splits sum.splits)

lemma new_intermediate_Ok:
  assumes "new_intermediate S E R key rand cn = Ret (Ok r)"
  shows "\<exists>base kid.
    params_new R [] = Ok base \<and> trim cn \<noteq> []
    \<and> key_id_from S E (private_key_public_key E key) = Ret kid
    \<and> csr_profile r = base\<lparr>cp_serial_number := None, cp_name_constraints := None,
        cp_crl_distribution_points := [], cp_custom_extensions := [],
        cp_distinguished_name := csr_dn R cn, cp_is_ca := NoCa,
        cp_key_usages := [KeyCertSign, CrlSign], cp_extended_key_usages := [],
        cp_key_identifier_method := PreSpecified (key_id_as_bytes kid)\<rparr>
    \<and> serialize_request R (csr_profile r) key rand = Ok (csr_serialised r)"
  using assms
  by (auto simp: new_intermediate_def public_key_key_id_def outcome_simps Let_def
      split: if_splits sum.splits)

lemma csr_common_name:
  assumes "dn_laws R" and "cp_distinguished_name (csr_profile r) = csr_dn R cn"
  shows "common_name R r = Ret cn"
  using assms by (simp add: common_name_def csr_dn_get)

section \<open>A sample instance\<close>

definition sample_ecdsa :: "bytes ecdsa_lib" where
  "sample_ecdsa = \<lparr>try_fips_mode = True, generate_pkcs8 = (\<lambda>r. Ok [of_nat r]), from_pkcs8 = Ok,
     kp_public_key = id, kp_sign = (\<lambda>k r d. Ok (k @ d)), unparsed_verify = (\<lambda>k d s. s = k @ d),
     subject_public_key_info = id\<rparr>"

definition sample_rcgen :: "(dn_type \<Rightarrow> dn_value option, bytes) rcgen_lib" where
  "sample_rcgen = \<lparr>params_new = (\<lambda>_. Ok \<lparr>cp_not_before = 0, cp_not_after = 100, cp_is_ca = ExplicitNoCa, cp_serial_number = None,
       cp_name_constraints = None, cp_crl_distribution_points = [], cp_custom_extensions = [],
       cp_distinguished_name = (\<lambda>_. None), cp_subject_alt_names = [], cp_key_usages = [],
       cp_extended_key_usages = [], cp_key_identifier_method = OtherKeyIdMethod 0,
       cp_use_authority_key_identifier_extension = False\<rparr>),
     dn_new = (\<lambda>_. None), dn_push = (\<lambda>d t v. d(t \<mapsto> v)), dn_get = (\<lambda>d t. d t),
     ia5_try_from = Ok, serialize_request = (\<lambda>p k r. Ok [1]), request_pem = (\<lambda>b. Ok ''pem'')\<rparr>"

lemma sample_rcgen_dn_laws: "dn_laws sample_rcgen"
  by (auto simp: dn_laws_def sample_rcgen_def)

section \<open>Properties\<close>

text \<open>
  A request for a leaf certificate is refused as blank exactly when its common name or its
  alternative name is all white space. A request that is built asks for an end entity that signs
  data and code, names exactly the one DNS name given, carries the 32-byte SHA-256 of the key's
  public key info as its subject key identifier, leaves serial number, constraints, revocation and
  custom extensions out, and gives back its common name without a panic.
\<close>

lemma leaf_request_profile:
  assumes "dn_laws R"
  shows "(new_leaf S E R key rand cn san = Ret (Err EmptyIdent) \<longleftrightarrow>
      (\<forall>c \<in> set cn. is_whitespace c) \<or> (\<forall>c \<in> set san. is_whitespace c))
    \<and> (new_leaf S E R key rand cn san = Ret (Ok r) \<longrightarrow>
      (\<exists>kid name. key_id_from S E (private_key_public_key E key) = Ret kid
        \<and> length (key_id_as_bytes kid) = 32 \<and> ia5_try_from R san = Ok name
        \<and> cp_key_identifier_method (csr_profile r) = PreSpecified (key_id_as_bytes kid)
        \<and> cp_subject_alt_names (csr_profile r) = [DnsName name])
      \<and> cp_is_ca (csr_profile r) = NoCa
      \<and> cp_key_usages (csr_profile r) = [DigitalSignature]
      \<and> cp_extended_key_usages (csr_profile r) = [CodeSigning]
      \<and> cp_serial_number (csr_profile r) = None \<and> cp_name_constraints (csr_profile r) = None
      \<and> cp_crl_distribution_points (csr_profile r) = []
      \<and> cp_custom_extensions (csr_profile r) = []
      \<and> common_name R r = Ret cn
      \<and> serialize_request R (csr_profile r) key rand = Ok (as_der_bytes r))"
proof -
  have "new_leaf S E R key rand cn san = Ret (Err EmptyIdent) \<longleftrightarrow> trim cn = [] \<or> trim san = []"
    by (auto simp: new_leaf_def outcome_simps Let_def split: sum.splits)
  then show ?thesis
    using new_leaf_Ok [of S E R key rand cn san r] key_id_from_length csr_common_name [OF assms]
    by (auto simp: trim_empty_iff as_der_bytes_def) 
qed

lemma leaf_request_profile_witness:
  "\<exists>r. new_leaf sample_sha sample_ecdsa sample_rcgen (PrivateKey [3]) 0 ''a'' ''b'' = Ret (Ok r)
     \<and> cp_extended_key_usages (csr_profile r) = [CodeSigning]
     \<and> common_name sample_rcgen r = Ret ''a''"
proof -
  obtain r where "new_leaf sample_sha sample_ecdsa sample_rcgen (PrivateKey [3]) 0 ''a'' ''b'' = Ret (Ok r)"
    by (simp add: new_leaf_def sample_rcgen_def public_key_key_id_def key_id_from_def
        hash_data_returns [OF sample_sha_laws(1)] trim_def is_whitespace_def Let_def)
  then show ?thesis
    using leaf_request_profile [OF sample_rcgen_dn_laws, of sample_sha sample_ecdsa "PrivateKey [3]"
        0 "''a''" "''b''" r] by blast
qed

text \<open>
  A request for an intermediate certificate is refused as blank exactly when its common name is
  all white space, and a request that is built asks for certificate and revocation-list signing and for no extended
  key usage, under the same key identifier rule and the same omissions as a leaf request.
\<close>

lemma intermediate_request_profile:
  assumes "dn_laws R"
  shows "(new_intermediate S E R key rand cn = Ret (Err EmptyIdent) \<longleftrightarrow>
      (\<forall>c \<in> set cn. is_whitespace c))
    \<and> (new_intermediate S E R key rand cn = Ret (Ok r) \<longrightarrow>
      (\<exists>kid. key_id_from S E (private_key_public_key E key) = Ret kid
        \<and> length (key_id_as_bytes kid) = 32
        \<and> cp_key_identifier_method (csr_profile r) = PreSpecified (key_id_as_bytes kid))
      \<and> cp_is_ca (csr_profile r) = NoCa
      \<and> cp_key_usages (csr_profile r) = [KeyCertSign, CrlSign]
      \<and> cp_extended_key_usages (csr_profile r) = []
      \<and> cp_serial_number (csr_profile r) = None \<and> cp_name_constraints (csr_profile r) = None
      \<and> common_name R r = Ret cn)"
proof -
  have "new_intermediate S E R key rand cn = Ret (Err EmptyIdent) \<longleftrightarrow> trim cn = []"
    by (auto simp: new_intermediate_def outcome_simps Let_def split: sum.splits)
  then show ?thesis
    using new_intermediate_Ok [of S E R key rand cn r] key_id_from_length csr_common_name [OF assms]
    by (auto simp: trim_empty_iff)
qed

lemma intermediate_request_profile_witness:
  "new_intermediate sample_sha sample_ecdsa sample_rcgen (PrivateKey [3]) 0 '' '' = Ret (Err EmptyIdent)"
  using intermediate_request_profile [OF sample_rcgen_dn_laws, of sample_sha sample_ecdsa "PrivateKey [3]" 0 "'' ''"]
  by (simp add: is_whitespace_def)

end
