(* ===== verification/Cert_Ids.thy ===== *)
theory Cert_Ids
  imports Hash_Sign
begin

text \<open>
  Identifiers read out of an X509 certificate, \<open>rc-crypto/src/certificate/\<close>: the certificate
  identifier (\<open>id/cert_id.rs\<close>), the issuer's (\<open>id/issuer_cert_id.rs\<close>), the wrapper that
  allows comparing them (\<open>id/dangerous_comparible.rs\<close>), the fingerprint
  (\<open>fingerprint.rs\<close>), the serial number (\<open>serial_number.rs\<close>) and the validity period
  (\<open>validity.rs\<close>).

  The parsed certificate of \<open>x509_parser\<close> appears as the record of the accessors the code
  reads; a timestamp is its number of seconds since the epoch, and the conversion and the text of
  the \<open>jiff\<close> library are parameters.
\<close>

section \<open>The parsed certificate\<close>

datatype parsed_extension =
    SubjectKeyIdentifier bytes
  | AuthorityKeyIdentifier "bytes option"
  | OtherExtension

record x509_certificate =
  as_raw :: bytes
  raw_serial :: bytes
  validity_not_before :: int
  validity_not_after :: int
  iter_extensions :: "parsed_extension list"
  x509_is_ca :: bool
  subject_public_key_data :: bytes
  x509_subject :: string

section \<open>Certificate identifiers\<close>

datatype error_no_ski = ErrorNoSKI

datatype invalid_length = InvalidLength nat

fun got_len :: "invalid_length \<Rightarrow> nat" where
  "got_len (InvalidLength actual_len) = actual_len"

datatype invalid_cert_id = NoSKI error_no_ski | CertIdInvalidLength invalid_length

record cert_id =
  cid_bytes :: bytes
  cid_rendered :: cached_string_repr

definition MIN_LENGTH :: nat where
  "MIN_LENGTH = 16"

definition MAX_LENGTH :: nat where
  "MAX_LENGTH = 64"

definition cert_id_as_hex_str :: "cert_id \<Rightarrow> (cert_id \<times> string) run" where
  "cert_id_as_hex_str self =
     run_bind (get_or_init (cid_rendered self) (colon_string (cid_bytes self)))
       (\<lambda>(c, s). Ret (self\<lparr>cid_rendered := c\<rparr>, s))"

definition cert_id_as_bytes :: "cert_id \<Rightarrow> bytes" where
  "cert_id_as_bytes self = cid_bytes self"

definition cert_id_into_vec :: "cert_id \<Rightarrow> bytes" where
  "cert_id_into_vec cid = cid_bytes cid"

definition cert_id_try_from_slice :: "bytes \<Rightarrow> invalid_length + cert_id" where
  "cert_id_try_from_slice value =
     (if length value < MIN_LENGTH \<or> length value > MAX_LENGTH
      then Err (InvalidLength (length value))
      else Ok \<lparr>cid_bytes = value, cid_rendered = cached_default\<rparr>)"

definition cert_id_try_from_vec :: "bytes \<Rightarrow> invalid_length + cert_id" where
  "cert_id_try_from_vec value =
     (if length value < MIN_LENGTH \<or> length value > MAX_LENGTH
      then Err (InvalidLength (length value))
      else Ok \<lparr>cid_bytes = value, cid_rendered = cached_default\<rparr>)"

fun ski_of :: "parsed_extension \<Rightarrow> bytes option" where
  "ski_of (SubjectKeyIdentifier ski) = Some ski"
| "ski_of _ = None"

definition cert_id_try_from_x509 :: "x509_certificate \<Rightarrow> invalid_cert_id + cert_id" where
  "cert_id_try_from_x509 cert =
     (case find_map ski_of (iter_extensions cert) of
        None \<Rightarrow> Err (NoSKI ErrorNoSKI)
      | Some bs \<Rightarrow> try_op (cert_id_try_from_slice bs) CertIdInvalidLength (\<lambda>i. Ok i))"

text \<open>The derived \<open>Hash\<close>: what the hasher is fed, field by field.\<close>

definition cert_id_hash :: "cert_id \<Rightarrow> nat \<times> bytes \<times> bytes" where
  "cert_id_hash self = (length (cid_bytes self), cid_bytes self, cached_hash (cid_rendered self))"

section \<open>Issuer certificate identifiers\<close>

datatype error_no_aki = ErrorNoAKI

datatype invalid_issuer_cert_id = NoAKI error_no_aki | IssuerInvalidLength invalid_length

datatype issuer_cert_id = IssuerCertId cert_id

fun as_cert_id :: "issuer_cert_id \<Rightarrow> cert_id" where
  "as_cert_id (IssuerCertId c) = c"

definition issuer_cert_id_as_bytes :: "issuer_cert_id \<Rightarrow> bytes" where
  "issuer_cert_id_as_bytes self = cert_id_as_bytes (as_cert_id self)"

definition issuer_cert_id_as_hex_str :: "issuer_cert_id \<Rightarrow> (issuer_cert_id \<times> string) run" where
  "issuer_cert_id_as_hex_str self =
     run_bind (cert_id_as_hex_str (as_cert_id self)) (\<lambda>(c, s). Ret (IssuerCertId c, s))"

definition issuer_cert_id_try_from_slice :: "bytes \<Rightarrow> invalid_length + issuer_cert_id" where
  "issuer_cert_id_try_from_slice value =
     try_op (cert_id_try_from_slice value) id (\<lambda>c. Ok (IssuerCertId c))"

definition issuer_cert_id_try_from_vec :: "bytes \<Rightarrow> invalid_length + issuer_cert_id" where
  "issuer_cert_id_try_from_vec value =
     try_op (cert_id_try_from_vec value) id (\<lambda>c. Ok (IssuerCertId c))"

fun aki_of :: "parsed_extension \<Rightarrow> bytes option" where
  "aki_of (AuthorityKeyIdentifier kid) = kid"
| "aki_of _ = None"

definition issuer_cert_id_try_from_x509 ::
  "x509_certificate \<Rightarrow> invalid_issuer_cert_id + issuer_cert_id" where
  "issuer_cert_id_try_from_x509 cert =
     (case find_map aki_of (iter_extensions cert) of
        None \<Rightarrow> Err (NoAKI ErrorNoAKI)
      | Some bs \<Rightarrow>
          try_op (cert_id_try_from_slice bs) IssuerInvalidLength (\<lambda>c. Ok (IssuerCertId c)))"

section \<open>Comparing identifiers\<close>

datatype 'a cow = Owned 'a | Borrowed 'a

fun cow_ref :: "'a cow \<Rightarrow> 'a" where
  "cow_ref (Owned a) = a"
| "cow_ref (Borrowed a) = a"

datatype 'a dangerous_comparable_id = DangerousComparableId "'a cow"

fun dc_inner :: "'a dangerous_comparable_id \<Rightarrow> 'a" where
  "dc_inner (DangerousComparableId c) = cow_ref c"

definition dc_into_owned :: "'a dangerous_comparable_id \<Rightarrow> 'a dangerous_comparable_id" where
  "dc_into_owned d = DangerousComparableId (Owned (dc_inner d))"

definition as_dangerous_comparable :: "cert_id \<Rightarrow> cert_id dangerous_comparable_id" where
  "as_dangerous_comparable self = DangerousComparableId (Borrowed self)"

definition issuer_as_dangerous_comparable ::
  "issuer_cert_id \<Rightarrow> issuer_cert_id dangerous_comparable_id" where
  "issuer_as_dangerous_comparable self = DangerousComparableId (Borrowed self)"

definition dc_from_cert_id :: "cert_id \<Rightarrow> cert_id dangerous_comparable_id" where
  "dc_from_cert_id value = DangerousComparableId (Owned value)"

definition dc_from_issuer_cert_id :: "issuer_cert_id \<Rightarrow> issuer_cert_id dangerous_comparable_id" where
  "dc_from_issuer_cert_id value = DangerousComparableId (Owned value)"

definition dc_cert_bytes :: "cert_id dangerous_comparable_id \<Rightarrow> bytes" where
  "dc_cert_bytes d = cert_id_as_bytes (dc_inner d)"

definition dc_issuer_bytes :: "issuer_cert_id dangerous_comparable_id \<Rightarrow> bytes" where
  "dc_issuer_bytes d = issuer_cert_id_as_bytes (dc_inner d)"

text \<open>The impls of \<open>PartialEq\<close>, left-hand type first.\<close>

definition dc_cert_eq_dc_cert ::
  "cert_id dangerous_comparable_id \<Rightarrow> cert_id dangerous_comparable_id \<Rightarrow> bool" where
  "dc_cert_eq_dc_cert a b = (cert_id_as_bytes (dc_inner a) = cert_id_as_bytes (dc_inner b))"

definition dc_issuer_eq_dc_cert ::
  "issuer_cert_id dangerous_comparable_id \<Rightarrow> cert_id dangerous_comparable_id \<Rightarrow> bool" where
  "dc_issuer_eq_dc_cert a b =
     (issuer_cert_id_as_bytes (dc_inner a) = cert_id_as_bytes (dc_inner b))"

definition dc_cert_eq_cert :: "cert_id dangerous_comparable_id \<Rightarrow> cert_id \<Rightarrow> bool" where
  "dc_cert_eq_cert a b = (cert_id_as_bytes (dc_inner a) = cert_id_as_bytes b)"

definition dc_cert_eq_issuer :: "cert_id dangerous_comparable_id \<Rightarrow> issuer_cert_id \<Rightarrow> bool" where
  "dc_cert_eq_issuer a b = (cert_id_as_bytes (dc_inner a) = issuer_cert_id_as_bytes b)"

definition cert_id_equivalent :: "cert_id \<Rightarrow> cert_id dangerous_comparable_id \<Rightarrow> bool" where
  "cert_id_equivalent self key = dc_cert_eq_cert key self"

definition dc_issuer_eq_dc_issuer ::
  "issuer_cert_id dangerous_comparable_id \<Rightarrow> issuer_cert_id dangerous_comparable_id \<Rightarrow> bool" where
  "dc_issuer_eq_dc_issuer a b =
     (issuer_cert_id_as_bytes (dc_inner a) = issuer_cert_id_as_bytes (dc_inner b))"

definition dc_cert_eq_dc_issuer ::
  "cert_id dangerous_comparable_id \<Rightarrow> issuer_cert_id dangerous_comparable_id \<Rightarrow> bool" where
  "dc_cert_eq_dc_issuer a b =
     (cert_id_as_bytes (dc_inner a) = issuer_cert_id_as_bytes (dc_inner b))"

definition dc_issuer_eq_cert :: "issuer_cert_id dangerous_comparable_id \<Rightarrow> cert_id \<Rightarrow> bool" where
  "dc_issuer_eq_cert a b = (issuer_cert_id_as_bytes (dc_inner a) = cert_id_as_bytes b)"

definition dc_issuer_eq_issuer ::
  "issuer_cert_id dangerous_comparable_id \<Rightarrow> issuer_cert_id \<Rightarrow> bool" where
  "dc_issuer_eq_issuer a b = (issuer_cert_id_as_bytes (dc_inner a) = issuer_cert_id_as_bytes b)"

definition issuer_cert_id_equivalent ::
  "issuer_cert_id \<Rightarrow> issuer_cert_id dangerous_comparable_id \<Rightarrow> bool" where
  "issuer_cert_id_equivalent self key = dc_issuer_eq_issuer key self"

definition dc_cert_hash :: "cert_id dangerous_comparable_id \<Rightarrow> nat \<times> bytes \<times> bytes" where
  "dc_cert_hash d = cert_id_hash (dc_inner d)"

section \<open>Fingerprints\<close>

record fingerprint =
  fp_digest :: digest
  fp_rendered :: cached_string_repr

definition fingerprint_as_bytes :: "fingerprint \<Rightarrow> bytes" where
  "fingerprint_as_bytes self = digest_as_bytes (fp_digest self)"

definition fingerprint_as_hex_str :: "fingerprint \<Rightarrow> (fingerprint \<times> string) run" where
  "fingerprint_as_hex_str self =
     run_bind (get_or_init (fp_rendered self) (colon_string (fingerprint_as_bytes self)))
       (\<lambda>(c, s). Ret (self\<lparr>fp_rendered := c\<rparr>, s))"

definition fingerprint_from :: "'h sha_lib \<Rightarrow> x509_certificate \<Rightarrow> fingerprint run" where
  "fingerprint_from S cert =
     run_bind (hash_data S (as_raw cert))
       (\<lambda>digest. Ret \<lparr>fp_digest = digest, fp_rendered = cached_default\<rparr>)"

definition fingerprint_eq :: "fingerprint \<Rightarrow> fingerprint \<Rightarrow> bool" where
  "fingerprint_eq a b =
     (digest_eq (fp_digest a) (fp_digest b) \<and> cached_eq (fp_rendered a) (fp_rendered b))"

section \<open>Serial numbers\<close>

record serial_number =
  sn_bytes :: bytes
  sn_rendered :: cached_string_repr

definition VALID_LENGTHS :: "nat \<Rightarrow> bool" where
  "VALID_LENGTHS n = (1 \<le> n \<and> n \<le> 20)"

definition serial_number_new :: "bytes \<Rightarrow> serial_number run" where
  "serial_number_new bs =
     assert_that (VALID_LENGTHS (length bs)) ''serial number of this length is invalid''
       (Ret \<lparr>sn_bytes = bs, sn_rendered = cached_default\<rparr>)"

definition serial_number_as_bytes :: "serial_number \<Rightarrow> bytes" where
  "serial_number_as_bytes self = sn_bytes self"

definition serial_number_as_hex_str :: "serial_number \<Rightarrow> (serial_number \<times> string) run" where
  "serial_number_as_hex_str self =
     run_bind (get_or_init (sn_rendered self) (colon_string (sn_bytes self)))
       (\<lambda>(c, s). Ret (self\<lparr>sn_rendered := c\<rparr>, s))"

definition serial_number_from :: "x509_certificate \<Rightarrow> serial_number run" where
  "serial_number_from cert = serial_number_new (raw_serial cert)"

section \<open>Validity\<close>

record jiff_lib =
  ts_from_second :: "int \<Rightarrow> string + int"
  ts_display :: "int \<Rightarrow> string"

record validity =
  not_before :: int
  not_after :: int
  val_rendered :: cached_string_repr

definition asn1_to_timestamp :: "jiff_lib \<Rightarrow> int \<Rightarrow> string + int" where
  "asn1_to_timestamp J secs = ts_from_second J secs"

definition validity_new :: "jiff_lib \<Rightarrow> int \<Rightarrow> int \<Rightarrow> string + validity" where
  "validity_new J nb na =
     try_op (asn1_to_timestamp J nb) id (\<lambda>nb'.
     try_op (asn1_to_timestamp J na) id (\<lambda>na'.
       Ok \<lparr>not_before = nb', not_after = na', val_rendered = cached_default\<rparr>))"

definition validity_try_from :: "jiff_lib \<Rightarrow> x509_certificate \<Rightarrow> string + validity" where
  "validity_try_from J cert = validity_new J (validity_not_before cert) (validity_not_after cert)"

definition validity_as_display_str :: "jiff_lib \<Rightarrow> validity \<Rightarrow> (validity \<times> string) run" where
  "validity_as_display_str J self =
     run_bind (get_or_init (val_rendered self)
         (Ret (ts_display J (not_before self) @ ''..'' @ ts_display J (not_after self))))
       (\<lambda>(c, s). Ret (self\<lparr>val_rendered := c\<rparr>, s))"

text \<open>\<open>RangeInclusive::new(not_before, not_after)\<close> and its \<open>contains\<close>.\<close>

definition validity_range :: "validity \<Rightarrow> int \<times> int" where
  "validity_range self = (not_before self, not_after self)"

definition range_contains :: "int \<times> int \<Rightarrow> int \<Rightarrow> bool" where
  "range_contains r t = (fst r \<le> t \<and> t \<le> snd r)"

section \<open>Identifier lemmas\<close>

lemmas cert_id_len_defs = MIN_LENGTH_def MAX_LENGTH_def

definition cert_id_wf :: "cert_id \<Rightarrow> bool" where
  "cert_id_wf c \<longleftrightarrow> 16 \<le> length (cid_bytes c) \<and> length (cid_bytes c) \<le> 64
     \<and> repr_in_sync (cid_rendered c) (cid_bytes c)"

lemma cert_id_wf_nonempty: "cert_id_wf c \<Longrightarrow> cid_bytes c \<noteq> []"
  by (auto simp: cert_id_wf_def)

lemma cert_id_try_from_slice_iff:
  "cert_id_try_from_slice v = Ok c \<longleftrightarrow>
     16 \<le> length v \<and> length v \<le> 64 \<and> c = \<lparr>cid_bytes = v, cid_rendered = cached_default\<rparr>"
  by (auto simp: cert_id_try_from_slice_def cert_id_len_defs)

lemma cert_id_try_from_slice_wf: "cert_id_try_from_slice v = Ok c \<Longrightarrow> cert_id_wf c"
  by (simp add: cert_id_try_from_slice_iff cert_id_wf_def)

lemma cert_id_try_from_x509_iff:
  "cert_id_try_from_x509 x = Ok c \<longleftrightarrow>
     (\<exists>v. find_map ski_of (iter_extensions x) = Some v \<and> cert_id_try_from_slice v = Ok c)"
  by (auto simp: cert_id_try_from_x509_def outcome_simps split: option.splits)

lemma issuer_cert_id_try_from_x509_iff:
  "issuer_cert_id_try_from_x509 x = Ok i \<longleftrightarrow>
     (\<exists>v c. find_map aki_of (iter_extensions x) = Some v \<and> cert_id_try_from_slice v = Ok c
        \<and> i = IssuerCertId c)"
  by (auto simp: issuer_cert_id_try_from_x509_def outcome_simps split: option.splits)

interpretation cert_id_rendered:
  rendered cid_bytes cid_rendered "\<lambda>c i. i\<lparr>cid_rendered := c\<rparr>" cert_id_as_hex_str
  by unfold_locales (simp_all add: cert_id_as_hex_str_def)

interpretation fingerprint_rendered:
  rendered fingerprint_as_bytes fp_rendered "\<lambda>c f. f\<lparr>fp_rendered := c\<rparr>" fingerprint_as_hex_str
  by unfold_locales (simp_all add: fingerprint_as_hex_str_def fingerprint_as_bytes_def)

interpretation serial_number_rendered:
  rendered sn_bytes sn_rendered "\<lambda>c s. s\<lparr>sn_rendered := c\<rparr>" serial_number_as_hex_str
  by unfold_locales (simp_all add: serial_number_as_hex_str_def)

interpretation issuer_cert_id_rendered:
  rendered issuer_cert_id_as_bytes "\<lambda>i. cid_rendered (as_cert_id i)"
    "\<lambda>c i. IssuerCertId ((as_cert_id i)\<lparr>cid_rendered := c\<rparr>)" issuer_cert_id_as_hex_str
proof
  fix i
  show "IssuerCertId (as_cert_id i\<lparr>cid_rendered := cid_rendered (as_cert_id i)\<rparr>) = i"
    by (cases i) simp
  show "issuer_cert_id_as_hex_str i =
      run_bind (get_or_init (cid_rendered (as_cert_id i))
          (colon_string (issuer_cert_id_as_bytes i)))
        (\<lambda>(c, s). Ret (IssuerCertId ((as_cert_id i)\<lparr>cid_rendered := c\<rparr>), s))"
    by (auto simp: issuer_cert_id_as_hex_str_def cert_id_as_hex_str_def
        issuer_cert_id_as_bytes_def cert_id_as_bytes_def run_bind_def split: run.splits)
qed (simp_all add: issuer_cert_id_as_bytes_def cert_id_as_bytes_def)

text \<open>All comparison impls unfold to one equality of raw bytes.\<close>

lemmas dangerous_compare_defs =
  dc_cert_eq_dc_cert_def dc_issuer_eq_dc_cert_def dc_cert_eq_cert_def dc_cert_eq_issuer_def
  cert_id_equivalent_def dc_issuer_eq_dc_issuer_def dc_cert_eq_dc_issuer_def
  dc_issuer_eq_cert_def dc_issuer_eq_issuer_def issuer_cert_id_equivalent_def
  issuer_cert_id_as_bytes_def cert_id_as_bytes_def

lemma dc_inner_simps [simp]:
  "dc_inner (as_dangerous_comparable c) = c"
  "dc_inner (issuer_as_dangerous_comparable i) = i"
  "dc_inner (dc_from_cert_id c) = c"
  "dc_inner (dc_from_issuer_cert_id i) = i"
  "dc_inner (dc_into_owned d) = dc_inner d"
  by (simp_all add: as_dangerous_comparable_def issuer_as_dangerous_comparable_def
      dc_from_cert_id_def dc_from_issuer_cert_id_def dc_into_owned_def)

lemma cert_id_same_rendering:
  assumes "cert_id_wf a" "cert_id_wf b"
  shows "(\<exists>a' b' s. cert_id_as_hex_str a = Ret (a', s) \<and> cert_id_as_hex_str b = Ret (b', s))
    \<longleftrightarrow> cid_bytes a = cid_bytes b"
proof -
  have sync: "repr_in_sync (cid_rendered a) (cid_bytes a)" "repr_in_sync (cid_rendered b) (cid_bytes b)"
    using assms by (simp_all add: cert_id_wf_def)
  note ne = cert_id_wf_nonempty [OF assms(1)] cert_id_wf_nonempty [OF assms(2)]
  show ?thesis
  proof
    assume "cid_bytes a = cid_bytes b"
    then show "\<exists>a' b' s. cert_id_as_hex_str a = Ret (a', s) \<and> cert_id_as_hex_str b = Ret (b', s)"
      using cert_id_rendered.as_hex_renders [OF sync(1) ne(1)]
        cert_id_rendered.as_hex_renders [OF sync(2) ne(2)] by fastforce
  qed (use cert_id_rendered.as_hex_injective [OF sync ne] in blast)
qed

lemma serial_number_new_iff:
  "serial_number_new bs = Ret s \<longleftrightarrow>
     1 \<le> length bs \<and> length bs \<le> 20 \<and> s = \<lparr>sn_bytes = bs, sn_rendered = cached_default\<rparr>"
  by (auto simp: serial_number_new_def outcome_simps VALID_LENGTHS_def)

lemma serial_number_new_returns:
  "returns (serial_number_new bs) \<longleftrightarrow> 1 \<le> length bs \<and> length bs \<le> 20"
  by (auto simp: returns_iff serial_number_new_iff)

lemma fingerprint_eq_iff: "fingerprint_eq a b \<longleftrightarrow> fingerprint_as_bytes a = fingerprint_as_bytes b"
  by (simp add: fingerprint_eq_def digest_eq_def cached_eq_def fingerprint_as_bytes_def)

lemma validity_new_iff:
  "validity_new J nb na = Ok v \<longleftrightarrow>
     (\<exists>nb' na'. ts_from_second J nb = Ok nb' \<and> ts_from_second J na = Ok na' \<and>
        v = \<lparr>not_before = nb', not_after = na', val_rendered = cached_default\<rparr>)"
  by (auto simp: validity_new_def asn1_to_timestamp_def outcome_simps)

section \<open>Properties\<close>


text \<open>
  Two well-formed certificate identifiers compare equal through \<open>DangerousComparableId\<close>
  exactly when \<open>as_hex_str\<close> renders both as the same string, whether the wrapper borrows or
  owns them and whether or not the strings were rendered before; the mixed comparisons with an
  issuer identifier give the same answer, and equal identifiers feed a hasher the same data.
\<close>

lemma dangerous_compare_is_rendering:
  assumes "cert_id_wf a" and "cert_id_wf b"
  shows "(dc_cert_eq_dc_cert (as_dangerous_comparable a) (dc_from_cert_id b) \<longleftrightarrow>
      (\<exists>a' b' s. cert_id_as_hex_str a = Ret (a', s) \<and> cert_id_as_hex_str b = Ret (b', s)))
    \<and> dc_issuer_eq_dc_cert (issuer_as_dangerous_comparable (IssuerCertId a)) (as_dangerous_comparable b)
        = dc_cert_eq_dc_cert (as_dangerous_comparable a) (as_dangerous_comparable b)
    \<and> dc_cert_eq_issuer (as_dangerous_comparable a) (IssuerCertId b)
        = dc_cert_eq_dc_cert (dc_into_owned (as_dangerous_comparable a)) (as_dangerous_comparable b)
    \<and> cert_id_equivalent a (as_dangerous_comparable b)
        = dc_cert_eq_dc_cert (as_dangerous_comparable a) (as_dangerous_comparable b)
    \<and> (dc_cert_eq_dc_cert (as_dangerous_comparable a) (as_dangerous_comparable b) \<longleftrightarrow>
        dc_cert_hash (as_dangerous_comparable a) = dc_cert_hash (as_dangerous_comparable b))"
  using cert_id_same_rendering [OF assms]
  by (auto simp: dangerous_compare_defs dc_cert_hash_def cert_id_hash_def cached_hash_def)

lemma dangerous_compare_is_rendering_witness:
  "dc_cert_eq_dc_cert
     (as_dangerous_comparable \<lparr>cid_bytes = replicate 16 7, cid_rendered = cached_default\<rparr>)
     (dc_from_cert_id \<lparr>cid_bytes = replicate 16 7, cid_rendered = cached_default\<rparr>) \<longleftrightarrow>
   (\<exists>a' b' s.
      cert_id_as_hex_str \<lparr>cid_bytes = replicate 16 7, cid_rendered = cached_default\<rparr> = Ret (a', s)
    \<and> cert_id_as_hex_str \<lparr>cid_bytes = replicate 16 7, cid_rendered = cached_default\<rparr> = Ret (b', s))"
  using dangerous_compare_is_rendering
    [of "\<lparr>cid_bytes = replicate 16 7, cid_rendered = cached_default\<rparr>"
        "\<lparr>cid_bytes = replicate 16 7, cid_rendered = cached_default\<rparr>"]
  by (simp add: cert_id_wf_def)

end
