(* ===== verification/Certificate_Model.thy ===== *)
theory Certificate_Model
  imports Cert_Ids
begin

text \<open>
  The parsed certificate of \<open>rc-crypto/src/certificate/certificate.rs\<close>: construction from DER
  and PEM with every error, and the accessors. The X509 and PEM parsers are parameters
  (\<open>x509_lib\<close>): a parse gives an error or the unread rest of the input with the certificate.
\<close>

section \<open>Definitions\<close>

record x509_lib =
  x509_parse :: "bool \<Rightarrow> bytes \<Rightarrow> string + (bytes \<times> x509_certificate)"
  pem_iter_from_buffer :: "bytes \<Rightarrow> (string + bytes) list"
  pem_encode_lf :: "string \<Rightarrow> bytes \<Rightarrow> string"

datatype invalid_der =
    Parse string
  | ExcessDER
  | InvalidTimestamp string
  | InvalidDerCertId invalid_cert_id
  | InvalidDerIssuerCertId invalid_issuer_cert_id

datatype invalid_pem =
    NoPEM
  | DeserialisePEM string
  | ParseX509 invalid_der
  | TooManyBlocks

record certificate =
  der :: bytes
  public_key_der :: bytes
  cert_serial_number :: serial_number
  cert_fingerprint :: fingerprint
  cert_validity :: validity
  cert_cert_id :: cert_id
  cert_issuer_cert_id :: issuer_cert_id
  cert_is_ca :: bool

definition from_der ::
  "'h sha_lib \<Rightarrow> jiff_lib \<Rightarrow> x509_lib \<Rightarrow> bytes \<Rightarrow> (invalid_der + certificate) run" where
  "from_der S J X input =
     (case x509_parse X True input of
        Inl e \<Rightarrow> Ret (Err (Parse e))
      | Inr (rem, cert) \<Rightarrow>
          if rem \<noteq> [] then Ret (Err ExcessDER)
          else
            run_bind (fingerprint_from S cert) (\<lambda>fingerprint.
            run_bind (serial_number_from cert) (\<lambda>serial_number.
              Ret (
                try_op (validity_try_from J cert) InvalidTimestamp (\<lambda>validity.
                try_op (cert_id_try_from_x509 cert) InvalidDerCertId (\<lambda>cert_id.
                try_op (issuer_cert_id_try_from_x509 cert) InvalidDerIssuerCertId (\<lambda>issuer_cert_id.
                  Ok \<lparr>
                    der = input,
                    public_key_der = subject_public_key_data cert,
                    cert_serial_number = serial_number,
                    cert_fingerprint = fingerprint,
                    cert_validity = validity,
                    cert_cert_id = cert_id,
                    cert_issuer_cert_id = issuer_cert_id,
                    cert_is_ca = x509_is_ca cert\<rparr>)))))))"

definition from_pem ::
  "'h sha_lib \<Rightarrow> jiff_lib \<Rightarrow> x509_lib \<Rightarrow> bytes \<Rightarrow> (invalid_pem + certificate) run" where
  "from_pem S J X pem =
     (case pem_iter_from_buffer X pem of
        [] \<Rightarrow> Ret (Err NoPEM)
      | Inl e # _ \<Rightarrow> Ret (Err (DeserialisePEM e))
      | Inr contents # rest \<Rightarrow>
          if rest \<noteq> [] then Ret (Err TooManyBlocks)
          else run_bind (from_der S J X contents)
            (\<lambda>r. Ret (try_op r ParseX509 Ok)))"

definition as_der :: "certificate \<Rightarrow> bytes" where
  "as_der self = der self"

definition as_der_slice :: "certificate \<Rightarrow> bytes" where
  "as_der_slice self = der self"

definition generate_pem :: "x509_lib \<Rightarrow> certificate \<Rightarrow> string" where
  "generate_pem X self = pem_encode_lf X ''CERTIFICATE'' (der self)"

definition certificate_public_key :: "certificate \<Rightarrow> public_key" where
  "certificate_public_key self = PublicKey (public_key_der self)"

definition certificate_subject :: "x509_lib \<Rightarrow> certificate \<Rightarrow> string run" where
  "certificate_subject X self =
     expect (x509_parse X False (der self)) ''valid DER: already parsed at construction''
       (\<lambda>(_, cert). Ret (x509_subject cert))"

text \<open>\<open>From<rcgen::Certificate>\<close>, given the PEM text of the generated certificate.\<close>

definition certificate_from_rcgen ::
  "'h sha_lib \<Rightarrow> jiff_lib \<Rightarrow> x509_lib \<Rightarrow> bytes \<Rightarrow> certificate run" where
  "certificate_from_rcgen S J X pem =
     run_bind (from_pem S J X pem) (\<lambda>r. expect r ''valid cert round-trip'' Ret)"

section \<open>Construction\<close>

text \<open>What holds of every constructed certificate.\<close>

definition certificate_wf :: "certificate \<Rightarrow> bool" where
  "certificate_wf c \<longleftrightarrow>
     cert_id_wf (cert_cert_id c) \<and> cert_id_wf (as_cert_id (cert_issuer_cert_id c))
     \<and> 1 \<le> length (sn_bytes (cert_serial_number c)) \<and> length (sn_bytes (cert_serial_number c)) \<le> 20
     \<and> repr_in_sync (sn_rendered (cert_serial_number c)) (sn_bytes (cert_serial_number c))
     \<and> length (fingerprint_as_bytes (cert_fingerprint c)) = 32
     \<and> repr_in_sync (fp_rendered (cert_fingerprint c)) (fingerprint_as_bytes (cert_fingerprint c))"

lemma fingerprint_from_iff:
  "fingerprint_from S x = Ret f \<longleftrightarrow>
     (\<exists>d. hash_data S (as_raw x) = Ret d \<and> f = \<lparr>fp_digest = d, fp_rendered = cached_default\<rparr>)"
  by (auto simp: fingerprint_from_def outcome_simps)

text \<open>
  The certificate that \<open>from_der\<close> builds from a parsed one, as a relation: the checks it
  makes, and where each field comes from.
\<close>

definition der_certificate ::
  "'h sha_lib \<Rightarrow> jiff_lib \<Rightarrow> x509_certificate \<Rightarrow> bytes \<Rightarrow> certificate \<Rightarrow> bool" where
  "der_certificate S J x input c \<longleftrightarrow>
     fingerprint_from S x = Ret (cert_fingerprint c)
     \<and> serial_number_from x = Ret (cert_serial_number c)
     \<and> validity_try_from J x = Ok (cert_validity c)
     \<and> cert_id_try_from_x509 x = Ok (cert_cert_id c)
     \<and> issuer_cert_id_try_from_x509 x = Ok (cert_issuer_cert_id c)
     \<and> der c = input \<and> public_key_der c = subject_public_key_data x
     \<and> cert_is_ca c = x509_is_ca x"

lemma from_der_Ok_iff:
  "from_der S J X input = Ret (Ok c) \<longleftrightarrow>
     (\<exists>x. x509_parse X True input = Ok ([], x) \<and> der_certificate S J x input c)"
proof (cases "x509_parse X True input")
  case (Inl e)
  then show ?thesis by (simp add: from_der_def)
next
  case (Inr p)
  then show ?thesis
    by (cases p) (auto simp: from_der_def der_certificate_def outcome_simps)
qed

lemma der_certificate_wf:
  assumes "der_certificate S J x input c"
  shows "certificate_wf c"
proof -
  have "cert_id_wf (cert_cert_id c)"
    using assms by (auto simp: der_certificate_def cert_id_try_from_x509_iff
        intro: cert_id_try_from_slice_wf)
  moreover have "cert_id_wf (as_cert_id (cert_issuer_cert_id c))"
    using assms by (auto simp: der_certificate_def issuer_cert_id_try_from_x509_iff
        intro: cert_id_try_from_slice_wf)
  moreover have "length (fingerprint_as_bytes (cert_fingerprint c)) = 32
      \<and> repr_in_sync (fp_rendered (cert_fingerprint c)) (fingerprint_as_bytes (cert_fingerprint c))"
    using assms hash_data_length
    by (fastforce simp: der_certificate_def fingerprint_from_iff fingerprint_as_bytes_def)
  moreover have "1 \<le> length (sn_bytes (cert_serial_number c))
      \<and> length (sn_bytes (cert_serial_number c)) \<le> 20
      \<and> repr_in_sync (sn_rendered (cert_serial_number c)) (sn_bytes (cert_serial_number c))"
    using assms by (auto simp: der_certificate_def serial_number_from_def serial_number_new_iff)
  ultimately show ?thesis by (simp add: certificate_wf_def)
qed

lemma from_der_wf: "from_der S J X input = Ret (Ok c) \<Longrightarrow> certificate_wf c"
  by (auto simp: from_der_Ok_iff intro: der_certificate_wf)

lemma fingerprint_from_returns: "sha_digest_len S \<Longrightarrow> returns (fingerprint_from S x)"
  by (simp add: fingerprint_from_def hash_data_returns)

lemma from_der_returns_iff:
  assumes "sha_digest_len S"
  shows "returns (from_der S J X input) \<longleftrightarrow>
    (\<forall>x. x509_parse X True input = Ok ([], x) \<longrightarrow>
       1 \<le> length (raw_serial x) \<and> length (raw_serial x) \<le> 20)"
proof (cases "x509_parse X True input")
  case (Inl e)
  then show ?thesis by (simp add: from_der_def)
next
  case (Inr p)
  obtain rem x where p: "p = (rem, x)" by (cases p)
  obtain f where f: "fingerprint_from S x = Ret f"
    using fingerprint_from_returns [OF assms, of x] by (auto simp: returns_iff)
  have "returns (run_bind (serial_number_from x) (\<lambda>s. Ret (g s))) \<longleftrightarrow>
      1 \<le> length (raw_serial x) \<and> length (raw_serial x) \<le> 20" for g :: "serial_number \<Rightarrow> invalid_der + certificate"
    using serial_number_new_returns [of "raw_serial x"]
    by (cases "serial_number_new (raw_serial x)") (simp_all add: serial_number_from_def)
  then show ?thesis using Inr p f by (simp add: from_der_def)
qed

lemma certificate_renders:
  assumes "certificate_wf c"
  shows "returns (cert_id_as_hex_str (cert_cert_id c))"
    and "returns (issuer_cert_id_as_hex_str (cert_issuer_cert_id c))"
    and "returns (fingerprint_as_hex_str (cert_fingerprint c))"
    and "returns (serial_number_as_hex_str (cert_serial_number c))"
proof -
  show "returns (cert_id_as_hex_str (cert_cert_id c))"
    using assms cert_id_rendered.as_hex_renders [of "cert_cert_id c"]
    by (force simp: certificate_wf_def cert_id_wf_def)
  show "returns (issuer_cert_id_as_hex_str (cert_issuer_cert_id c))"
    using assms issuer_cert_id_rendered.as_hex_renders [of "cert_issuer_cert_id c"]
    by (force simp: certificate_wf_def cert_id_wf_def issuer_cert_id_as_bytes_def
        cert_id_as_bytes_def)
  show "returns (fingerprint_as_hex_str (cert_fingerprint c))"
    using assms fingerprint_rendered.as_hex_renders [of "cert_fingerprint c"]
    by (force simp: certificate_wf_def)
  show "returns (serial_number_as_hex_str (cert_serial_number c))"
    using assms serial_number_rendered.as_hex_renders [of "cert_serial_number c"]
    by (force simp: certificate_wf_def)
qed

lemma certificate_subject_returns:
  assumes deep: "\<And>r x. x509_parse X True d = Ok (r, x) \<Longrightarrow> is_ok (x509_parse X False d)"
    and "from_der S J X d = Ret (Ok c)"
  shows "returns (certificate_subject X c)"
proof -
  obtain x where "x509_parse X True d = Ok ([], x)" and "der c = d"
    using assms(2) by (auto simp: from_der_Ok_iff der_certificate_def)
  then show ?thesis
    using deep by (fastforce simp: certificate_subject_def is_ok_def split: sum.splits)
qed

lemma from_pem_Ok_iff:
  "from_pem S J X pem = Ret (Ok c) \<longleftrightarrow>
     (\<exists>d. pem_iter_from_buffer X pem = [Ok d] \<and> from_der S J X d = Ret (Ok c))"
  by (auto simp: from_pem_def outcome_simps split: list.splits sum.splits)

section \<open>A sample instance\<close>

text \<open>A parser that knows one certificate, under the input \<open>[1]\<close>.\<close>

definition sample_x509 :: x509_certificate where
  "sample_x509 = \<lparr>as_raw = [1], raw_serial = [5], validity_not_before = 10,
     validity_not_after = 20,
     iter_extensions = [OtherExtension, AuthorityKeyIdentifier None,
       SubjectKeyIdentifier (replicate 16 1), AuthorityKeyIdentifier (Some (replicate 20 2))],
     x509_is_ca = False, subject_public_key_data = [9], x509_subject = ''CN=sample''\<rparr>"

definition sample_x509_lib :: x509_lib where
  "sample_x509_lib = \<lparr>
     x509_parse = (\<lambda>deep input. if input = [1] then Ok ([], sample_x509)
       else if input = [2] then Ok ([], sample_x509\<lparr>raw_serial := replicate 21 7\<rparr>)
       else Err ''parse error''),
     pem_iter_from_buffer = (\<lambda>pem. map (\<lambda>b. Ok [b]) pem),
     pem_encode_lf = (\<lambda>tag contents. tag)\<rparr>"

definition sample_jiff :: jiff_lib where
  "sample_jiff = \<lparr>
     ts_from_second = (\<lambda>s. if 0 \<le> s \<and> s < 1000 then Ok s else Err ''out of range''),
     ts_display = (\<lambda>s. ''t'')\<rparr>"

lemmas sample_defs = sample_x509_def sample_x509_lib_def sample_jiff_def

section \<open>Properties\<close>

text \<open>
  C28. DER input becomes a certificate exactly when the parser consumes all of it, the serial number
  has 1 to 20 bytes, both validity times are in the range of the timestamp library, the first
  subject key identifier extension has 16 to 64 bytes, and so has the first authority key
  identifier extension that carries a key identifier. The certificate then holds the given bytes,
  the digest of the raw certificate and the extracted identifiers, and each of its identifiers can
  be rendered without a panic.
\<close>

theorem from_der_accepts_iff:
  assumes "sha_digest_len S"
  shows "from_der S J X input = Ret (Ok c) \<longleftrightarrow>
    (\<exists>x nb na ski aki. x509_parse X True input = Ok ([], x)
      \<and> length (raw_serial x) \<in> {1..20}
      \<and> ts_from_second J (validity_not_before x) = Ok nb
      \<and> ts_from_second J (validity_not_after x) = Ok na
      \<and> find_map ski_of (iter_extensions x) = Some ski \<and> length ski \<in> {16..64}
      \<and> find_map aki_of (iter_extensions x) = Some aki \<and> length aki \<in> {16..64}
      \<and> c = \<lparr>der = input, public_key_der = subject_public_key_data x,
          cert_serial_number = \<lparr>sn_bytes = raw_serial x, sn_rendered = cached_default\<rparr>,
          cert_fingerprint = \<lparr>fp_digest =
              Digest (ctx_finish S (ctx_update S (ctx_new S) (as_raw x))),
            fp_rendered = cached_default\<rparr>,
          cert_validity = \<lparr>not_before = nb, not_after = na, val_rendered = cached_default\<rparr>,
          cert_cert_id = \<lparr>cid_bytes = ski, cid_rendered = cached_default\<rparr>,
          cert_issuer_cert_id = IssuerCertId \<lparr>cid_bytes = aki, cid_rendered = cached_default\<rparr>,
          cert_is_ca = x509_is_ca x\<rparr>)
    \<and> returns (cert_id_as_hex_str (cert_cert_id c))
    \<and> returns (issuer_cert_id_as_hex_str (cert_issuer_cert_id c))
    \<and> returns (fingerprint_as_hex_str (cert_fingerprint c))
    \<and> returns (serial_number_as_hex_str (cert_serial_number c))"
    (is "?built \<longleftrightarrow> ?checks \<and> ?renders")
proof -
  have "?built \<longleftrightarrow> ?checks"
    unfolding from_der_Ok_iff der_certificate_def
    using hash_data_returns [OF assms]
    by (cases c) (auto simp: fingerprint_from_iff serial_number_from_def serial_number_new_iff
      validity_try_from_def validity_new_iff cert_id_try_from_x509_iff
      issuer_cert_id_try_from_x509_iff cert_id_try_from_slice_iff)
  moreover have "?built \<Longrightarrow> ?renders"
    using certificate_renders from_der_wf by metis
  ultimately show ?thesis by blast
qed

theorem from_der_accepts_iff_witness:
  "\<exists>c. from_der sample_sha sample_jiff sample_x509_lib [1] = Ret (Ok c)
     \<and> cid_bytes (cert_cert_id c) = replicate 16 1
     \<and> issuer_cert_id_as_bytes (cert_issuer_cert_id c) = replicate 20 2
     \<and> returns (cert_id_as_hex_str (cert_cert_id c))"
proof -
  obtain c where c: "from_der sample_sha sample_jiff sample_x509_lib [1] = Ret (Ok c)"
    "cid_bytes (cert_cert_id c) = replicate 16 1"
    "issuer_cert_id_as_bytes (cert_issuer_cert_id c) = replicate 20 2"
    by (simp add: from_der_def sample_defs fingerprint_from_def
      hash_data_returns [OF sample_sha_laws(1)] serial_number_from_def serial_number_new_def
      VALID_LENGTHS_def validity_try_from_def validity_new_def asn1_to_timestamp_def
      cert_id_try_from_x509_def issuer_cert_id_try_from_x509_def cert_id_try_from_slice_def
      cert_id_len_defs issuer_cert_id_as_bytes_def cert_id_as_bytes_def)
  then show ?thesis
    using from_der_accepts_iff [OF sample_sha_laws(1), of sample_jiff sample_x509_lib "[1]" c] by blast
qed

text \<open>
  C38. Construction from DER panics on exactly the inputs that parse completely and carry a serial
  number outside 1 to 20 bytes; such a panic takes precedence over the errors that the
  other fields would give.
\<close>

theorem from_der_panics_iff:
  assumes "sha_digest_len S"
  shows "(\<exists>msg. from_der S J X input = Panic msg) \<longleftrightarrow>
    (\<exists>x. x509_parse X True input = Ok ([], x) \<and> length (raw_serial x) \<notin> {1..20})"
  using from_der_returns_iff [OF assms, of J X input]
  by (cases "from_der S J X input") auto

theorem from_der_panics_iff_witness:
  "\<exists>msg. from_der sample_sha sample_jiff sample_x509_lib [2] = Panic msg"
  using from_der_panics_iff [OF sample_sha_laws(1), of sample_jiff sample_x509_lib "[2]"]
  by (simp add: sample_defs)

text \<open>
  A PEM document becomes a certificate exactly when it holds one block and the contents of that
  block are accepted as DER; with no block, an undecodable first block, or a second block of any
  kind, the respective error is returned.
\<close>

lemma from_pem_single_block:
  "(from_pem S J X pem = Ret (Ok c) \<longleftrightarrow>
      (\<exists>d. pem_iter_from_buffer X pem = [Ok d] \<and> from_der S J X d = Ret (Ok c)))
   \<and> (from_pem S J X pem = Ret (Err NoPEM) \<longleftrightarrow> pem_iter_from_buffer X pem = [])
   \<and> (from_pem S J X pem = Ret (Err TooManyBlocks) \<longleftrightarrow>
      (\<exists>d b bs. pem_iter_from_buffer X pem = Ok d # b # bs))
   \<and> (from_pem S J X pem = Ret (Err (DeserialisePEM e)) \<longleftrightarrow>
      (\<exists>bs. pem_iter_from_buffer X pem = Err e # bs))"
proof (cases "pem_iter_from_buffer X pem")
  case Nil
  then show ?thesis by (simp add: from_pem_def)
next
  case (Cons b bs)
  then show ?thesis
    by (cases b; cases bs; cases "from_der S J X (projr b)")
      (auto simp: from_pem_def outcome_simps)
qed

end
