(* ===== verification/Chain_Build.thy ===== *)
theory Chain_Build
  imports Certificate_Model
begin

text \<open>
  Untrusted certificates, root sets and the building of candidate chains: \<open>cert/untrusted.rs\<close>,
  \<open>chain/unverified.rs\<close>, \<open>chain/build_unverified.rs\<close>, \<open>trust_store/traits.rs\<close> and
  \<open>trust_store/root_set.rs\<close> of \<open>rc-x509-trust\<close>, and \<open>root.rs\<close>, \<open>r1.rs\<close> of
  \<open>rc-x509-roots\<close>.

  The trait \<open>CertCache\<close> is the record \<open>'c cert_cache\<close> of its three operations over a
  cache state \<open>'c\<close>. The contract that chain building relies on is the locale
  \<open>cert_cache_contract\<close>; the in-memory cache interprets it in \<open>Trust_Store\<close>.
\<close>

section \<open>Certificates and roots\<close>

datatype untrusted_cert_bytes = UntrustedCertBytes bytes

datatype untrusted_cert = UntrustedCert certificate

fun into_trusted :: "untrusted_cert \<Rightarrow> certificate" where
  "into_trusted (UntrustedCert c) = c"

definition untrusted_from_der ::
  "'h sha_lib \<Rightarrow> jiff_lib \<Rightarrow> x509_lib \<Rightarrow> bytes \<Rightarrow> (invalid_der + untrusted_cert) run" where
  "untrusted_from_der S J X d =
     run_bind (from_der S J X d) (\<lambda>r. Ret (map_sum id UntrustedCert r))"

fun untrusted_parse ::
  "'h sha_lib \<Rightarrow> jiff_lib \<Rightarrow> x509_lib \<Rightarrow> untrusted_cert_bytes \<Rightarrow> (invalid_der + untrusted_cert) run" where
  "untrusted_parse S J X (UntrustedCertBytes d) = untrusted_from_der S J X d"

definition untrusted_as_der_slice :: "untrusted_cert \<Rightarrow> bytes" where
  "untrusted_as_der_slice self = as_der_slice (into_trusted self)"

definition untrusted_fingerprint :: "untrusted_cert \<Rightarrow> fingerprint" where
  "untrusted_fingerprint self = cert_fingerprint (into_trusted self)"

definition untrusted_cert_id :: "untrusted_cert \<Rightarrow> cert_id" where
  "untrusted_cert_id self = cert_cert_id (into_trusted self)"

definition untrusted_issuer_cert_id :: "untrusted_cert \<Rightarrow> issuer_cert_id" where
  "untrusted_issuer_cert_id self = cert_issuer_cert_id (into_trusted self)"

definition untrusted_cert_eq :: "untrusted_cert \<Rightarrow> untrusted_cert \<Rightarrow> bool" where
  "untrusted_cert_eq a b = fingerprint_eq (untrusted_fingerprint a) (untrusted_fingerprint b)"

datatype root_certificate = RootCertificate certificate

definition from_trusted_cert :: "certificate \<Rightarrow> root_certificate" where
  "from_trusted_cert c = RootCertificate c"

fun root_deref :: "root_certificate \<Rightarrow> certificate" where
  "root_deref (RootCertificate c) = c"

text \<open>The lazily built embedded roots, given the embedded PEM.\<close>

definition embedded_root ::
  "'h sha_lib \<Rightarrow> jiff_lib \<Rightarrow> x509_lib \<Rightarrow> bytes \<Rightarrow> root_certificate run" where
  "embedded_root S J X pem =
     run_bind (from_pem S J X pem)
       (\<lambda>r. expect r ''invalid root r1 PEM'' (\<lambda>c. Ret (from_trusted_cert c)))"

record root_set =
  roots :: "root_certificate list"

definition root_set_new :: "root_certificate list \<Rightarrow> root_set" where
  "root_set_new rs = \<lparr>roots = rs\<rparr>"

definition root_set_find ::
  "root_set \<Rightarrow> issuer_cert_id dangerous_comparable_id \<Rightarrow> root_certificate option" where
  "root_set_find self needle =
     List.find (\<lambda>v. dc_cert_eq_dc_issuer
       (as_dangerous_comparable (cert_cert_id (root_deref v))) needle) (roots self)"

definition into_array :: "root_set \<Rightarrow> root_certificate list" where
  "into_array self = roots self"

section \<open>Candidate chains\<close>

record 'c cert_cache =
  cc_insert :: "untrusted_cert \<Rightarrow> 'c \<Rightarrow> 'c run"
  cc_get :: "cert_id \<Rightarrow> 'c \<Rightarrow> (untrusted_cert option \<times> 'c) run"
  cc_remove :: "cert_id \<Rightarrow> 'c \<Rightarrow> 'c run"

datatype untrusted_chain = UntrustedChain root_certificate "untrusted_cert list"

definition untrusted_chain_new :: "root_certificate \<Rightarrow> untrusted_cert list \<Rightarrow> untrusted_chain" where
  "untrusted_chain_new root intermediates = UntrustedChain root intermediates"

fun as_slice :: "untrusted_chain \<Rightarrow> untrusted_cert list" where
  "as_slice (UntrustedChain _ intermediates) = intermediates"

fun chain_root :: "untrusted_chain \<Rightarrow> root_certificate" where
  "chain_root (UntrustedChain root _) = root"

definition size_hint :: "untrusted_chain \<Rightarrow> nat \<times> nat option" where
  "size_hint self = (let n = length (as_slice self) + 1 in (n, Some n))"

text \<open>The DER values that \<open>visit\<close> walks, in order.\<close>

definition chain_visit :: "untrusted_chain \<Rightarrow> bytes list" where
  "chain_visit self =
     as_der_slice (root_deref (chain_root self)) # map untrusted_as_der_slice (as_slice self)"

definition MAX_INTERMEDIATES :: nat where
  "MAX_INTERMEDIATES = 6"

datatype chain_build_error = MissingIntermediate issuer_cert_id | ExcessivelyLongChain

function build_loop ::
  "root_set \<Rightarrow> 'c cert_cache \<Rightarrow> issuer_cert_id \<Rightarrow> untrusted_cert list \<Rightarrow> 'c
     \<Rightarrow> ((chain_build_error + untrusted_chain) \<times> 'c) run" where
  "build_loop rs C next_cert_id chain c =
     (case root_set_find rs (issuer_as_dangerous_comparable next_cert_id) of
        Some root \<Rightarrow> Ret (Ok (untrusted_chain_new root chain), c)
      | None \<Rightarrow>
          if length chain \<ge> MAX_INTERMEDIATES then Ret (Err ExcessivelyLongChain, c)
          else run_bind (cc_get C (as_cert_id next_cert_id) c) (\<lambda>(got, c').
            case got of
              None \<Rightarrow> Ret (Err (MissingIntermediate next_cert_id), c')
            | Some issuer_cert \<Rightarrow>
                build_loop rs C (untrusted_issuer_cert_id issuer_cert) (chain @ [issuer_cert]) c'))"
  by pat_completeness auto

termination
  by (relation "measure (\<lambda>(rs, C, i, chain, c). MAX_INTERMEDIATES - length chain)") auto

definition build_unverified_chain_for ::
  "root_set \<Rightarrow> 'c cert_cache \<Rightarrow> untrusted_cert \<Rightarrow> 'c
     \<Rightarrow> ((chain_build_error + untrusted_chain) \<times> 'c) run" where
  "build_unverified_chain_for rs C cert c =
     build_loop rs C (untrusted_issuer_cert_id cert) [] c"

section \<open>Root sets\<close>

declare build_loop.simps [simp del]

definition same_id :: "issuer_cert_id \<Rightarrow> cert_id \<Rightarrow> bool" where
  "same_id i c \<longleftrightarrow> issuer_cert_id_as_bytes i = cert_id_as_bytes c"

lemma root_set_find_eq:
  "root_set_find rs (issuer_as_dangerous_comparable i) =
     List.find (\<lambda>r. same_id i (cert_cert_id (root_deref r))) (roots rs)"
  unfolding root_set_find_def same_id_def dc_cert_eq_dc_issuer_def
  by (simp add: eq_commute)

lemma root_set_find_Some:
  "root_set_find rs (issuer_as_dangerous_comparable i) = Some r \<Longrightarrow>
     r \<in> set (roots rs) \<and> same_id i (cert_cert_id (root_deref r))"
  by (auto simp: root_set_find_eq find_Some_iff_first)

section \<open>One round of the loop\<close>

lemma build_loop_root:
  "root_set_find rs (issuer_as_dangerous_comparable i) = Some r \<Longrightarrow>
     build_loop rs C i chain c = Ret (Ok (UntrustedChain r chain), c)"
  by (simp add: build_loop.simps untrusted_chain_new_def)

lemma build_loop_long:
  "root_set_find rs (issuer_as_dangerous_comparable i) = None \<Longrightarrow> 6 \<le> length chain \<Longrightarrow>
     build_loop rs C i chain c = Ret (Err ExcessivelyLongChain, c)"
  by (simp add: build_loop.simps MAX_INTERMEDIATES_def)

lemma build_loop_next:
  "root_set_find rs (issuer_as_dangerous_comparable i) = None \<Longrightarrow> length chain < 6 \<Longrightarrow>
     build_loop rs C i chain c =
       run_bind (cc_get C (as_cert_id i) c) (\<lambda>(got, c').
         case got of
           None \<Rightarrow> Ret (Err (MissingIntermediate i), c')
         | Some v \<Rightarrow> build_loop rs C (untrusted_issuer_cert_id v) (chain @ [v]) c')"
  by (subst build_loop.simps) (simp add: MAX_INTERMEDIATES_def)

section \<open>What a candidate chain is\<close>

text \<open>
  A list of intermediates leads from an issuer identifier to a root: each certificate carries the
  identifier its predecessor names as issuer, the first identifier that a root of the set answers
  ends the list, and the root is the one the set finds for it.
\<close>

fun leads_to :: "root_set \<Rightarrow> issuer_cert_id \<Rightarrow> untrusted_cert list \<Rightarrow> root_certificate \<Rightarrow> bool" where
  "leads_to rs i [] r \<longleftrightarrow> root_set_find rs (issuer_as_dangerous_comparable i) = Some r"
| "leads_to rs i (c # cs) r \<longleftrightarrow>
     root_set_find rs (issuer_as_dangerous_comparable i) = None
     \<and> same_id i (untrusted_cert_id c)
     \<and> leads_to rs (untrusted_issuer_cert_id c) cs r"

locale cert_cache_contract =
  fixes C :: "'c cert_cache"
  assumes get_answers_query:
    "cc_get C i c = Ret (Some v, c') \<Longrightarrow> cert_id_as_bytes (untrusted_cert_id v) = cert_id_as_bytes i"
begin

lemma build_loop_sound:
  assumes "build_loop rs C i chain c = Ret (Ok (UntrustedChain r out), c')"
    and "length chain \<le> 6"
  shows "\<exists>cs. out = chain @ cs \<and> length out \<le> 6 \<and> leads_to rs i cs r"
  using assms
proof (induction "6 - length chain" arbitrary: i chain c)
  case 0
  then show ?case
    by (cases "root_set_find rs (issuer_as_dangerous_comparable i)")
      (auto simp: build_loop_root build_loop_long)
next
  case (Suc n)
  then have short: "length chain < 6" by simp
  show ?case
  proof (cases "root_set_find rs (issuer_as_dangerous_comparable i)")
    case (Some root)
    then show ?thesis using Suc.prems by (auto simp: build_loop_root)
  next
    case None
    obtain v c1 where v: "cc_get C (as_cert_id i) c = Ret (Some v, c1)"
      and rec: "build_loop rs C (untrusted_issuer_cert_id v) (chain @ [v]) c1 =
        Ret (Ok (UntrustedChain r out), c')"
      using Suc.prems(1) short None
      by (auto simp: build_loop_next outcome_simps split: option.splits)
    obtain cs where "out = (chain @ [v]) @ cs" "length out \<le> 6"
      "leads_to rs (untrusted_issuer_cert_id v) cs r"
      using Suc.hyps(1) [OF _ rec] Suc.hyps(2) short by fastforce
    then show ?thesis
      using None get_answers_query [OF v]
      by (intro exI [of _ "v # cs"]) (simp add: same_id_def issuer_cert_id_as_bytes_def)
  qed
qed

lemma build_sound:
  assumes "build_unverified_chain_for rs C cert c = Ret (Ok chain, c')"
  shows "length (as_slice chain) \<le> 6
    \<and> leads_to rs (untrusted_issuer_cert_id cert) (as_slice chain) (chain_root chain)"
  using assms build_loop_sound [of rs "untrusted_issuer_cert_id cert" "[]" c]
  by (cases chain) (fastforce simp: build_unverified_chain_for_def)

end

section \<open>Exact behaviour on a quiescent cache\<close>

text \<open>
  A cache is quiescent with contents \<open>L\<close> when a query answers from \<open>L\<close> and changes
  nothing. The \<open>k\<close>-th issuer identifier above an identifier is then a function of \<open>L\<close>.
\<close>

definition quiescent :: "'c cert_cache \<Rightarrow> 'c \<Rightarrow> (bytes \<Rightarrow> untrusted_cert option) \<Rightarrow> bool" where
  "quiescent C c L \<longleftrightarrow> (\<forall>i. cc_get C i c = Ret (L (cert_id_as_bytes i), c))"

fun nth_issuer ::
  "(bytes \<Rightarrow> untrusted_cert option) \<Rightarrow> nat \<Rightarrow> issuer_cert_id \<Rightarrow> issuer_cert_id option" where
  "nth_issuer L 0 i = Some i"
| "nth_issuer L (Suc k) i =
     (case L (issuer_cert_id_as_bytes i) of
        None \<Rightarrow> None
      | Some v \<Rightarrow> nth_issuer L k (untrusted_issuer_cert_id v))"

definition anchored :: "root_set \<Rightarrow> issuer_cert_id option \<Rightarrow> bool" where
  "anchored rs io \<longleftrightarrow>
     (\<exists>i. io = Some i \<and> root_set_find rs (issuer_as_dangerous_comparable i) \<noteq> None)"

lemma nth_issuer_Suc_Some:
  "L (issuer_cert_id_as_bytes i) = Some v \<Longrightarrow>
     nth_issuer L (Suc k) i = nth_issuer L k (untrusted_issuer_cert_id v)"
  by simp

lemma nth_issuer_dead_end:
  "nth_issuer L k i = Some m \<Longrightarrow> L (issuer_cert_id_as_bytes m) = None \<Longrightarrow> k < j \<Longrightarrow>
     nth_issuer L j i = None"
proof (induction k arbitrary: i j)
  case 0
  then show ?case by (cases j) simp_all
next
  case (Suc k)
  then show ?case by (cases j) (auto split: option.splits)
qed

lemma anchored_Some: "anchored rs io \<Longrightarrow> io \<noteq> None"
  by (auto simp: anchored_def)

text \<open>
  The three outcomes of the walk with \<open>n\<close> rounds left and \<open>b\<close> certificates gathered.
\<close>

fun walk_outcome ::
  "root_set \<Rightarrow> (bytes \<Rightarrow> untrusted_cert option) \<Rightarrow> nat \<Rightarrow> nat \<Rightarrow> issuer_cert_id
     \<Rightarrow> chain_build_error + untrusted_chain \<Rightarrow> bool" where
  "walk_outcome rs L n b i (Inr ch) \<longleftrightarrow>
     (\<exists>k \<le> n. length (as_slice ch) = b + k \<and> anchored rs (nth_issuer L k i)
        \<and> (\<forall>j < k. \<not> anchored rs (nth_issuer L j i)))"
| "walk_outcome rs L n b i (Inl ExcessivelyLongChain) \<longleftrightarrow>
     (\<forall>k \<le> n. nth_issuer L k i \<noteq> None \<and> \<not> anchored rs (nth_issuer L k i))"
| "walk_outcome rs L n b i (Inl (MissingIntermediate m)) \<longleftrightarrow>
     (\<exists>k < n. nth_issuer L k i = Some m \<and> L (issuer_cert_id_as_bytes m) = None
        \<and> (\<forall>j \<le> k. \<not> anchored rs (nth_issuer L j i)))"

lemma all_le_Suc_shift: "(\<forall>k \<le> Suc n. P k) \<longleftrightarrow> P 0 \<and> (\<forall>k \<le> n. P (Suc k))"
  by (metis Suc_le_mono le0 not0_implies_Suc)

lemma all_less_Suc_shift: "(\<forall>k < Suc n. P k) \<longleftrightarrow> P 0 \<and> (\<forall>k < n. P (Suc k))"
  by (auto simp: less_Suc_eq_0_disj)

lemma walk_outcome_step:
  assumes v: "L (issuer_cert_id_as_bytes i) = Some v"
    and na: "\<not> anchored rs (Some i)"
    and w: "walk_outcome rs L n (Suc b) (untrusted_issuer_cert_id v) res"
  shows "walk_outcome rs L (Suc n) b i res"
proof -
  note shift = nth_issuer_Suc_Some [where L = L and i = i and v = v, OF v]
  consider (ok) ch where "res = Inr ch" | (long) "res = Inl ExcessivelyLongChain"
    | (missing) m where "res = Inl (MissingIntermediate m)"
    by (metis chain_build_error.exhaust sum.exhaust)
  then show ?thesis
  proof cases
    case ok
    then obtain k where "k \<le> n" "length (as_slice ch) = Suc b + k"
      "anchored rs (nth_issuer L (Suc k) i)" "\<forall>j < k. \<not> anchored rs (nth_issuer L (Suc j) i)"
      using w shift by auto
    then show ?thesis
      using ok na by (auto intro!: exI [of _ "Suc k"] simp: all_less_Suc_shift simp del: nth_issuer.simps(2))
  next
    case long
    then show ?thesis
      using w na v by (simp add: all_le_Suc_shift)
  next
    case missing
    then obtain k where "k < n" "nth_issuer L (Suc k) i = Some m"
      "L (issuer_cert_id_as_bytes m) = None" "\<forall>j \<le> k. \<not> anchored rs (nth_issuer L (Suc j) i)"
      using w shift by auto
    moreover from this na have "\<forall>j \<le> Suc k. \<not> anchored rs (nth_issuer L j i)"
      unfolding all_le_Suc_shift by simp
    ultimately show ?thesis
      unfolding missing walk_outcome.simps by (intro exI [of _ "Suc k"]) blast
  qed
qed

lemma quiescent_walk:
  assumes q: "quiescent C c L"
  shows "length chain + n = 6 \<Longrightarrow>
    \<exists>res. build_loop rs C i chain c = Ret (res, c) \<and> walk_outcome rs L n (length chain) i res"
proof (induction n arbitrary: i chain)
  case 0
  then show ?case
    by (cases "root_set_find rs (issuer_as_dangerous_comparable i)")
      (auto simp: build_loop_root build_loop_long anchored_def)
next
  case (Suc n)
  show ?case
  proof (cases "root_set_find rs (issuer_as_dangerous_comparable i)")
    case (Some r)
    then show ?thesis
      by (auto simp: build_loop_root anchored_def intro!: exI [of _ 0])
  next
    case None
    have get: "cc_get C (as_cert_id i) c = Ret (L (issuer_cert_id_as_bytes i), c)"
      using q by (simp add: quiescent_def issuer_cert_id_as_bytes_def)
    have na: "\<not> anchored rs (Some i)" using None by (simp add: anchored_def)
    show ?thesis
    proof (cases "L (issuer_cert_id_as_bytes i)")
      case None
      then show ?thesis
        using \<open>root_set_find rs _ = None\<close> Suc.prems get na
        by (auto simp: build_loop_next intro!: exI [of _ 0])
    next
      case (Some v)
      have step: "build_loop rs C i chain c =
          build_loop rs C (untrusted_issuer_cert_id v) (chain @ [v]) c"
        using None Suc.prems get Some by (simp add: build_loop_next)
      obtain res where
        "build_loop rs C (untrusted_issuer_cert_id v) (chain @ [v]) c = Ret (res, c)"
        "walk_outcome rs L n (Suc (length chain)) (untrusted_issuer_cert_id v) res"
        using Suc.IH [of "chain @ [v]" "untrusted_issuer_cert_id v"] Suc.prems by auto
      then show ?thesis
        using step walk_outcome_step [where i = i and v = v and L = L, OF Some na] by auto
    qed
  qed
qed

text \<open>The outcomes exclude one another.\<close>

lemma walk_outcome_Ok_Long:
  "walk_outcome rs L n b i (Inr ch) \<Longrightarrow> \<not> walk_outcome rs L n b' i (Inl ExcessivelyLongChain)"
  by auto

lemma walk_outcome_Missing_None:
  assumes "walk_outcome rs L n b i (Inl (MissingIntermediate m))"
  shows "\<exists>k < n. nth_issuer L k i = Some m \<and> (\<forall>j \<le> k. \<not> anchored rs (nth_issuer L j i))
    \<and> (\<forall>j > k. nth_issuer L j i = None)"
  using assms nth_issuer_dead_end [of L _ i m] by fastforce

lemma walk_outcome_Missing_Ok:
  assumes "walk_outcome rs L n b i (Inl (MissingIntermediate m))"
  shows "\<not> walk_outcome rs L n b' i (Inr ch)"
  using walk_outcome_Missing_None [OF assms] anchored_Some
  by (metis not_le_imp_less walk_outcome.simps(1))

lemma walk_outcome_Missing_Long:
  assumes "walk_outcome rs L n b i (Inl (MissingIntermediate m))"
  shows "\<not> walk_outcome rs L n b' i (Inl ExcessivelyLongChain)"
  using walk_outcome_Missing_None [OF assms] by auto

lemma walk_outcome_Missing_unique:
  assumes "walk_outcome rs L n b i (Inl (MissingIntermediate m))"
    and "walk_outcome rs L n b' i (Inl (MissingIntermediate m'))"
  shows "m = m'"
  using walk_outcome_Missing_None [OF assms(1)] walk_outcome_Missing_None [OF assms(2)]
  by (metis linorder_neqE_nat option.distinct(1) option.inject)

lemma walk_outcome_anchored:
  assumes "k \<le> n" and "anchored rs (nth_issuer L k i)"
  shows "\<exists>ch. walk_outcome rs L n 0 i (Inr ch)"
proof -
  define m where "m = (LEAST k. anchored rs (nth_issuer L k i))"
  have "anchored rs (nth_issuer L m i)" "m \<le> n"
    using assms LeastI [of "\<lambda>k. anchored rs (nth_issuer L k i)"]
      Least_le [of "\<lambda>k. anchored rs (nth_issuer L k i)" k] by (auto simp: m_def)
  moreover have "\<forall>j < m. \<not> anchored rs (nth_issuer L j i)"
    using not_less_Least m_def by blast
  ultimately have "walk_outcome rs L n 0 i (Inr (UntrustedChain r (replicate m v)))" for r v
    by auto
  then show ?thesis by blast
qed

lemma walk_outcome_decides:
  assumes w: "walk_outcome rs L n 0 i res"
  shows "is_ok res \<longleftrightarrow> (\<exists>k \<le> n. anchored rs (nth_issuer L k i))"
    and "res = Inl ExcessivelyLongChain \<longleftrightarrow> walk_outcome rs L n 0 i (Inl ExcessivelyLongChain)"
    and "res = Inl (MissingIntermediate m) \<longleftrightarrow> walk_outcome rs L n 0 i (Inl (MissingIntermediate m))"
proof -
  note excl = walk_outcome_Ok_Long walk_outcome_Missing_Ok walk_outcome_Missing_Long
    walk_outcome_Missing_unique
  consider (ok) ch where "res = Inr ch" | (long) "res = Inl ExcessivelyLongChain"
    | (missing) m where "res = Inl (MissingIntermediate m)"
    by (metis chain_build_error.exhaust sum.exhaust)
  note kinds = this
  show "res = Inl ExcessivelyLongChain \<longleftrightarrow> walk_outcome rs L n 0 i (Inl ExcessivelyLongChain)"
    by (rule kinds) (use w excl(1,3) in blast)+
  show "res = Inl (MissingIntermediate m) \<longleftrightarrow> walk_outcome rs L n 0 i (Inl (MissingIntermediate m))"
  proof
    assume m: "walk_outcome rs L n 0 i (Inl (MissingIntermediate m))"
    show "res = Inl (MissingIntermediate m)"
    proof (rule kinds)
      fix m'
      assume r: "res = Inl (MissingIntermediate m')"
      then have "m = m'" using excl(4) m w by blast
      then show ?thesis using r by simp
    qed (use m w excl(2,3) in blast)+
  qed (use w in blast)
  show "is_ok res \<longleftrightarrow> (\<exists>k \<le> n. anchored rs (nth_issuer L k i))"
  proof
    assume "is_ok res"
    then obtain ch where "res = Inr ch" by (cases res) auto
    then show "\<exists>k \<le> n. anchored rs (nth_issuer L k i)" using w by auto
  next
    assume "\<exists>k \<le> n. anchored rs (nth_issuer L k i)"
    then obtain ch where ch: "walk_outcome rs L n 0 i (Inr ch)" using walk_outcome_anchored by blast
    have "res \<noteq> Inl e" for e
      using w ch excl(1,2) by (cases e) blast+
    then show "is_ok res" by (cases res) auto
  qed
qed

section \<open>A sample instance\<close>

definition sample_cert :: "bytes \<Rightarrow> bytes \<Rightarrow> certificate" where
  "sample_cert own issuer = \<lparr>der = own @ issuer, public_key_der = [], 
     cert_serial_number = \<lparr>sn_bytes = [1], sn_rendered = cached_default\<rparr>,
     cert_fingerprint = \<lparr>fp_digest = Digest (replicate 32 0), fp_rendered = cached_default\<rparr>,
     cert_validity = \<lparr>not_before = 0, not_after = 1, val_rendered = cached_default\<rparr>,
     cert_cert_id = \<lparr>cid_bytes = own, cid_rendered = cached_default\<rparr>,
     cert_issuer_cert_id = IssuerCertId \<lparr>cid_bytes = issuer, cid_rendered = cached_default\<rparr>,
     cert_is_ca = True\<rparr>"

text \<open>A cache that holds its contents as a function, keyed by the identifier's bytes.\<close>

definition map_cache :: "(bytes \<Rightarrow> untrusted_cert option) cert_cache" where
  "map_cache = \<lparr>
     cc_insert = (\<lambda>v m. Ret (m(cert_id_as_bytes (untrusted_cert_id v) \<mapsto> v))),
     cc_get = (\<lambda>i m. Ret (m (cert_id_as_bytes i), m)),
     cc_remove = (\<lambda>i m. Ret (m(cert_id_as_bytes i := None)))\<rparr>"

lemma map_cache_quiescent: "quiescent map_cache m m"
  by (simp add: quiescent_def map_cache_def)

section \<open>Properties\<close>

text \<open>
  C17. Chain building on a cache that does not change under queries always returns, leaves the cache
  as it was, and its outcome is decided by the sequence of issuer identifiers above the leaf: it
  succeeds exactly when one of the first seven identifiers belongs to a root; it
  refuses the chain as too long exactly when all of those seven exist and none is a root's; and it
  reports a missing intermediate exactly for the first identifier, among the first six, that is no
  root's and has no certificate in the cache.
\<close>

theorem build_chain_outcomes:
  assumes "quiescent C c L"
  shows "\<exists>res. build_unverified_chain_for rs C cert c = Ret (res, c)
    \<and> (is_ok res \<longleftrightarrow>
        (\<exists>k \<le> 6. anchored rs (nth_issuer L k (untrusted_issuer_cert_id cert))))
    \<and> (res = Err ExcessivelyLongChain \<longleftrightarrow>
        (\<forall>k \<le> 6. nth_issuer L k (untrusted_issuer_cert_id cert) \<noteq> None
           \<and> \<not> anchored rs (nth_issuer L k (untrusted_issuer_cert_id cert))))
    \<and> (\<forall>m. res = Err (MissingIntermediate m) \<longleftrightarrow>
        (\<exists>k < 6. nth_issuer L k (untrusted_issuer_cert_id cert) = Some m
           \<and> L (issuer_cert_id_as_bytes m) = None
           \<and> (\<forall>j \<le> k. \<not> anchored rs (nth_issuer L j (untrusted_issuer_cert_id cert)))))"
proof -
  let ?i = "untrusted_issuer_cert_id cert"
  obtain res where res: "build_unverified_chain_for rs C cert c = Ret (res, c)"
    and w: "walk_outcome rs L 6 0 ?i res"
    using quiescent_walk [OF assms, of "[]" 6 rs ?i]
    by (auto simp: build_unverified_chain_for_def)
  show ?thesis
    using res walk_outcome_decides [OF w] by (intro exI [of _ res]) simp
qed

theorem build_chain_outcomes_witness:
  "build_unverified_chain_for (root_set_new [from_trusted_cert (sample_cert [9] [9])]) map_cache
     (UntrustedCert (sample_cert [1] [2])) [[2] \<mapsto> UntrustedCert (sample_cert [2] [3])]
   = Ret (Err (MissingIntermediate (IssuerCertId \<lparr>cid_bytes = [3], cid_rendered = cached_default\<rparr>)),
       [[2] \<mapsto> UntrustedCert (sample_cert [2] [3])])"
proof -
  let ?rs = "root_set_new [from_trusted_cert (sample_cert [9] [9])]"
  let ?m = "[[2] \<mapsto> UntrustedCert (sample_cert [2] [3])]"
  let ?i = "IssuerCertId \<lparr>cid_bytes = [3], cid_rendered = cached_default\<rparr>"
  let ?leaf = "UntrustedCert (sample_cert [1] [2])"
  note defs = sample_cert_def root_set_new_def from_trusted_cert_def untrusted_issuer_cert_id_def
    issuer_cert_id_as_bytes_def cert_id_as_bytes_def
  have nth: "nth_issuer ?m 0 (untrusted_issuer_cert_id ?leaf) =
      Some (IssuerCertId \<lparr>cid_bytes = [2], cid_rendered = cached_default\<rparr>)"
    "nth_issuer ?m (Suc 0) (untrusted_issuer_cert_id ?leaf) = Some ?i"
    by (simp_all add: defs)
  have "\<not> anchored ?rs (nth_issuer ?m j (untrusted_issuer_cert_id ?leaf))" if "j \<le> Suc 0" for j
    using that nth by (auto simp: le_Suc_eq anchored_def root_set_find_eq same_id_def defs)
  moreover have "?m (issuer_cert_id_as_bytes ?i) = None" by (simp add: defs)
  ultimately have "\<exists>k < 6. nth_issuer ?m k (untrusted_issuer_cert_id ?leaf) = Some ?i
      \<and> ?m (issuer_cert_id_as_bytes ?i) = None
      \<and> (\<forall>j \<le> k. \<not> anchored ?rs (nth_issuer ?m j (untrusted_issuer_cert_id ?leaf)))"
    using nth(2) by (intro exI [of _ "Suc 0"]) simp
  moreover obtain res where "build_unverified_chain_for ?rs map_cache ?leaf ?m = Ret (res, ?m)"
    "\<forall>m. res = Err (MissingIntermediate m) \<longleftrightarrow>
        (\<exists>k < 6. nth_issuer ?m k (untrusted_issuer_cert_id ?leaf) = Some m
           \<and> ?m (issuer_cert_id_as_bytes m) = None
           \<and> (\<forall>j \<le> k. \<not> anchored ?rs (nth_issuer ?m j (untrusted_issuer_cert_id ?leaf))))"
    using build_chain_outcomes [OF map_cache_quiescent, of ?rs ?leaf ?m] by blast
  ultimately show ?thesis by simp
qed

end
