(* ===== verification/Trust_Store.thy ===== *)
theory Trust_Store
  imports Chain_Build
begin

text \<open>
  The in-memory certificate cache and the trust store: \<open>trust_store/cache.rs\<close> and
  \<open>trust_store/store.rs\<close> of \<open>rc-x509-trust\<close>.

  The concurrent cache of the \<open>mini_moka\<close> crate is the parameter \<open>'m moka_lib\<close>. Its keys
  are compared and hashed by the identifier's bytes (\<open>DangerousComparableId\<close>), so they are
  those bytes here. Evictions and expiry are inside the parameter: its documented behaviour, the
  predicate \<open>moka_laws\<close>, only bounds what a lookup may answer.
\<close>

section \<open>The cache\<close>

record 'm moka_lib =
  mk_new :: "u64 \<Rightarrow> 'm"
  mk_insert :: "bytes \<Rightarrow> untrusted_cert \<Rightarrow> u32 \<Rightarrow> 'm \<Rightarrow> 'm"
  mk_get :: "bytes \<Rightarrow> 'm \<Rightarrow> untrusted_cert option \<times> 'm"
  mk_invalidate :: "bytes \<Rightarrow> 'm \<Rightarrow> 'm"

text \<open>
  \<open>usize\<close> arithmetic: with overflow checks (\<open>debug\<close>) a product that does not fit panics,
  without them it wraps. \<open>u32::try_from(..).unwrap_or(u32::MAX)\<close> saturates.
\<close>

definition weight_estimator :: "bool \<Rightarrow> usize \<Rightarrow> u32 run" where
  "weight_estimator debug der_len =
     (if debug \<and> unat der_len * 5 \<ge> 2 ^ 64 then Panic ''attempt to multiply with overflow''
      else
        let q = unat ((der_len * 5) div 4) in
        Ret (if q < 2 ^ 32 then of_nat q else - 1))"

definition memory_cache_new :: "'m moka_lib \<Rightarrow> u64 \<Rightarrow> 'm" where
  "memory_cache_new M approx_max_bytes = mk_new M approx_max_bytes"

definition memory_cache_insert :: "bool \<Rightarrow> 'm moka_lib \<Rightarrow> untrusted_cert \<Rightarrow> 'm \<Rightarrow> 'm run" where
  "memory_cache_insert debug M cert m =
     (let cert_id = dc_into_owned (as_dangerous_comparable (untrusted_cert_id cert)) in
      run_bind (weight_estimator debug (of_nat (length (untrusted_as_der_slice cert)))) (\<lambda>w.
        Ret (mk_insert M (dc_cert_bytes cert_id) cert w m)))"

definition memory_cache_get ::
  "'m moka_lib \<Rightarrow> cert_id \<Rightarrow> 'm \<Rightarrow> (untrusted_cert option \<times> 'm) run" where
  "memory_cache_get M cert_id m =
     (case mk_get M (dc_cert_bytes (dc_into_owned (as_dangerous_comparable cert_id))) m of
        (None, m') \<Rightarrow> Ret (None, m')
      | (Some cert, m') \<Rightarrow>
          assert_that (dc_cert_eq_dc_cert (as_dangerous_comparable (untrusted_cert_id cert))
              (as_dangerous_comparable cert_id))
            ''assertion `left == right` failed'' (Ret (Some cert, m')))"

definition memory_cache_remove :: "'m moka_lib \<Rightarrow> cert_id \<Rightarrow> 'm \<Rightarrow> 'm run" where
  "memory_cache_remove M cert_id m =
     Ret (mk_invalidate M (dc_cert_bytes (dc_into_owned (as_dangerous_comparable cert_id))) m)"

definition memory_cert_cache :: "bool \<Rightarrow> 'm moka_lib \<Rightarrow> 'm cert_cache" where
  "memory_cert_cache debug M = \<lparr>
     cc_insert = memory_cache_insert debug M,
     cc_get = memory_cache_get M,
     cc_remove = memory_cache_remove M\<rparr>"

section \<open>The store\<close>

datatype verification_error = MissingLeafCert cert_id | ChainBuild chain_build_error

record 'c trust_store =
  ts_roots :: root_set
  ts_cache :: 'c

definition trust_store_new :: "root_certificate list \<Rightarrow> 'c \<Rightarrow> 'c trust_store" where
  "trust_store_new rs cache = \<lparr>ts_roots = root_set_new rs, ts_cache = cache\<rparr>"

fun add_certs :: "'c cert_cache \<Rightarrow> untrusted_cert list \<Rightarrow> 'c trust_store \<Rightarrow> 'c trust_store run" where
  "add_certs C [] self = Ret self"
| "add_certs C (cert # certs) self =
     run_bind (cc_insert C cert (ts_cache self)) (\<lambda>c.
       add_certs C certs (self\<lparr>ts_cache := c\<rparr>))"

definition validate ::
  "'c cert_cache \<Rightarrow> cert_id \<Rightarrow> signature \<Rightarrow> bytes \<Rightarrow> 'c trust_store
     \<Rightarrow> ((verification_error + unit) \<times> 'c trust_store) run" where
  "validate C signing_cert_id sig payload self =
     run_bind (cc_get C signing_cert_id (ts_cache self)) (\<lambda>(got, c).
       case got of
         None \<Rightarrow> Ret (Err (MissingLeafCert signing_cert_id), self\<lparr>ts_cache := c\<rparr>)
       | Some cert \<Rightarrow>
           run_bind (build_unverified_chain_for (ts_roots self) C cert c) (\<lambda>(r, c').
             Ret (try_op r ChainBuild (\<lambda>candidate_chain. Ok ()), self\<lparr>ts_cache := c'\<rparr>)))"

section \<open>The cache's contract\<close>

text \<open>
  The documented behaviour of the concurrent cache, over some reading \<open>ct\<close> of its contents: a
  new cache is empty, a lookup answers nothing or the stored value, and every operation stores at
  most what it is given; entries may vanish at any time.
\<close>

definition moka_laws :: "'m moka_lib \<Rightarrow> ('m \<Rightarrow> bytes \<Rightarrow> untrusted_cert option) \<Rightarrow> bool" where
  "moka_laws M ct \<longleftrightarrow>
     (\<forall>n. ct (mk_new M n) = Map.empty)
     \<and> (\<forall>k v w m. ct (mk_insert M k v w m) \<subseteq>\<^sub>m (ct m)(k \<mapsto> v))
     \<and> (\<forall>k m. ct (mk_invalidate M k m) \<subseteq>\<^sub>m (ct m)(k := None))
     \<and> (\<forall>k m r m'. mk_get M k m = (r, m') \<longrightarrow> ct m' \<subseteq>\<^sub>m ct m \<and> (r = None \<or> r = ct m k))"

lemma dc_bytes_owned [simp]:
  "dc_cert_bytes (dc_into_owned (as_dangerous_comparable i)) = cert_id_as_bytes i"
  by (simp add: dc_cert_bytes_def)

lemma memory_cache_get_eq:
  "memory_cache_get M i m =
     (case mk_get M (cert_id_as_bytes i) m of
        (None, m') \<Rightarrow> Ret (None, m')
      | (Some v, m') \<Rightarrow> assert_that (cert_id_as_bytes (untrusted_cert_id v) = cert_id_as_bytes i)
            ''assertion `left == right` failed'' (Ret (Some v, m')))"
  by (auto simp: memory_cache_get_def dc_cert_eq_dc_cert_def split: prod.splits option.splits)

interpretation memory_cache: cert_cache_contract "memory_cert_cache debug M" for debug M
  by unfold_locales
    (auto simp: memory_cert_cache_def memory_cache_get_eq outcome_simps
      split: prod.splits option.splits)

text \<open>The representation invariant: every entry sits under its own identifier.\<close>

definition cache_inv :: "('m \<Rightarrow> bytes \<Rightarrow> untrusted_cert option) \<Rightarrow> 'm \<Rightarrow> bool" where
  "cache_inv ct m \<longleftrightarrow> (\<forall>k v. ct m k = Some v \<longrightarrow> cert_id_as_bytes (untrusted_cert_id v) = k)"

text \<open>Operations on the cache, and what a sequence of them leaves under each identifier.\<close>

datatype cache_op = OpInsert untrusted_cert | OpGet cert_id | OpRemove cert_id

fun run_cache_op ::
  "'c cert_cache \<Rightarrow> cache_op \<Rightarrow> 'c \<Rightarrow> (untrusted_cert option \<times> 'c) run" where
  "run_cache_op C (OpInsert v) c = run_bind (cc_insert C v c) (\<lambda>c'. Ret (None, c'))"
| "run_cache_op C (OpGet i) c = cc_get C i c"
| "run_cache_op C (OpRemove i) c = run_bind (cc_remove C i c) (\<lambda>c'. Ret (None, c'))"

fun run_cache_ops :: "'c cert_cache \<Rightarrow> cache_op list \<Rightarrow> 'c \<Rightarrow> 'c run" where
  "run_cache_ops C [] c = Ret c"
| "run_cache_ops C (p # ps) c = run_bind (run_cache_op C p c) (\<lambda>(_, c'). run_cache_ops C ps c')"

fun written :: "cache_op list \<Rightarrow> (bytes \<Rightarrow> untrusted_cert option) \<Rightarrow> bytes \<Rightarrow> untrusted_cert option" where
  "written [] f = f"
| "written (OpInsert v # ps) f = written ps (f(cert_id_as_bytes (untrusted_cert_id v) \<mapsto> v))"
| "written (OpGet i # ps) f = written ps f"
| "written (OpRemove i # ps) f = written ps (f(cert_id_as_bytes i := None))"

text \<open>The weight of every inserted certificate is computed without overflow.\<close>

definition op_fits :: "cache_op \<Rightarrow> bool" where
  "op_fits p = (case p of OpInsert v \<Rightarrow> length (untrusted_as_der_slice v) * 5 < 2 ^ 64 | _ \<Rightarrow> True)"

lemma unat_times5:
  assumes "n * 5 < 2 ^ 64"
  shows "unat (of_nat n * 5 :: usize) = n * 5"
proof -
  have "(of_nat n * 5 :: usize) = of_nat (n * 5)" by simp
  then show ?thesis
    using assms by (simp only: unsigned_of_nat) (simp add: take_bit_nat_eq_self)
qed

lemma weight_small:
  assumes "n * 5 < 2 ^ 64"
  shows "weight_estimator debug (of_nat n) = Ret (of_nat (min (n * 5 div 4) (2 ^ 32 - 1)))"
proof -
  have n: "unat (of_nat n :: usize) = n"
    using assms by (simp add: unsigned_of_nat take_bit_nat_eq_self)
  have "unat ((of_nat n * 5 :: usize) div 4) = n * 5 div 4"
    using unat_times5 [OF assms] by (simp add: unat_div)
  moreover have "(- 1 :: u32) = of_nat (2 ^ 32 - 1)" by simp
  ultimately show ?thesis
    using n assms by (simp add: weight_estimator_def Let_def min_def)
qed

lemma memory_cache_insert_fits:
  assumes "op_fits (OpInsert v)"
  shows "\<exists>w. memory_cache_insert debug M v m =
    Ret (mk_insert M (cert_id_as_bytes (untrusted_cert_id v)) v w m)"
  using assms by (auto simp: memory_cache_insert_def op_fits_def weight_small Let_def)

text \<open>One operation: it returns, keeps the invariant, and its contents stay within the writes.\<close>

lemma cache_inv_map_le:
  "cache_inv ct m \<Longrightarrow> ct m' \<subseteq>\<^sub>m ct m \<Longrightarrow> cache_inv ct m'"
  by (fastforce simp: cache_inv_def map_le_def dom_def)

lemma memory_cache_op:
  assumes laws: "moka_laws M ct" and inv: "cache_inv ct m" and le: "ct m \<subseteq>\<^sub>m f" and fits: "op_fits p"
  shows "\<exists>r m'. run_cache_op (memory_cert_cache debug M) p m = Ret (r, m') \<and> cache_inv ct m'
    \<and> ct m' \<subseteq>\<^sub>m written [p] f \<and> (\<forall>i. p = OpGet i \<longrightarrow> r = None \<or> r = f (cert_id_as_bytes i))"
proof (cases p)
  case (OpInsert v)
  let ?k = "cert_id_as_bytes (untrusted_cert_id v)"
  obtain w where w: "memory_cache_insert debug M v m = Ret (mk_insert M ?k v w m)"
    using memory_cache_insert_fits [of v debug M m] fits OpInsert by blast
  have sub: "ct (mk_insert M ?k v w m) \<subseteq>\<^sub>m (ct m)(?k \<mapsto> v)"
    using laws by (simp add: moka_laws_def)
  have "cache_inv ct (mk_insert M ?k v w m)"
    using inv sub unfolding cache_inv_def map_le_def
    by (metis domI fun_upd_apply option.inject)
  moreover have "ct (mk_insert M ?k v w m) \<subseteq>\<^sub>m f(?k \<mapsto> v)"
    using sub map_le_upd [OF le] map_le_trans by blast
  ultimately show ?thesis using OpInsert w by (simp add: memory_cert_cache_def)
next
  case (OpGet i)
  obtain r m' where g: "mk_get M (cert_id_as_bytes i) m = (r, m')" by fastforce
  have sub: "ct m' \<subseteq>\<^sub>m ct m" and r: "r = None \<or> r = ct m (cert_id_as_bytes i)"
    using laws g by (auto simp: moka_laws_def)
  have "cert_id_as_bytes (untrusted_cert_id v) = cert_id_as_bytes i" if "r = Some v" for v
    using that r inv by (auto simp: cache_inv_def)
  then have "memory_cache_get M i m = Ret (r, m')"
    using g by (cases r) (simp_all add: memory_cache_get_eq)
  moreover have "r = None \<or> r = f (cert_id_as_bytes i)"
    using r le by (cases "ct m (cert_id_as_bytes i)") (auto simp: map_le_def dom_def)
  ultimately show ?thesis
    using OpGet cache_inv_map_le [OF inv sub] map_le_trans [OF sub le]
    by (simp add: memory_cert_cache_def)
next
  case (OpRemove i)
  let ?m' = "mk_invalidate M (cert_id_as_bytes i) m"
  have sub: "ct ?m' \<subseteq>\<^sub>m (ct m)(cert_id_as_bytes i := None)"
    using laws by (simp add: moka_laws_def)
  have "(ct m)(cert_id_as_bytes i := None) \<subseteq>\<^sub>m ct m" "(ct m)(cert_id_as_bytes i := None) \<subseteq>\<^sub>m f(cert_id_as_bytes i := None)"
    using le by (auto simp: map_le_def)
  then have "ct ?m' \<subseteq>\<^sub>m ct m" "ct ?m' \<subseteq>\<^sub>m f(cert_id_as_bytes i := None)"
    using sub map_le_trans by blast+
  then show ?thesis
    using OpRemove cache_inv_map_le [OF inv] by (simp add: memory_cert_cache_def memory_cache_remove_def)
qed

lemma written_Cons: "written (p # ps) f = written ps (written [p] f)"
  by (cases p) simp_all

lemma memory_cache_ops:
  assumes "moka_laws M ct"
  shows "cache_inv ct m \<Longrightarrow> ct m \<subseteq>\<^sub>m f \<Longrightarrow> list_all op_fits ps \<Longrightarrow>
    \<exists>m'. run_cache_ops (memory_cert_cache debug M) ps m = Ret m' \<and> cache_inv ct m'
      \<and> ct m' \<subseteq>\<^sub>m written ps f"
proof (induction ps arbitrary: m f)
  case (Cons p ps)
  obtain r m' where "run_cache_op (memory_cert_cache debug M) p m = Ret (r, m')"
    "cache_inv ct m'" "ct m' \<subseteq>\<^sub>m written [p] f"
    using memory_cache_op [OF assms Cons.prems(1,2), of p debug] Cons.prems(3) by auto
  then show ?case
    using Cons.IH [of m' "written [p] f"] Cons.prems(3)
    by (simp add: written_Cons [of p ps] del: written.simps)
qed simp

section \<open>What the store holds\<close>

text \<open>
  A predicate on certificates that holds of everything inserted holds of everything the cache
  answers, whatever it evicts, and so of every certificate of a chain that is built from it.
\<close>

definition cache_holds ::
  "('m \<Rightarrow> bytes \<Rightarrow> untrusted_cert option) \<Rightarrow> (untrusted_cert \<Rightarrow> bool) \<Rightarrow> 'm \<Rightarrow> bool" where
  "cache_holds ct P m \<longleftrightarrow> (\<forall>k v. ct m k = Some v \<longrightarrow> P v)"

lemma cache_holds_map_le:
  "cache_holds ct P m \<Longrightarrow> ct m' \<subseteq>\<^sub>m ct m \<Longrightarrow> cache_holds ct P m'"
  by (fastforce simp: cache_holds_def map_le_def dom_def)

lemma memory_cache_get_holds:
  assumes "moka_laws M ct" and "cache_holds ct P m" and "memory_cache_get M i m = Ret (r, m')"
  shows "cache_holds ct P m' \<and> (\<forall>v. r = Some v \<longrightarrow> P v)"
proof -
  obtain g m1 where g: "mk_get M (cert_id_as_bytes i) m = (g, m1)" by fastforce
  have "ct m1 \<subseteq>\<^sub>m ct m" "g = None \<or> g = ct m (cert_id_as_bytes i)"
    using assms(1) g by (auto simp: moka_laws_def)
  moreover have "r = g" "m' = m1"
    using assms(3) g by (auto simp: memory_cache_get_eq outcome_simps split: option.splits)
  ultimately show ?thesis
    using assms(2) cache_holds_map_le [OF assms(2)] by (auto simp: cache_holds_def)
qed

lemma cache_holds_op:
  assumes laws: "moka_laws M ct" and m: "cache_holds ct P m"
    and run: "run_cache_op (memory_cert_cache debug M) p m = Ret (r, m')"
    and new: "\<And>v. p = OpInsert v \<Longrightarrow> P v"
  shows "cache_holds ct P m'"
proof (cases p)
  case (OpInsert v)
  let ?k = "cert_id_as_bytes (untrusted_cert_id v)"
  obtain w where "m' = mk_insert M ?k v w m"
    using run OpInsert
    by (auto simp: memory_cert_cache_def memory_cache_insert_def outcome_simps Let_def)
  then have "ct m' \<subseteq>\<^sub>m (ct m)(?k \<mapsto> v)" using laws by (simp add: moka_laws_def)
  then show ?thesis
    using m new [OF OpInsert] unfolding cache_holds_def map_le_def
    by (metis domI fun_upd_apply option.inject)
next
  case (OpGet i)
  then show ?thesis
    using run memory_cache_get_holds [OF laws m] by (auto simp: memory_cert_cache_def)
next
  case (OpRemove i)
  then have "m' = mk_invalidate M (cert_id_as_bytes i) m"
    using run by (auto simp: memory_cert_cache_def memory_cache_remove_def)
  then have "ct m' \<subseteq>\<^sub>m (ct m)(cert_id_as_bytes i := None)" using laws by (simp add: moka_laws_def)
  moreover have "(ct m)(cert_id_as_bytes i := None) \<subseteq>\<^sub>m ct m" by (auto simp: map_le_def)
  ultimately have "ct m' \<subseteq>\<^sub>m ct m" using map_le_trans by blast
  then show ?thesis by (rule cache_holds_map_le [OF m])
qed

lemma cache_holds_ops:
  assumes "moka_laws M ct"
  shows "cache_holds ct P m \<Longrightarrow> run_cache_ops (memory_cert_cache debug M) ps m = Ret m' \<Longrightarrow>
    (\<And>v. OpInsert v \<in> set ps \<Longrightarrow> P v) \<Longrightarrow> cache_holds ct P m'"
proof (induction ps arbitrary: m)
  case (Cons p ps)
  then obtain r m1 where "run_cache_op (memory_cert_cache debug M) p m = Ret (r, m1)"
    "run_cache_ops (memory_cert_cache debug M) ps m1 = Ret m'"
    by (auto simp: outcome_simps)
  then show ?case using Cons cache_holds_op [OF assms] by (metis list.set_intros)
qed simp

lemma build_loop_holds:
  assumes "moka_laws M ct"
  shows "cache_holds ct P m \<Longrightarrow> list_all P chain \<Longrightarrow>
    build_loop rs (memory_cert_cache debug M) i chain m = Ret (Ok (UntrustedChain r out), m') \<Longrightarrow>
    list_all P out \<and> r \<in> set (roots rs)"
proof (induction rs "memory_cert_cache debug M" i chain m rule: build_loop.induct)
  case (1 rs i chain m)
  show ?case
  proof (cases "root_set_find rs (issuer_as_dangerous_comparable i)")
    case (Some root)
    then show ?thesis using 1(3,4) root_set_find_Some [OF Some] by (auto simp: build_loop_root)
  next
    case None
    then have short: "length chain < 6"
      using 1(4) by (cases "length chain < 6") (auto simp: build_loop_long)
    obtain v m1 where v: "cc_get (memory_cert_cache debug M) (as_cert_id i) m = Ret (Some v, m1)"
      and rec: "build_loop rs (memory_cert_cache debug M) (untrusted_issuer_cert_id v) (chain @ [v]) m1 =
        Ret (Ok (UntrustedChain r out), m')"
      using 1(4) by (auto simp: build_loop_next [OF None short] outcome_simps split: option.splits)
    have "cache_holds ct P m1" "P v"
      using memory_cache_get_holds [OF assms 1(2)] v by (auto simp: memory_cert_cache_def)
    then show ?thesis
      using 1(1) [OF None] short v rec 1(3) by (simp add: MAX_INTERMEDIATES_def)
  qed
qed

lemma map_sum_Ok_iff: "map_sum f g r = Ok y \<longleftrightarrow> (\<exists>x. r = Ok x \<and> y = g x)"
  by (cases r) auto

lemma untrusted_parse_wf: "untrusted_parse S J X b = Ret (Ok u) \<Longrightarrow> certificate_wf (into_trusted u)"
  by (cases b) (auto simp: untrusted_from_der_def outcome_simps map_sum_Ok_iff intro: from_der_wf)

lemma embedded_root_wf: "embedded_root S J X pem = Ret r \<Longrightarrow> certificate_wf (root_deref r)"
  by (auto simp: embedded_root_def outcome_simps from_trusted_cert_def from_pem_Ok_iff intro: from_der_wf)

section \<open>A sample instance\<close>

text \<open>A cache that never evicts satisfies the documented behaviour.\<close>

definition sample_moka :: "(bytes \<Rightarrow> untrusted_cert option) moka_lib" where
  "sample_moka = \<lparr>mk_new = (\<lambda>_. Map.empty), mk_insert = (\<lambda>k v w m. m(k \<mapsto> v)),
     mk_get = (\<lambda>k m. (m k, m)), mk_invalidate = (\<lambda>k m. m(k := None))\<rparr>"

lemma sample_moka_laws: "moka_laws sample_moka id"
  by (simp add: moka_laws_def sample_moka_def)

text \<open>A parser that knows the sample certificate and, under \<open>[3]\<close>, the root that issued it.\<close>

definition sample_root_x509 :: x509_certificate where
  "sample_root_x509 = sample_x509\<lparr>iter_extensions :=
     [SubjectKeyIdentifier (replicate 20 2), AuthorityKeyIdentifier (Some (replicate 20 2))]\<rparr>"

definition sample_issued_lib :: x509_lib where
  "sample_issued_lib = sample_x509_lib\<lparr>x509_parse := (\<lambda>deep input.
     if input = [1] then Ok ([], sample_x509)
     else if input = [3] then Ok ([], sample_root_x509) else Err ''parse error'')\<rparr>"

definition sample_parsed :: "bytes \<Rightarrow> bytes \<Rightarrow> bytes \<Rightarrow> certificate" where
  "sample_parsed d ski aki = \<lparr>der = d, public_key_der = [9],
     cert_serial_number = \<lparr>sn_bytes = [5], sn_rendered = cached_default\<rparr>,
     cert_fingerprint = \<lparr>fp_digest = Digest (ctx_finish sample_sha (ctx_update sample_sha (ctx_new sample_sha) [1])),
       fp_rendered = cached_default\<rparr>,
     cert_validity = \<lparr>not_before = 10, not_after = 20, val_rendered = cached_default\<rparr>,
     cert_cert_id = \<lparr>cid_bytes = ski, cid_rendered = cached_default\<rparr>,
     cert_issuer_cert_id = IssuerCertId \<lparr>cid_bytes = aki, cid_rendered = cached_default\<rparr>,
     cert_is_ca = False\<rparr>"

lemmas sample_parse_defs = from_der_def sample_defs sample_issued_lib_def sample_root_x509_def
  sample_parsed_def fingerprint_from_def hash_data_returns [OF sample_sha_laws(1)]
  serial_number_from_def serial_number_new_def VALID_LENGTHS_def validity_try_from_def
  validity_new_def asn1_to_timestamp_def cert_id_try_from_x509_def issuer_cert_id_try_from_x509_def
  cert_id_try_from_slice_def cert_id_len_defs

lemma sample_leaf_parsed:
  "untrusted_parse sample_sha sample_jiff sample_issued_lib (UntrustedCertBytes [1]) =
     Ret (Ok (UntrustedCert (sample_parsed [1] (replicate 16 1) (replicate 20 2))))"
  by (simp add: untrusted_from_der_def sample_parse_defs)

lemma sample_root_parsed:
  "embedded_root sample_sha sample_jiff sample_issued_lib [3] =
     Ret (RootCertificate (sample_parsed [3] (replicate 20 2) (replicate 20 2)))"
  by (simp add: embedded_root_def from_pem_def from_trusted_cert_def expect_def sample_parse_defs)

section \<open>Properties\<close>

text \<open>
  C19. From an empty cache, whatever sequence of insertions, lookups and removals ran before, in
  either build, no operation panics, and a lookup answers nothing or exactly the last certificate
  inserted under the identifier and not removed since: the assertion that the answer carries the
  queried identifier never fails, whatever the cache evicts. The only assumption on the inputs is
  that no certificate is so large that its weight overflows.
\<close>

theorem memory_cache_history:
  assumes "moka_laws M ct" and "list_all op_fits ps"
  shows "\<exists>m. run_cache_ops (memory_cert_cache debug M) ps (memory_cache_new M n) = Ret m
    \<and> (\<forall>i. \<exists>r m'. cc_get (memory_cert_cache debug M) i m = Ret (r, m')
        \<and> (r = None \<or> r = written ps Map.empty (cert_id_as_bytes i)))"
proof -
  have empty: "ct (memory_cache_new M n) = Map.empty"
    using assms(1) by (simp add: moka_laws_def memory_cache_new_def)
  then have "cache_inv ct (memory_cache_new M n)" "ct (memory_cache_new M n) \<subseteq>\<^sub>m Map.empty"
    by (simp_all add: cache_inv_def)
  then obtain m where m: "run_cache_ops (memory_cert_cache debug M) ps (memory_cache_new M n) = Ret m"
    "cache_inv ct m" "ct m \<subseteq>\<^sub>m written ps Map.empty"
    using memory_cache_ops [OF assms(1) _ _ assms(2), where debug = debug] by blast
  have "\<exists>r m'. cc_get (memory_cert_cache debug M) i m = Ret (r, m')
        \<and> (r = None \<or> r = written ps Map.empty (cert_id_as_bytes i))" for i
    using memory_cache_op [OF assms(1) m(2,3), of "OpGet i" debug] by (auto simp: op_fits_def)
  then show ?thesis using m(1) by blast
qed

theorem memory_cache_history_witness:
  "\<exists>m. run_cache_ops (memory_cert_cache True sample_moka)
      [OpInsert (UntrustedCert (sample_cert [1] [2])), OpGet (cert_cert_id (sample_cert [1] [2])),
       OpRemove (cert_cert_id (sample_cert [1] [2]))] (memory_cache_new sample_moka 100) = Ret m
    \<and> (\<forall>i. \<exists>r m'. cc_get (memory_cert_cache True sample_moka) i m = Ret (r, m') \<and> r = None)"
proof -
  let ?ps = "[OpInsert (UntrustedCert (sample_cert [1] [2])), OpGet (cert_cert_id (sample_cert [1] [2])),
       OpRemove (cert_cert_id (sample_cert [1] [2]))]"
  have "list_all op_fits ?ps"
    by (simp add: op_fits_def untrusted_as_der_slice_def as_der_slice_def sample_cert_def)
  moreover have "written ?ps Map.empty k = None" for k
    by (simp add: untrusted_cert_id_def)
  ultimately show ?thesis
    using memory_cache_history [OF sample_moka_laws, of ?ps True 100] by simp
qed


text \<open>
  C37. On a cache that does not change under queries, validation succeeds exactly when the cache
  holds a certificate under the identifier and one of the first seven issuer identifiers above it
  is a root's. Neither the signature nor the payload takes part: under the same conditions any
  signature is accepted over any payload.
\<close>

theorem validate_ignores_signature:
  assumes "quiescent C (ts_cache s) L"
  shows "((\<exists>s'. validate C i sig payload s = Ret (Ok (), s')) \<longleftrightarrow>
      (\<exists>leaf. L (cert_id_as_bytes i) = Some leaf
         \<and> (\<exists>k \<le> 6. anchored (ts_roots s) (nth_issuer L k (untrusted_issuer_cert_id leaf)))))
    \<and> validate C i sig payload s = validate C i sig' payload' s"
proof -
  have same: "validate C i sig payload s = validate C i sig' payload' s"
    by (simp add: validate_def)
  have get: "cc_get C i (ts_cache s) = Ret (L (cert_id_as_bytes i), ts_cache s)"
    using assms by (simp add: quiescent_def)
  have "(\<exists>s'. validate C i sig payload s = Ret (Ok (), s')) \<longleftrightarrow>
      (\<exists>leaf. L (cert_id_as_bytes i) = Some leaf
         \<and> (\<exists>k \<le> 6. anchored (ts_roots s) (nth_issuer L k (untrusted_issuer_cert_id leaf))))"
  proof (cases "L (cert_id_as_bytes i)")
    case None
    then show ?thesis using get by (simp add: validate_def)
  next
    case (Some leaf)
    obtain res where res:
      "build_unverified_chain_for (ts_roots s) C leaf (ts_cache s) = Ret (res, ts_cache s)"
      "walk_outcome (ts_roots s) L 6 0 (untrusted_issuer_cert_id leaf) res"
      using quiescent_walk [OF assms, of "[]" 6 "ts_roots s" "untrusted_issuer_cert_id leaf"]
      by (auto simp: build_unverified_chain_for_def)
    then show ?thesis
      using get Some walk_outcome_decides(1) [OF res(2)]
      by (cases res) (simp_all add: validate_def)
  qed
  then show ?thesis using same by blast
qed

lemma sample_root_find:
  "root_set_find (root_set_new [from_trusted_cert (sample_cert [9] [9])])
     (issuer_as_dangerous_comparable (untrusted_issuer_cert_id (UntrustedCert (sample_cert [1] [9]))))
   = Some (RootCertificate (sample_cert [9] [9]))"
  by (simp add: root_set_find_eq root_set_new_def from_trusted_cert_def same_id_def
      untrusted_issuer_cert_id_def sample_cert_def issuer_cert_id_as_bytes_def cert_id_as_bytes_def)

theorem validate_ignores_signature_witness:
  "\<exists>s'. validate map_cache \<lparr>cid_bytes = [1], cid_rendered = cached_default\<rparr>
      \<lparr>sig_data = replicate 120 0, sig_len = 0\<rparr> [1, 2, 3]
      (trust_store_new [from_trusted_cert (sample_cert [9] [9])]
         [[1] \<mapsto> UntrustedCert (sample_cert [1] [9])]) = Ret (Ok (), s')"
proof -
  let ?s = "trust_store_new [from_trusted_cert (sample_cert [9] [9])]
         [[1] \<mapsto> UntrustedCert (sample_cert [1] [9])]"
  have "anchored (ts_roots ?s)
      (nth_issuer (ts_cache ?s) 0 (untrusted_issuer_cert_id (UntrustedCert (sample_cert [1] [9]))))"
    using sample_root_find by (simp add: anchored_def trust_store_new_def)
  then have "\<exists>k \<le> 6. anchored (ts_roots ?s)
      (nth_issuer (ts_cache ?s) k (untrusted_issuer_cert_id (UntrustedCert (sample_cert [1] [9]))))"
    by (intro exI [of _ 0]) simp
  moreover have "ts_cache ?s (cert_id_as_bytes \<lparr>cid_bytes = [1], cid_rendered = cached_default\<rparr>) =
      Some (UntrustedCert (sample_cert [1] [9]))"
    by (simp add: trust_store_new_def cert_id_as_bytes_def)
  ultimately show ?thesis
    using validate_ignores_signature [where s = ?s, OF map_cache_quiescent, of
        "\<lparr>cid_bytes = [1], cid_rendered = cached_default\<rparr>" "\<lparr>sig_data = replicate 120 0, sig_len = 0\<rparr>"
        "[1, 2, 3]"] by blast
qed


text \<open>
  The weight of a certificate is its length and a quarter, rounded down and capped at the
  largest 32-bit value, as long as five times the length fits 64 bits; beyond that a checked build
  panics and an unchecked build computes the weight from the wrapped product.
\<close>

lemma weight_estimator_value:
  assumes "n < 2 ^ 64"
  shows "weight_estimator debug (of_nat n) =
     (if n * 5 < 2 ^ 64 then Ret (of_nat (min (n * 5 div 4) (2 ^ 32 - 1)))
      else if debug then Panic ''attempt to multiply with overflow''
      else Ret (of_nat (min (n * 5 mod 2 ^ 64 div 4) (2 ^ 32 - 1))))"
proof (cases "n * 5 < 2 ^ 64")
  case True
  then show ?thesis by (simp add: weight_small)
next
  case False
  have n: "unat (of_nat n :: usize) = n"
    using assms by (simp add: unsigned_of_nat take_bit_nat_eq_self)
  have "(of_nat n * 5 :: usize) = of_nat (n * 5)" by simp
  then have "unat (of_nat n * 5 :: usize) = n * 5 mod 2 ^ 64"
    by (simp only: unsigned_of_nat) (simp add: take_bit_eq_mod)
  then have "unat ((of_nat n * 5 :: usize) div 4) = n * 5 mod 2 ^ 64 div 4"
    by (simp add: unat_div)
  moreover have "(- 1 :: u32) = of_nat (2 ^ 32 - 1)" by simp
  ultimately show ?thesis
    using n False by (simp add: weight_estimator_def Let_def min_def)
qed

lemma weight_estimator_value_witness:
  "weight_estimator True (of_nat 1000) = Ret 1250"
  using weight_estimator_value [of 1000 True] by simp

text \<open>
  C20. Certificates are well formed wherever they end up. If the roots come from embedded PEM and the
  cache was filled, in any sequence of operations, with certificates parsed from bytes, then the
  certificate found for an identifier, every intermediate of a chain built for it and its root have
  key identifiers of 16 to 64 bytes, a serial number of 1 to 20 bytes, a fingerprint of 32 bytes
  and cached strings that agree with the bytes, so that each identifier can be rendered without a
  panic, whatever the parser, the digest and the eviction of the cache do.
\<close>

theorem stored_certificates_wf:
  assumes "moka_laws M ct"
    and parsed: "\<And>v. OpInsert v \<in> set ps \<Longrightarrow> \<exists>b. untrusted_parse S J X b = Ret (Ok v)"
    and roots: "\<And>r. r \<in> set (roots rs) \<Longrightarrow> \<exists>pem. embedded_root S J X pem = Ret r"
    and run: "run_cache_ops (memory_cert_cache debug M) ps (memory_cache_new M n) = Ret m"
    and leaf: "cc_get (memory_cert_cache debug M) i m = Ret (Some leaf, m')"
    and chain: "build_unverified_chain_for rs (memory_cert_cache debug M) leaf m' = Ret (Ok chain, m'')"
    and c: "c \<in> set (root_deref (chain_root chain) # map into_trusted (leaf # as_slice chain))"
  shows "certificate_wf c \<and> returns (cert_id_as_hex_str (cert_cert_id c))
    \<and> returns (issuer_cert_id_as_hex_str (cert_issuer_cert_id c))
    \<and> returns (fingerprint_as_hex_str (cert_fingerprint c))
    \<and> returns (serial_number_as_hex_str (cert_serial_number c))"
proof -
  let ?P = "certificate_wf \<circ> into_trusted"
  have "cache_holds ct ?P (memory_cache_new M n)"
    using assms(1) by (simp add: cache_holds_def moka_laws_def memory_cache_new_def)
  then have "cache_holds ct ?P m"
    using cache_holds_ops [OF assms(1) _ run] parsed untrusted_parse_wf by fastforce
  then have m': "cache_holds ct ?P m'" "?P leaf"
    using memory_cache_get_holds [OF assms(1), of ?P m i "Some leaf" m'] leaf
    by (simp_all add: memory_cert_cache_def)
  obtain r out where out: "chain = UntrustedChain r out" by (cases chain)
  have "list_all ?P out \<and> r \<in> set (roots rs)"
    using build_loop_holds [OF assms(1) m'(1), of "[]"] chain out
    by (simp add: build_unverified_chain_for_def)
  then have "certificate_wf c"
    using c m'(2) roots embedded_root_wf by (fastforce simp: out list_all_iff)
  then show ?thesis by (simp add: certificate_renders)
qed

theorem stored_certificates_wf_witness:
  "certificate_wf (sample_parsed [1] (replicate 16 1) (replicate 20 2))"
proof -
  let ?leaf = "UntrustedCert (sample_parsed [1] (replicate 16 1) (replicate 20 2))"
  let ?root = "RootCertificate (sample_parsed [3] (replicate 20 2) (replicate 20 2))"
  let ?C = "memory_cert_cache True sample_moka"
  let ?m = "[replicate 16 1 \<mapsto> ?leaf]"
  have run: "run_cache_ops ?C [OpInsert ?leaf] (memory_cache_new sample_moka 100) = Ret ?m"
    by (simp add: memory_cert_cache_def memory_cache_insert_def sample_moka_def memory_cache_new_def
        untrusted_as_der_slice_def as_der_slice_def sample_parsed_def weight_estimator_def
        untrusted_cert_id_def cert_id_as_bytes_def Let_def)
  have leaf: "cc_get ?C (untrusted_cert_id ?leaf) ?m = Ret (Some ?leaf, ?m)"
    by (simp add: memory_cert_cache_def memory_cache_get_eq sample_moka_def sample_parsed_def
        cert_id_as_bytes_def untrusted_cert_id_def)
  have "root_set_find (root_set_new [?root])
      (issuer_as_dangerous_comparable (untrusted_issuer_cert_id ?leaf)) = Some ?root"
    by (simp add: root_set_find_eq root_set_new_def same_id_def untrusted_issuer_cert_id_def
        sample_parsed_def issuer_cert_id_as_bytes_def cert_id_as_bytes_def)
  then have chain: "build_unverified_chain_for (root_set_new [?root]) ?C ?leaf ?m =
      Ret (Ok (UntrustedChain ?root []), ?m)"
    by (simp add: build_unverified_chain_for_def build_loop_root)
  have ins: "\<exists>b. untrusted_parse sample_sha sample_jiff sample_issued_lib b = Ret (Ok v)"
    if "OpInsert v \<in> set [OpInsert ?leaf]" for v
    using that by (intro exI [of _ "UntrustedCertBytes [1]"]) (simp add: sample_leaf_parsed del: untrusted_parse.simps)
  have root: "\<exists>pem. embedded_root sample_sha sample_jiff sample_issued_lib pem = Ret r"
    if "r \<in> set (roots (root_set_new [?root]))" for r
    using that sample_root_parsed by (auto simp: root_set_new_def)
  show ?thesis
    using stored_certificates_wf [OF sample_moka_laws ins root run leaf chain,
        of "sample_parsed [1] (replicate 16 1) (replicate 20 2)"] by simp
qed

end
