(* ===== verification/Test_Issuer.thy ===== *)
theory Test_Issuer
  imports Csr Trust_Store
begin

text \<open>
  The certificate authority of the tests of \<open>rc-x509-trust\<close>, \<open>rc-x509-trust/src/test_issuer\<close>:
  the certificate templates and their builders, the generation of chains, and the mutators that
  plant one defect or one attack in a chain. The signing functions of the \<open>rcgen\<close> crate are a
  parameter, with the type \<open>'i\<close> of its signed certificates with their keys. The state of an
  issuance is the number of random values drawn so far. The lemmas say what is issued: which
  parameters each certificate carries and which identifiers it has.
\<close>

section \<open>The environment of an issuance\<close>

text \<open>
  \<open>csr_params_from_pem\<close> is \<open>CertificateSigningRequestParams::from_pem\<close>; \<open>signed_by\<close> and
  \<open>self_signed\<close> are the constructors of \<open>CertifiedIssuer\<close>, the other fields its accessors.
\<close>

record ('d, 'k, 'i) issuing_lib =
  csr_params_from_pem :: "string \<Rightarrow> rcgen_error + 'd certificate_params"
  signed_by :: "'d certificate_params \<Rightarrow> 'k private_key \<Rightarrow> 'i \<Rightarrow> seed \<Rightarrow> rcgen_error + 'i"
  self_signed :: "'d certificate_params \<Rightarrow> 'k private_key \<Rightarrow> seed \<Rightarrow> rcgen_error + 'i"
  issuer_der :: "'i \<Rightarrow> bytes"
  issuer_pem :: "'i \<Rightarrow> bytes"
  issuer_key :: "'i \<Rightarrow> 'k private_key"
  issuer_params :: "'i \<Rightarrow> 'd certificate_params"
  date_time_ymd :: "int \<Rightarrow> nat \<Rightarrow> nat \<Rightarrow> int"

record ('h, 'd, 'k, 'i) issue_env =
  ie_sha :: "'h sha_lib"
  ie_ecdsa :: "'k ecdsa_lib"
  ie_rcgen :: "('d, 'k) rcgen_lib"
  ie_issuing :: "('d, 'k, 'i) issuing_lib"
  ie_jiff :: jiff_lib
  ie_x509 :: x509_lib
  ie_fips :: bool
  ie_debug :: bool
  ie_random :: "nat \<Rightarrow> seed"

section \<open>Identities\<close>

record 'i identity =
  id_cert :: certificate
  id_issuer :: 'i

definition identity_new :: "certificate \<Rightarrow> 'i \<Rightarrow> 'i identity" where
  "identity_new cert issuer = \<lparr>id_cert = cert, id_issuer = issuer\<rparr>"

definition identity_key :: "('h, 'd, 'k, 'i) issue_env \<Rightarrow> 'i identity \<Rightarrow> 'k private_key" where
  "identity_key E self = issuer_key (ie_issuing E) (id_issuer self)"

section \<open>Builders\<close>

record 'k params =
  pa_key :: "'k private_key"
  pa_cn :: string
  pa_cert_id :: "bytes option"
  pa_not_before :: "int option"
  pa_not_after :: "int option"
  pa_extended_key_usages :: "extended_key_usage_purpose list option"
  pa_is_ca :: "is_ca option"
  pa_custom_extensions :: "custom_extension list"

record ('k, 't) cert_builder =
  cb_params :: "'k params"
  cb_template :: 't

definition test_serial_number :: bytes where
  "test_serial_number = [42]"

definition generate_ski :: "('h, 'd, 'k, 'i) issue_env \<Rightarrow> 'k private_key \<Rightarrow> bytes run" where
  "generate_ski E key =
     run_bind (public_key_key_id (ie_sha E) (ie_ecdsa E) (private_key_public_key (ie_ecdsa E) key))
       (\<lambda>kid. Ret (rev (key_id_as_bytes kid) @ [42]))"

definition override_with :: "'v option \<Rightarrow> ('v \<Rightarrow> 'p \<Rightarrow> 'p) \<Rightarrow> 'p \<Rightarrow> 'p" where
  "override_with v f p = (case v of Some x \<Rightarrow> f x p | None \<Rightarrow> p)"

definition params_sign ::
  "('h, 'd, 'k, 'i) issue_env \<Rightarrow> 'k params \<Rightarrow> 'd certificate_params \<Rightarrow> 'i identity \<Rightarrow> nat
     \<Rightarrow> ('i identity \<times> nat) run" where
  "params_sign E self tbs parent t =
     (let tbs = tbs\<lparr>cp_serial_number := Some test_serial_number,
            cp_use_authority_key_identifier_extension := True\<rparr>
      in run_bind (case pa_cert_id self of Some v \<Rightarrow> Ret v | None \<Rightarrow> generate_ski E (pa_key self)) (\<lambda>ski.
        let tbs = tbs\<lparr>cp_key_identifier_method := PreSpecified ski\<rparr>;
            tbs = override_with (pa_not_before self) (\<lambda>v p. p\<lparr>cp_not_before := v\<rparr>) tbs;
            tbs = override_with (pa_not_after self) (\<lambda>v p. p\<lparr>cp_not_after := v\<rparr>) tbs;
            tbs = override_with (pa_extended_key_usages self) (\<lambda>v p. p\<lparr>cp_extended_key_usages := v\<rparr>) tbs;
            tbs = override_with (pa_is_ca self) (\<lambda>v p. p\<lparr>cp_is_ca := v\<rparr>) tbs;
            tbs = tbs\<lparr>cp_custom_extensions := cp_custom_extensions tbs @ pa_custom_extensions self\<rparr>
        in expect (signed_by (ie_issuing E) tbs (pa_key self) (id_issuer parent) (ie_random E t))
          ''signed cert'' (\<lambda>issuer.
            run_bind (from_der (ie_sha E) (ie_jiff E) (ie_x509 E) (issuer_der (ie_issuing E) issuer)) (\<lambda>r.
              expect r ''valid DER'' (\<lambda>cert. Ret (identity_new cert issuer, Suc t))))))"

definition cert_builder_new ::
  "('h, 'd, 'k, 'i) issue_env \<Rightarrow> string \<Rightarrow> 't \<Rightarrow> nat \<Rightarrow> (('k, 't) cert_builder \<times> nat) run" where
  "cert_builder_new E cn template t =
     run_bind (private_key_new (ie_ecdsa E) (ie_fips E) (ie_random E t)) (\<lambda>key.
       Ret (\<lparr>cb_params = \<lparr>pa_key = key, pa_cn = cn, pa_cert_id = None, pa_not_before = None,
               pa_not_after = None, pa_extended_key_usages = None, pa_is_ca = None,
               pa_custom_extensions = []\<rparr>,
             cb_template = template\<rparr>, Suc t))"

definition set_cert_id :: "bytes \<Rightarrow> ('k, 't) cert_builder \<Rightarrow> ('k, 't) cert_builder" where
  "set_cert_id v b = b\<lparr>cb_params := (cb_params b)\<lparr>pa_cert_id := Some v\<rparr>\<rparr>"

definition set_not_before :: "int \<Rightarrow> ('k, 't) cert_builder \<Rightarrow> ('k, 't) cert_builder" where
  "set_not_before v b = b\<lparr>cb_params := (cb_params b)\<lparr>pa_not_before := Some v\<rparr>\<rparr>"

definition set_not_after :: "int \<Rightarrow> ('k, 't) cert_builder \<Rightarrow> ('k, 't) cert_builder" where
  "set_not_after v b = b\<lparr>cb_params := (cb_params b)\<lparr>pa_not_after := Some v\<rparr>\<rparr>"

definition set_is_ca :: "is_ca \<Rightarrow> ('k, 't) cert_builder \<Rightarrow> ('k, 't) cert_builder" where
  "set_is_ca v b = b\<lparr>cb_params := (cb_params b)\<lparr>pa_is_ca := Some v\<rparr>\<rparr>"

definition add_custom_extension ::
  "custom_extension \<Rightarrow> ('k, 't) cert_builder \<Rightarrow> ('k, 't) cert_builder" where
  "add_custom_extension v b =
     b\<lparr>cb_params := (cb_params b)\<lparr>pa_custom_extensions := pa_custom_extensions (cb_params b) @ [v]\<rparr>\<rparr>"

definition set_extended_key_usages ::
  "extended_key_usage_purpose list \<Rightarrow> ('k, 't) cert_builder \<Rightarrow> ('k, 't) cert_builder" where
  "set_extended_key_usages v b = b\<lparr>cb_params := (cb_params b)\<lparr>pa_extended_key_usages := Some v\<rparr>\<rparr>"

section \<open>Templates\<close>

definition self_signed_build ::
  "('h, 'd, 'k, 'i) issue_env \<Rightarrow> 'k params \<Rightarrow> nat \<Rightarrow> ('i identity \<times> nat) run" where
  "self_signed_build E ps t =
     expect (params_new (ie_rcgen E) [pa_cn ps]) ''invalid self-signed cert params'' (\<lambda>tbs.
       let tbs = tbs\<lparr>cp_serial_number := Some test_serial_number, cp_is_ca := Ca Unconstrained,
             cp_use_authority_key_identifier_extension := True\<rparr>
       in run_bind (case pa_cert_id ps of Some v \<Rightarrow> Ret v | None \<Rightarrow> generate_ski E (pa_key ps)) (\<lambda>ski.
         let tbs = tbs\<lparr>cp_key_identifier_method := PreSpecified ski\<rparr>
         in expect (self_signed (ie_issuing E) tbs (pa_key ps) (ie_random E t))
           ''invalid self-signed issuer'' (\<lambda>issuer.
             run_bind (from_pem (ie_sha E) (ie_jiff E) (ie_x509 E) (issuer_pem (ie_issuing E) issuer)) (\<lambda>r.
               expect r ''valid cert for test issuer'' (\<lambda>cert. Ret (identity_new cert issuer, Suc t))))))"

definition new_root :: "('h, 'd, 'k, 'i) issue_env \<Rightarrow> string \<Rightarrow> nat \<Rightarrow> (('k, unit) cert_builder \<times> nat) run" where
  "new_root E cn t = cert_builder_new E cn () t"

definition root_build ::
  "('h, 'd, 'k, 'i) issue_env \<Rightarrow> ('k, unit) cert_builder \<Rightarrow> nat \<Rightarrow> ('i identity \<times> nat) run" where
  "root_build E b t = self_signed_build E (cb_params b) t"

record 'i intermediate_template =
  it_parent :: "'i identity"
  it_allowed_domains :: "string list"
  it_path_len :: "byte option"

definition intermediate_tbs :: "'i intermediate_template \<Rightarrow> 'd certificate_params \<Rightarrow> 'd certificate_params" where
  "intermediate_tbs self tbs =
     (let tbs = tbs\<lparr>cp_is_ca := (case it_path_len self of
            Some v \<Rightarrow> Ca (Constrained v) | None \<Rightarrow> Ca Unconstrained)\<rparr>
      in if it_allowed_domains self \<noteq> []
         then tbs\<lparr>cp_name_constraints := Some \<lparr>permitted_subtrees = map SubtreeDnsName (it_allowed_domains self),
           excluded_subtrees = []\<rparr>\<rparr>
         else tbs)"

definition intermediate_template_build ::
  "('h, 'd, 'k, 'i) issue_env \<Rightarrow> 'i intermediate_template \<Rightarrow> 'k params \<Rightarrow> nat \<Rightarrow> ('i identity \<times> nat) run" where
  "intermediate_template_build E self ps t =
     run_bind (new_intermediate (ie_sha E) (ie_ecdsa E) (ie_rcgen E) (pa_key ps) (ie_random E t) (pa_cn ps)) (\<lambda>r.
     expect r ''invalid CSR'' (\<lambda>csr.
     run_bind (as_pem_string (ie_rcgen E) csr) (\<lambda>pem.
     expect (csr_params_from_pem (ie_issuing E) pem) ''invalid TBS'' (\<lambda>tbs.
       params_sign E ps (intermediate_tbs self tbs) (it_parent self) (Suc t)))))"

type_synonym ('k, 'i) intermediate_builder = "('k, 'i intermediate_template) cert_builder"

definition builder_new_intermediate ::
  "('h, 'd, 'k, 'i) issue_env \<Rightarrow> string \<Rightarrow> 'i identity \<Rightarrow> nat \<Rightarrow> (('k, 'i) intermediate_builder \<times> nat) run" where
  "builder_new_intermediate E cn parent t =
     cert_builder_new E cn \<lparr>it_parent = parent, it_allowed_domains = [], it_path_len = None\<rparr> t"

definition intermediate_build ::
  "('h, 'd, 'k, 'i) issue_env \<Rightarrow> ('k, 'i) intermediate_builder \<Rightarrow> nat \<Rightarrow> ('i identity \<times> nat) run" where
  "intermediate_build E b t = intermediate_template_build E (cb_template b) (cb_params b) t"

definition set_allowed_domains ::
  "string list \<Rightarrow> ('k, 'i) intermediate_builder \<Rightarrow> ('k, 'i) intermediate_builder" where
  "set_allowed_domains ds b = b\<lparr>cb_template := (cb_template b)\<lparr>it_allowed_domains := ds\<rparr>\<rparr>"

definition allowed_domain ::
  "string \<Rightarrow> ('k, 'i) intermediate_builder \<Rightarrow> ('k, 'i) intermediate_builder" where
  "allowed_domain d b = b\<lparr>cb_template := (cb_template b)\<lparr>it_allowed_domains := [d]\<rparr>\<rparr>"

definition set_path_len :: "byte \<Rightarrow> ('k, 'i) intermediate_builder \<Rightarrow> ('k, 'i) intermediate_builder" where
  "set_path_len n b = b\<lparr>cb_template := (cb_template b)\<lparr>it_path_len := Some n\<rparr>\<rparr>"

definition builder_path_len :: "byte \<Rightarrow> ('k, 'i) intermediate_builder \<Rightarrow> ('k, 'i) intermediate_builder" where
  "builder_path_len n b = b\<lparr>cb_template := (cb_template b)\<lparr>it_path_len := Some n\<rparr>\<rparr>"

definition builder_parent_cert :: "('k, 'i) intermediate_builder \<Rightarrow> certificate" where
  "builder_parent_cert b = id_cert (it_parent (cb_template b))"

record 'i leaf_template =
  lt_parent :: "'i identity"
  lt_sans :: "string list"

text \<open>\<open>map(..expect(..)).collect()\<close>: the first name that is refused panics.\<close>

fun san_list :: "('d, 'k) rcgen_lib \<Rightarrow> string list \<Rightarrow> san_type list run" where
  "san_list R [] = Ret []"
| "san_list R (s # ss) =
     expect (ia5_try_from R s) ''invalid SAN'' (\<lambda>name.
       run_bind (san_list R ss) (\<lambda>rest. Ret (DnsName name # rest)))"

definition leaf_template_build ::
  "('h, 'd, 'k, 'i) issue_env \<Rightarrow> 'i leaf_template \<Rightarrow> 'k params \<Rightarrow> nat \<Rightarrow> ('i identity \<times> nat) run" where
  "leaf_template_build E self ps t =
     assert_that (lt_sans self \<noteq> []) ''no san provided for leaf cert''
       (run_bind (new_leaf (ie_sha E) (ie_ecdsa E) (ie_rcgen E) (pa_key ps) (ie_random E t) (pa_cn ps)
          (hd (lt_sans self))) (\<lambda>r.
        expect r ''invalid CSR'' (\<lambda>csr.
        run_bind (as_pem_string (ie_rcgen E) csr) (\<lambda>pem.
        expect (csr_params_from_pem (ie_issuing E) pem) ''invalid TBS'' (\<lambda>tbs.
        run_bind (san_list (ie_rcgen E) (lt_sans self)) (\<lambda>sans.
          params_sign E ps (tbs\<lparr>cp_is_ca := ExplicitNoCa, cp_subject_alt_names := sans\<rparr>)
            (lt_parent self) (Suc t)))))))"

type_synonym ('k, 'i) leaf_builder = "('k, 'i leaf_template) cert_builder"

definition builder_new_leaf ::
  "('h, 'd, 'k, 'i) issue_env \<Rightarrow> string \<Rightarrow> 'i identity \<Rightarrow> nat \<Rightarrow> (('k, 'i) leaf_builder \<times> nat) run" where
  "builder_new_leaf E cn parent t = cert_builder_new E cn \<lparr>lt_parent = parent, lt_sans = []\<rparr> t"

definition leaf_build ::
  "('h, 'd, 'k, 'i) issue_env \<Rightarrow> ('k, 'i) leaf_builder \<Rightarrow> nat \<Rightarrow> ('i identity \<times> nat) run" where
  "leaf_build E b t = leaf_template_build E (cb_template b) (cb_params b) t"

definition with_sans :: "string list \<Rightarrow> ('k, 'i) leaf_builder \<Rightarrow> ('k, 'i) leaf_builder" where
  "with_sans ss b = b\<lparr>cb_template := (cb_template b)\<lparr>lt_sans := ss\<rparr>\<rparr>"

definition san :: "string \<Rightarrow> ('k, 'i) leaf_builder \<Rightarrow> ('k, 'i) leaf_builder" where
  "san s b = with_sans [s] b"

section \<open>The authority\<close>

definition test_ca_root :: "('h, 'd, 'k, 'i) issue_env \<Rightarrow> nat \<Rightarrow> ('i identity \<times> nat) run" where
  "test_ca_root E t =
     run_bind (new_root E ''Banana Test CA'' t) (\<lambda>(b, t1). root_build E b t1)"

definition root_cert :: "'i identity \<Rightarrow> root_certificate" where
  "root_cert root = from_trusted_cert (id_cert root)"

section \<open>Chains\<close>

record 'i test_chain =
  tc_root :: "'i identity"
  tc_intermediates :: "'i identity list"
  tc_leaf :: "'i identity"

text \<open>
  A mutator sees each builder before its certificate is issued, and the chain at the end. The
  option that \<open>cm_complete\<close> returns is what the mutator stores in itself, which only
  \<open>MissingIntermediate\<close> does.
\<close>

record ('k, 'i) chain_mutator =
  cm_intermediate :: "('k, 'i) intermediate_builder \<Rightarrow> byte \<Rightarrow> byte \<Rightarrow> ('k, 'i) intermediate_builder run"
  cm_leaf :: "('k, 'i) leaf_builder \<Rightarrow> ('k, 'i) leaf_builder"
  cm_complete :: "'i test_chain \<Rightarrow> nat \<Rightarrow> ('i test_chain \<times> 'i identity option \<times> nat) run"

definition last_or :: "'i identity \<Rightarrow> 'i identity list \<Rightarrow> 'i identity" where
  "last_or root ints = (if ints = [] then root else last ints)"

fun issue_intermediates ::
  "('h, 'd, 'k, 'i) issue_env \<Rightarrow> ('k, 'i) chain_mutator \<Rightarrow> byte \<Rightarrow> 'i identity \<Rightarrow> byte list
     \<Rightarrow> 'i identity list \<Rightarrow> nat \<Rightarrow> ('i identity list \<times> nat) run" where
  "issue_intermediates E m n root [] ints t = Ret (ints, t)"
| "issue_intermediates E m n root (i # is) ints t =
     run_bind (builder_new_intermediate E (''Intermediate '' @ decimal (unat i)) (last_or root ints) t) (\<lambda>(b, t1).
     run_bind (cm_intermediate m (allowed_domain ''itsallbroken.com'' b) (i - 1) n) (\<lambda>b1.
     run_bind (intermediate_build E b1 t1) (\<lambda>(idn, t2).
       issue_intermediates E m n root is (ints @ [idn]) t2)))"

text \<open>The range \<open>1..(n + 1)\<close> over bytes, whose bound overflows for 255.\<close>

definition u8_range :: "bool \<Rightarrow> byte \<Rightarrow> byte list run" where
  "u8_range debug n =
     (if debug \<and> n = 255 then Panic ''attempt to add with overflow''
      else Ret (map of_nat [1..<unat (n + 1)]))"

definition test_chain_build ::
  "('h, 'd, 'k, 'i) issue_env \<Rightarrow> 'i identity \<Rightarrow> byte \<Rightarrow> ('k, 'i) chain_mutator \<Rightarrow> nat
     \<Rightarrow> ('i test_chain \<times> 'i identity option \<times> nat) run" where
  "test_chain_build E root n_intermediates mutator t =
     run_bind (u8_range (ie_debug E) n_intermediates) (\<lambda>is.
     run_bind (issue_intermediates E mutator n_intermediates root is [] t) (\<lambda>(ints, t1).
     run_bind (builder_new_leaf E ''A Leaf Certificate'' (last_or root ints) t1) (\<lambda>(b, t2).
     run_bind (leaf_build E (cm_leaf mutator (san ''leaf.itsallbroken.com'' b)) t2) (\<lambda>(leaf, t3).
       cm_complete mutator \<lparr>tc_root = root, tc_intermediates = ints, tc_leaf = leaf\<rparr> t3))))"

definition test_chain_root :: "'i test_chain \<Rightarrow> root_certificate" where
  "test_chain_root self = from_trusted_cert (id_cert (tc_root self))"

definition test_chain_len :: "'i test_chain \<Rightarrow> nat" where
  "test_chain_len self = length (tc_intermediates self) + 2"

section \<open>Mutators of single certificates\<close>

definition ValidChain :: "('k, 'i) chain_mutator" where
  "ValidChain = \<lparr>cm_intermediate = (\<lambda>b index total. Ret b), cm_leaf = (\<lambda>b. b),
     cm_complete = (\<lambda>chain t. Ret (chain, None, t))\<rparr>"

definition rem_u8 :: "byte \<Rightarrow> byte \<Rightarrow> byte run" where
  "rem_u8 a b =
     (if b = 0 then Panic ''attempt to calculate the remainder with a divisor of zero'' else Ret (a mod b))"

text \<open>The mutators with a seed share their shape: one intermediate is chosen and modified.\<close>

definition seeded_mutator ::
  "byte \<Rightarrow> (('k, 'i) intermediate_builder \<Rightarrow> ('k, 'i) intermediate_builder) \<Rightarrow> string
     \<Rightarrow> ('k, 'i) chain_mutator" where
  "seeded_mutator seed f msg = \<lparr>
     cm_intermediate = (\<lambda>b index total.
       run_bind (rem_u8 seed total) (\<lambda>target. Ret (if index = target then f b else b))),
     cm_leaf = (\<lambda>b. b),
     cm_complete = (\<lambda>chain t. assert_that (tc_intermediates chain \<noteq> []) msg (Ret (chain, None, t)))\<rparr>"

definition leaf_mutator :: "(('k, 'i) leaf_builder \<Rightarrow> ('k, 'i) leaf_builder) \<Rightarrow> ('k, 'i) chain_mutator" where
  "leaf_mutator f = ValidChain\<lparr>cm_leaf := f\<rparr>"

definition ExpiredIntermediate :: "('h, 'd, 'k, 'i) issue_env \<Rightarrow> byte \<Rightarrow> ('k, 'i) chain_mutator" where
  "ExpiredIntermediate E seed = seeded_mutator seed
     (set_not_after (date_time_ymd (ie_issuing E) 2020 1 1))
     ''ExpiredIntermediate chain mutator requires at least 1 intermediate''"

definition FutureValidIntermediate :: "('h, 'd, 'k, 'i) issue_env \<Rightarrow> byte \<Rightarrow> ('k, 'i) chain_mutator" where
  "FutureValidIntermediate E seed = seeded_mutator seed
     (set_not_before (date_time_ymd (ie_issuing E) 4000 1 1))
     ''FutureValidIntermediate chain mutator requires at least 1 intermediate''"

definition PreEpochIntermediate :: "('h, 'd, 'k, 'i) issue_env \<Rightarrow> byte \<Rightarrow> ('k, 'i) chain_mutator" where
  "PreEpochIntermediate E seed = seeded_mutator seed
     (set_not_after (date_time_ymd (ie_issuing E) 1969 7 20))
     ''PreEpochIntermediate chain mutator requires at least 1 intermediate''"

definition NonCaIntermediate :: "byte \<Rightarrow> ('k, 'i) chain_mutator" where
  "NonCaIntermediate seed = seeded_mutator seed (set_is_ca ExplicitNoCa)
     ''NonCaIntermediate chain mutator requires at least 1 intermediate''"

definition UNKNOWN_EXTENSION_OID :: "u64 list" where
  "UNKNOWN_EXTENSION_OID = [1, 3, 6, 1, 4, 1, 99999, 1]"

definition unknown_critical_extension :: custom_extension where
  "unknown_critical_extension =
     (let ext = \<lparr>ext_oid = UNKNOWN_EXTENSION_OID, ext_critical = False, ext_content = [0xde, 0xad]\<rparr>
      in ext\<lparr>ext_critical := True\<rparr>)"

definition CriticalExtensionIntermediate :: "byte \<Rightarrow> ('k, 'i) chain_mutator" where
  "CriticalExtensionIntermediate seed = seeded_mutator seed (add_custom_extension unknown_critical_extension)
     ''CriticalExtensionIntermediate chain mutator requires at least 1 intermediate''"

definition ExpiredLeaf :: "('h, 'd, 'k, 'i) issue_env \<Rightarrow> ('k, 'i) chain_mutator" where
  "ExpiredLeaf E = leaf_mutator (set_not_after (date_time_ymd (ie_issuing E) 2020 1 1))"

definition FutureValidLeaf :: "('h, 'd, 'k, 'i) issue_env \<Rightarrow> ('k, 'i) chain_mutator" where
  "FutureValidLeaf E = leaf_mutator (set_not_before (date_time_ymd (ie_issuing E) 4000 1 1))"

definition PreEpochLeaf :: "('h, 'd, 'k, 'i) issue_env \<Rightarrow> ('k, 'i) chain_mutator" where
  "PreEpochLeaf E = leaf_mutator (set_not_after (date_time_ymd (ie_issuing E) 1969 7 20))"

definition CaSignerLeaf :: "('k, 'i) chain_mutator" where
  "CaSignerLeaf = leaf_mutator (set_is_ca (Ca Unconstrained))"

definition CriticalExtensionLeaf :: "('k, 'i) chain_mutator" where
  "CriticalExtensionLeaf = leaf_mutator (add_custom_extension unknown_critical_extension)"

definition MISMATCHED_LEAF_SAN :: string where
  "MISMATCHED_LEAF_SAN = ''wrong.itsallbroken.com''"

definition MismatchedLeafSan :: "('k, 'i) chain_mutator" where
  "MismatchedLeafSan = \<lparr>cm_intermediate = (\<lambda>b index total. Ret (set_allowed_domains [] b)),
     cm_leaf = with_sans [MISMATCHED_LEAF_SAN], cm_complete = (\<lambda>chain t. Ret (chain, None, t))\<rparr>"

definition PathLenViolation :: "('k, 'i) chain_mutator" where
  "PathLenViolation = \<lparr>cm_intermediate = (\<lambda>b index total. Ret (set_path_len 0 b)), cm_leaf = (\<lambda>b. b),
     cm_complete = (\<lambda>chain t. assert_that (2 \<le> length (tc_intermediates chain))
       ''PathLenViolation chain mutator requires at least 2 intermediates'' (Ret (chain, None, t)))\<rparr>"

section \<open>Scenarios\<close>

datatype chain_eku_config =
    IntermediatesAndLeaf "extended_key_usage_purpose list" "extended_key_usage_purpose list"
  | LeafOnly "extended_key_usage_purpose list"
  | IntermediatesOnly "extended_key_usage_purpose list"

fun eku_union :: "chain_eku_config \<Rightarrow> extended_key_usage_purpose list" where
  "eku_union (IntermediatesAndLeaf intermediate leaf) = intermediate @ leaf"
| "eku_union (LeafOnly v) = v"
| "eku_union (IntermediatesOnly v) = v"

fun eku_leaf :: "chain_eku_config \<Rightarrow> extended_key_usage_purpose list" where
  "eku_leaf (IntermediatesAndLeaf _ leaf) = leaf"
| "eku_leaf (LeafOnly v) = v"
| "eku_leaf (IntermediatesOnly _) = []"

fun eku_intermediates :: "chain_eku_config \<Rightarrow> extended_key_usage_purpose list" where
  "eku_intermediates (IntermediatesAndLeaf intermediate _) = intermediate"
| "eku_intermediates (LeafOnly _) = []"
| "eku_intermediates (IntermediatesOnly v) = v"

definition SetEKUs :: "chain_eku_config \<Rightarrow> ('k, 'i) chain_mutator" where
  "SetEKUs apply_to = \<lparr>
     cm_intermediate = (\<lambda>b index total. Ret (case apply_to of
         LeafOnly _ \<Rightarrow> b
       | IntermediatesOnly eku \<Rightarrow> set_extended_key_usages eku b
       | IntermediatesAndLeaf eku _ \<Rightarrow> set_extended_key_usages eku b)),
     cm_leaf = (\<lambda>b. case apply_to of
         LeafOnly eku \<Rightarrow> set_extended_key_usages eku b
       | IntermediatesOnly _ \<Rightarrow> b
       | IntermediatesAndLeaf _ eku \<Rightarrow> set_extended_key_usages eku b),
     cm_complete = (\<lambda>chain t. Ret (chain, None, t))\<rparr>"

definition LEAF_ENDPOINT_HOSTNAME :: string where
  "LEAF_ENDPOINT_HOSTNAME = ''us1.datadoghq.com''"

datatype leaf_san_scenario = SanMatching | SanMismatching | SanMultipleWithMatch | SanMultipleWithoutMatch

fun leaf_sans :: "leaf_san_scenario \<Rightarrow> string list" where
  "leaf_sans SanMatching = [LEAF_ENDPOINT_HOSTNAME]"
| "leaf_sans SanMismatching = [''eu1.datadoghq.com'']"
| "leaf_sans SanMultipleWithMatch = [''eu1.datadoghq.com'', LEAF_ENDPOINT_HOSTNAME, ''ap1.datadoghq.com'']"
| "leaf_sans SanMultipleWithoutMatch = [''eu1.datadoghq.com'', ''ap1.datadoghq.com'']"

definition SetLeafSans :: "leaf_san_scenario \<Rightarrow> ('k, 'i) chain_mutator" where
  "SetLeafSans scenario = \<lparr>cm_intermediate = (\<lambda>b index total. Ret (set_allowed_domains [] b)),
     cm_leaf = with_sans (leaf_sans scenario), cm_complete = (\<lambda>chain t. Ret (chain, None, t))\<rparr>"

datatype name_constraint_scenario =
  NcMatching | NcMismatching | NcUnconstrained | NcMultipleWithMatch | NcMatchingSubdomain

fun permitted_domains :: "name_constraint_scenario \<Rightarrow> string list" where
  "permitted_domains NcMatching = [LEAF_ENDPOINT_HOSTNAME]"
| "permitted_domains NcMismatching = [''eu1.datadoghq.com'']"
| "permitted_domains NcUnconstrained = []"
| "permitted_domains NcMultipleWithMatch = [''eu1.datadoghq.com'', LEAF_ENDPOINT_HOSTNAME]"
| "permitted_domains NcMatchingSubdomain = [''datadoghq.com'']"

definition ends_with :: "string \<Rightarrow> string \<Rightarrow> bool" where
  "ends_with s x = (length x \<le> length s \<and> drop (length s - length x) s = x)"

definition permits :: "name_constraint_scenario \<Rightarrow> string \<Rightarrow> bool" where
  "permits self dns_name =
     (let permitted = permitted_domains self in
      if permitted = [] then True
      else list_ex (\<lambda>v. dns_name = v \<or> ends_with dns_name (CHR ''.'' # v)) permitted)"

definition SetNameConstraints :: "name_constraint_scenario \<Rightarrow> leaf_san_scenario \<Rightarrow> ('k, 'i) chain_mutator" where
  "SetNameConstraints scenario sans = \<lparr>
     cm_intermediate = (\<lambda>b index total. Ret (set_allowed_domains (permitted_domains scenario) b)),
     cm_leaf = cm_leaf (SetLeafSans sans), cm_complete = (\<lambda>chain t. Ret (chain, None, t))\<rparr>"

section \<open>Mutators of chains\<close>

definition MissingIntermediateMutator :: "byte \<Rightarrow> ('k, 'i) chain_mutator" where
  "MissingIntermediateMutator seed = ValidChain\<lparr>
     cm_complete := (\<lambda>chain t.
       assert_that (tc_intermediates chain \<noteq> [])
         ''MissingIntermediate chain mutator can only operate on chains with at least 1 intermediate''
         (let ints = tc_intermediates chain;
              idx = unat seed mod length ints
          in Ret (chain\<lparr>tc_intermediates := take idx ints @ drop (Suc idx) ints\<rparr>, Some (ints ! idx), t)))\<rparr>"

definition comparable_id_bytes :: "certificate \<Rightarrow> bytes" where
  "comparable_id_bytes c = dc_cert_bytes (as_dangerous_comparable (cert_cert_id c))"

definition root_with_id ::
  "('h, 'd, 'k, 'i) issue_env \<Rightarrow> string \<Rightarrow> bytes \<Rightarrow> nat \<Rightarrow> ('i identity \<times> nat) run" where
  "root_with_id E cn ski t =
     run_bind (new_root E cn t) (\<lambda>(b, t1). root_build E (set_cert_id ski b) t1)"

definition intermediate_with_id ::
  "('h, 'd, 'k, 'i) issue_env \<Rightarrow> string \<Rightarrow> 'i identity \<Rightarrow> bytes \<Rightarrow> nat \<Rightarrow> ('i identity \<times> nat) run" where
  "intermediate_with_id E cn parent ski t =
     run_bind (builder_new_intermediate E cn parent t) (\<lambda>(b, t1). intermediate_build E (set_cert_id ski b) t1)"

definition leaf_under ::
  "('h, 'd, 'k, 'i) issue_env \<Rightarrow> string \<Rightarrow> 'i identity \<Rightarrow> nat \<Rightarrow> ('i identity \<times> nat) run" where
  "leaf_under E cn parent t =
     run_bind (builder_new_leaf E cn parent t) (\<lambda>(b, t1). leaf_build E (san ''leaf.itsallbroken.com'' b) t1)"

definition ForgedLeaf :: "('h, 'd, 'k, 'i) issue_env \<Rightarrow> ('k, 'i) chain_mutator" where
  "ForgedLeaf E = ValidChain\<lparr>
     cm_complete := (\<lambda>chain t.
       let last_cert = id_cert (last_or (tc_root chain) (tc_intermediates chain)) in
       run_bind (root_with_id E ''Evil CA'' (comparable_id_bytes last_cert) t) (\<lambda>(evil_root, t1).
       run_bind (leaf_under E ''Evil Leaf'' evil_root t1) (\<lambda>(evil_leaf, t2).
         Ret (chain\<lparr>tc_leaf := evil_leaf\<rparr>, None, t2))))\<rparr>"

definition OrphanLeaf :: "('h, 'd, 'k, 'i) issue_env \<Rightarrow> ('k, 'i) chain_mutator" where
  "OrphanLeaf E = ValidChain\<lparr>
     cm_complete := (\<lambda>chain t.
       let last_cert = id_cert (last_or (tc_root chain) (tc_intermediates chain)) in
       run_bind (intermediate_with_id E ''Evil Orphan CA'' (tc_root chain) (comparable_id_bytes last_cert) t)
         (\<lambda>(evil_ca, t1).
       run_bind (leaf_under E ''Orphan Leaf'' evil_ca t1) (\<lambda>(leaf, t2).
         Ret (chain\<lparr>tc_leaf := leaf\<rparr>, None, t2))))\<rparr>"

definition ForgedIntermediate :: "('h, 'd, 'k, 'i) issue_env \<Rightarrow> byte \<Rightarrow> ('k, 'i) chain_mutator" where
  "ForgedIntermediate E seed = ValidChain\<lparr>
     cm_complete := (\<lambda>chain t.
       assert_that (tc_intermediates chain \<noteq> [])
         ''ForgedIntermediate chain mutator requires at least 1 intermediate''
         (let ints = tc_intermediates chain;
              idx = unat seed mod length ints;
              parent_cert = (if idx = 0 then id_cert (tc_root chain) else id_cert (ints ! (idx - 1)))
          in run_bind (root_with_id E ''Evil CA'' (comparable_id_bytes parent_cert) t) (\<lambda>(evil_root, t1).
             run_bind (builder_new_intermediate E ''Evil Intermediate'' evil_root t1) (\<lambda>(b, t2).
             run_bind (intermediate_build E (allowed_domain ''itsallbroken.com'' b) t2) (\<lambda>(evil_intermediate, t3).
             run_bind (leaf_under E ''Evil Leaf'' evil_intermediate t3) (\<lambda>(evil_leaf, t4).
               Ret (chain\<lparr>tc_intermediates := take idx ints @ [evil_intermediate], tc_leaf := evil_leaf\<rparr>,
                 None, t4)))))))\<rparr>"

definition SelfReferentialCertIds :: "('h, 'd, 'k, 'i) issue_env \<Rightarrow> ('k, 'i) chain_mutator" where
  "SelfReferentialCertIds E = ValidChain\<lparr>
     cm_complete := (\<lambda>chain t.
       assert_that (2 \<le> length (tc_intermediates chain))
         ''SelfReferentialCertIds chain mutator requires at least 2 intermediate''
         (let ski_a = replicate 16 4; ski_b = replicate 16 2 in
          run_bind (root_with_id E ''Loop Signer B'' ski_b t) (\<lambda>(signer_for_a, t1).
          run_bind (intermediate_with_id E ''Loop Intermediate A'' signer_for_a ski_a t1) (\<lambda>(int_a, t2).
          run_bind (root_with_id E ''Loop Signer A'' ski_a t2) (\<lambda>(signer_for_b, t3).
          run_bind (intermediate_with_id E ''Loop Intermediate B'' signer_for_b ski_b t3) (\<lambda>(int_b, t4).
            let len = length (tc_intermediates chain);
                ints = (tc_intermediates chain)[len - 2 := int_a, len - 1 := int_b]
            in run_bind (leaf_under E ''Leaf'' (ints ! (len - 1)) t4) (\<lambda>(leaf, t5).
              Ret (chain\<lparr>tc_intermediates := ints, tc_leaf := leaf\<rparr>, None, t5))))))))\<rparr>"

section \<open>What the generator of certificates promises\<close>

text \<open>
  The documented encoding of parameters as a certificate, as the parser reads it back: the serial
  number, the validity, the key identifier in the extension that is written for an authority and
  for an explicit end entity, and, if asked for, the key identifier of the issuer.
\<close>

definition encodes ::
  "('h, 'd, 'k, 'i) issue_env \<Rightarrow> 'd certificate_params \<Rightarrow> 'd certificate_params \<Rightarrow> bytes \<Rightarrow> bool" where
  "encodes E p q d \<longleftrightarrow>
     (\<forall>b ski aki. cp_serial_number p = Some [b] \<and> b < 128 \<and> cp_is_ca p \<noteq> NoCa
        \<and> cp_key_identifier_method p = PreSpecified ski
        \<and> cp_use_authority_key_identifier_extension p \<and> cp_key_identifier_method q = PreSpecified aki \<longrightarrow>
        (\<exists>x. x509_parse (ie_x509 E) True d = Ok ([], x) \<and> raw_serial x = [b]
           \<and> validity_not_before x = cp_not_before p \<and> validity_not_after x = cp_not_after p
           \<and> find_map ski_of (iter_extensions x) = Some ski
           \<and> find_map aki_of (iter_extensions x) = Some aki
           \<and> (x509_is_ca x \<longleftrightarrow> (\<exists>c. cp_is_ca p = Ca c))))"

definition issuing_laws :: "('h, 'd, 'k, 'i) issue_env \<Rightarrow> bool" where
  "issuing_laws E \<longleftrightarrow>
     (\<forall>p k j r i. signed_by (ie_issuing E) p k j r = Ok i \<longrightarrow>
        issuer_params (ie_issuing E) i = p \<and> issuer_key (ie_issuing E) i = k
        \<and> encodes E p (issuer_params (ie_issuing E) j) (issuer_der (ie_issuing E) i))
     \<and> (\<forall>p k r i. self_signed (ie_issuing E) p k r = Ok i \<longrightarrow>
        issuer_params (ie_issuing E) i = p \<and> issuer_key (ie_issuing E) i = k
        \<and> encodes E p p (issuer_der (ie_issuing E) i)
        \<and> pem_iter_from_buffer (ie_x509 E) (issuer_pem (ie_issuing E) i) = [Ok (issuer_der (ie_issuing E) i)])"

definition ascii :: "string \<Rightarrow> bool" where
  "ascii s = list_all (\<lambda>c. of_char c < (128 :: nat)) s"

definition in_range :: "('h, 'd, 'k, 'i) issue_env \<Rightarrow> int \<Rightarrow> bool" where
  "in_range E v = is_ok (ts_from_second (ie_jiff E) v)"

text \<open>
  Nothing fails that need not fail: keys are generated, names in ASCII are accepted, a request
  without the fields that requests do not support is serialised and read back, certificates are
  signed, and the times in use are within the range of the timestamp library.
\<close>

definition issuing_succeeds :: "('h, 'd, 'k, 'i) issue_env \<Rightarrow> bool" where
  "issuing_succeeds E \<longleftrightarrow>
     sha_digest_len (ie_sha E)
     \<and> (\<forall>r. returns (private_key_new (ie_ecdsa E) (ie_fips E) r))
     \<and> (\<forall>ns. list_all ascii ns \<longrightarrow> (\<exists>p. params_new (ie_rcgen E) ns = Ok p
          \<and> in_range E (cp_not_before p) \<and> in_range E (cp_not_after p)))
     \<and> (\<forall>s. ascii s \<longrightarrow> is_ok (ia5_try_from (ie_rcgen E) s))
     \<and> (\<forall>p k r. cp_serial_number p = None \<and> cp_name_constraints p = None
          \<and> cp_crl_distribution_points p = [] \<and> cp_custom_extensions p = [] \<and> cp_is_ca p = NoCa \<longrightarrow>
          (\<exists>b s q. serialize_request (ie_rcgen E) p k r = Ok b \<and> request_pem (ie_rcgen E) b = Ok s
             \<and> csr_params_from_pem (ie_issuing E) s = Ok q
             \<and> in_range E (cp_not_before q) \<and> in_range E (cp_not_after q)))
     \<and> (\<forall>p k j r. is_ok (signed_by (ie_issuing E) p k j r))
     \<and> (\<forall>p k r. is_ok (self_signed (ie_issuing E) p k r))
     \<and> (\<forall>ymd \<in> {(2020, 1, 1), (4000, 1, 1), (1969, 7, 20)}.
          in_range E (date_time_ymd (ie_issuing E) (fst ymd) (fst (snd ymd)) (snd (snd ymd))))"

section \<open>What is issued\<close>

abbreviation id_bytes :: "'i identity \<Rightarrow> bytes" where
  "id_bytes idn \<equiv> cert_id_as_bytes (cert_cert_id (id_cert idn))"

abbreviation issuer_bytes :: "'i identity \<Rightarrow> bytes" where
  "issuer_bytes idn \<equiv> issuer_cert_id_as_bytes (cert_issuer_cert_id (id_cert idn))"

abbreviation params_of :: "('h, 'd, 'k, 'i) issue_env \<Rightarrow> 'i identity \<Rightarrow> 'd certificate_params" where
  "params_of E idn \<equiv> issuer_params (ie_issuing E) (id_issuer idn)"

text \<open>An identity signs under the identifier its own certificate carries.\<close>

definition identity_ok :: "('h, 'd, 'k, 'i) issue_env \<Rightarrow> 'i identity \<Rightarrow> bool" where
  "identity_ok E idn \<longleftrightarrow> cp_key_identifier_method (params_of E idn) = PreSpecified (id_bytes idn)
     \<and> length (id_bytes idn) \<in> {16..64}"

definition ski_for :: "('h, 'd, 'k, 'i) issue_env \<Rightarrow> 'k private_key \<Rightarrow> bytes" where
  "ski_for E key = (case generate_ski E key of Ret v \<Rightarrow> v | Panic _ \<Rightarrow> [])"

lemma generate_ski_returns:
  assumes "issuing_succeeds E"
  shows "generate_ski E key = Ret (ski_for E key)" and "length (ski_for E key) = 33"
proof -
  obtain kid where "key_id_from (ie_sha E) (ie_ecdsa E) (private_key_public_key (ie_ecdsa E) key) = Ret kid"
    using assms by (simp add: issuing_succeeds_def key_id_from_def hash_data_returns Let_def)
  then have "generate_ski E key = Ret (rev (key_id_as_bytes kid) @ [42]) \<and> length (key_id_as_bytes kid) = 32"
    by (simp add: generate_ski_def public_key_key_id_def key_id_from_length)
  then show "generate_ski E key = Ret (ski_for E key)" and "length (ski_for E key) = 33"
    by (simp_all add: ski_for_def)
qed

text \<open>From the encoding to the certificate.\<close>

lemma encodes_from_der:
  assumes "issuing_succeeds E" and "encodes E p q d"
    and "cp_serial_number p = Some test_serial_number" and "cp_is_ca p \<noteq> NoCa"
    and "cp_use_authority_key_identifier_extension p"
    and "cp_key_identifier_method p = PreSpecified ski" and "length ski \<in> {16..64}"
    and "cp_key_identifier_method q = PreSpecified aki" and "length aki \<in> {16..64}"
    and "in_range E (cp_not_before p)" and "in_range E (cp_not_after p)"
  shows "\<exists>c. from_der (ie_sha E) (ie_jiff E) (ie_x509 E) d = Ret (Ok c)
    \<and> cert_id_as_bytes (cert_cert_id c) = ski \<and> issuer_cert_id_as_bytes (cert_issuer_cert_id c) = aki"
proof -
  obtain x where x: "x509_parse (ie_x509 E) True d = Ok ([], x)" "raw_serial x = [42]"
    "validity_not_before x = cp_not_before p" "validity_not_after x = cp_not_after p"
    "find_map ski_of (iter_extensions x) = Some ski" "find_map aki_of (iter_extensions x) = Some aki"
    using assms(2-6,8) unfolding encodes_def test_serial_number_def by fastforce
  obtain nb na where t: "ts_from_second (ie_jiff E) (cp_not_before p) = Ok nb"
    "ts_from_second (ie_jiff E) (cp_not_after p) = Ok na"
    using assms(10,11) by (auto simp: in_range_def is_ok_def split: sum.splits)
  show ?thesis
    using assms(1,7,9) x t
    by (simp add: from_der_def fingerprint_from_def hash_data_returns issuing_succeeds_def
        serial_number_from_def serial_number_new_def VALID_LENGTHS_def validity_try_from_def
        validity_new_def asn1_to_timestamp_def cert_id_try_from_x509_def issuer_cert_id_try_from_x509_def
        cert_id_try_from_slice_def cert_id_len_defs issuer_cert_id_as_bytes_def cert_id_as_bytes_def)
qed

text \<open>The identifier and the parameters a builder asks for.\<close>

definition ski_of_params :: "('h, 'd, 'k, 'i) issue_env \<Rightarrow> 'k params \<Rightarrow> bytes" where
  "ski_of_params E ps = (case pa_cert_id ps of Some v \<Rightarrow> v | None \<Rightarrow> ski_for E (pa_key ps))"

definition final_params ::
  "('h, 'd, 'k, 'i) issue_env \<Rightarrow> 'k params \<Rightarrow> 'd certificate_params \<Rightarrow> 'd certificate_params" where
  "final_params E ps tbs = tbs\<lparr>
     cp_not_before := (case pa_not_before ps of Some v \<Rightarrow> v | None \<Rightarrow> cp_not_before tbs),
     cp_not_after := (case pa_not_after ps of Some v \<Rightarrow> v | None \<Rightarrow> cp_not_after tbs),
     cp_is_ca := (case pa_is_ca ps of Some v \<Rightarrow> v | None \<Rightarrow> cp_is_ca tbs),
     cp_serial_number := Some test_serial_number,
     cp_custom_extensions := cp_custom_extensions tbs @ pa_custom_extensions ps,
     cp_extended_key_usages := (case pa_extended_key_usages ps of Some v \<Rightarrow> v | None \<Rightarrow> cp_extended_key_usages tbs),
     cp_key_identifier_method := PreSpecified (ski_of_params E ps),
     cp_use_authority_key_identifier_extension := True\<rparr>"

definition params_ok :: "('h, 'd, 'k, 'i) issue_env \<Rightarrow> 'k params \<Rightarrow> bool" where
  "params_ok E ps \<longleftrightarrow> length (ski_of_params E ps) \<in> {16..64} \<and> pa_is_ca ps \<noteq> Some NoCa
     \<and> (\<forall>v. pa_not_before ps = Some v \<longrightarrow> in_range E v) \<and> (\<forall>v. pa_not_after ps = Some v \<longrightarrow> in_range E v)"

lemma ski_run:
  assumes "issuing_succeeds E"
  shows "(case pa_cert_id ps of Some v \<Rightarrow> Ret v | None \<Rightarrow> generate_ski E (pa_key ps)) = Ret (ski_of_params E ps)"
  using generate_ski_returns [OF assms] by (simp add: ski_of_params_def split: option.splits)

lemma overrides_final:
  "(let q = override_with (pa_is_ca ps) (\<lambda>v p. p\<lparr>cp_is_ca := v\<rparr>)
      (override_with (pa_extended_key_usages ps) (\<lambda>v p. p\<lparr>cp_extended_key_usages := v\<rparr>)
      (override_with (pa_not_after ps) (\<lambda>v p. p\<lparr>cp_not_after := v\<rparr>)
      (override_with (pa_not_before ps) (\<lambda>v p. p\<lparr>cp_not_before := v\<rparr>)
        (tbs\<lparr>cp_serial_number := Some test_serial_number, cp_use_authority_key_identifier_extension := True,
          cp_key_identifier_method := PreSpecified (ski_of_params E ps)\<rparr>))))
    in q\<lparr>cp_custom_extensions := cp_custom_extensions q @ pa_custom_extensions ps\<rparr>) = final_params E ps tbs"
  by (cases tbs) (simp add: final_params_def override_with_def Let_def split: option.splits)

lemmas overrides_final' = overrides_final [unfolded Let_def]

definition issues ::
  "('h, 'd, 'k, 'i) issue_env \<Rightarrow> 'k params \<Rightarrow> 'd certificate_params \<Rightarrow> 'i identity \<Rightarrow> 'i identity \<Rightarrow> bool" where
  "issues E ps tbs parent idn \<longleftrightarrow> identity_ok E idn \<and> id_bytes idn = ski_of_params E ps
     \<and> issuer_bytes idn = id_bytes parent \<and> params_of E idn = final_params E ps tbs
     \<and> identity_key E idn = pa_key ps"

lemma params_sign_issues:
  assumes laws: "issuing_laws E" and ok: "issuing_succeeds E"
    and parent: "identity_ok E parent" and ps: "params_ok E ps"
    and tbs: "in_range E (cp_not_before tbs)" "in_range E (cp_not_after tbs)" "cp_is_ca tbs \<noteq> NoCa"
  shows "\<exists>idn. params_sign E ps tbs parent t = Ret (idn, Suc t) \<and> issues E ps tbs parent idn"
proof -
  let ?p = "final_params E ps tbs"
  obtain i where i: "signed_by (ie_issuing E) ?p (pa_key ps) (id_issuer parent) (ie_random E t) = Ok i"
    using ok unfolding issuing_succeeds_def is_ok_def by (auto split: sum.splits) (metis old.sum.exhaust)
  then have e: "issuer_params (ie_issuing E) i = ?p" "issuer_key (ie_issuing E) i = pa_key ps"
    "encodes E ?p (params_of E parent) (issuer_der (ie_issuing E) i)"
    using laws by (auto simp: issuing_laws_def)
  have f: "cp_serial_number ?p = Some test_serial_number" "cp_is_ca ?p \<noteq> NoCa"
    "cp_use_authority_key_identifier_extension ?p"
    "cp_key_identifier_method ?p = PreSpecified (ski_of_params E ps)"
    "in_range E (cp_not_before ?p)" "in_range E (cp_not_after ?p)"
    using ps tbs by (auto simp: final_params_def params_ok_def split: option.splits)
  obtain c where c: "from_der (ie_sha E) (ie_jiff E) (ie_x509 E) (issuer_der (ie_issuing E) i) = Ret (Ok c)"
    "cert_id_as_bytes (cert_cert_id c) = ski_of_params E ps"
    "issuer_cert_id_as_bytes (cert_issuer_cert_id c) = id_bytes parent"
    using encodes_from_der [OF ok e(3) f(1-4) _ _ _ f(5,6), of "id_bytes parent"] parent ps
    by (auto simp: params_ok_def identity_ok_def)
  have "params_sign E ps tbs parent t = Ret (identity_new c i, Suc t)"
    unfolding params_sign_def ski_run [OF ok] Let_def run_bind_Ret overrides_final' using i c(1) by simp
  moreover have "issues E ps tbs parent (identity_new c i)"
    using e c ps by (simp add: issues_def identity_ok_def identity_new_def identity_key_def params_ok_def)
      (simp add: final_params_def)
  ultimately show ?thesis by blast
qed

text \<open>A new builder has its key from the next draw and overrides nothing.\<close>

definition drawn_key :: "('h, 'd, 'k, 'i) issue_env \<Rightarrow> nat \<Rightarrow> 'k private_key" where
  "drawn_key E t =
     (case private_key_new (ie_ecdsa E) (ie_fips E) (ie_random E t) of Ret k \<Rightarrow> k | Panic _ \<Rightarrow> undefined)"

definition draw_ski :: "('h, 'd, 'k, 'i) issue_env \<Rightarrow> nat \<Rightarrow> bytes" where
  "draw_ski E t = ski_for E (drawn_key E t)"

definition fresh_params :: "('h, 'd, 'k, 'i) issue_env \<Rightarrow> nat \<Rightarrow> string \<Rightarrow> 'k params" where
  "fresh_params E t cn = \<lparr>pa_key = drawn_key E t, pa_cn = cn, pa_cert_id = None, pa_not_before = None,
     pa_not_after = None, pa_extended_key_usages = None, pa_is_ca = None, pa_custom_extensions = []\<rparr>"

lemma draw_ski_length: "issuing_succeeds E \<Longrightarrow> length (draw_ski E t) = 33"
  by (simp add: draw_ski_def generate_ski_returns(2))

lemma ski_of_fresh [simp]: "ski_of_params E (fresh_params E t cn) = draw_ski E t"
  by (simp add: ski_of_params_def fresh_params_def draw_ski_def)

lemma fresh_params_cn [simp]: "pa_cn (fresh_params E t cn) = cn"
  by (simp add: fresh_params_def)

lemma fresh_params_ok: "issuing_succeeds E \<Longrightarrow> params_ok E (fresh_params E t cn)"
  using draw_ski_length [of E t] by (simp add: params_ok_def) (simp add: fresh_params_def)

lemma params_ok_set_cert_id:
  assumes "length ski \<in> {16..64}"
  shows "params_ok E ((fresh_params E t cn)\<lparr>pa_cert_id := Some ski\<rparr>)"
    "ski_of_params E ((fresh_params E t cn)\<lparr>pa_cert_id := Some ski\<rparr>) = ski"
  using assms by (simp_all add: params_ok_def ski_of_params_def fresh_params_def)

lemma cert_builder_new_returns:
  assumes "issuing_succeeds E"
  shows "cert_builder_new E cn tm t = Ret (\<lparr>cb_params = fresh_params E t cn, cb_template = tm\<rparr>, Suc t)"
proof -
  have "private_key_new (ie_ecdsa E) (ie_fips E) (ie_random E t) = Ret (drawn_key E t)"
    using assms by (auto simp: issuing_succeeds_def returns_def drawn_key_def split: run.splits)
  then show ?thesis by (simp add: cert_builder_new_def fresh_params_def)
qed

lemma succeeds_params_new:
  assumes "issuing_succeeds E" and "list_all ascii ns"
  shows "\<exists>p. params_new (ie_rcgen E) ns = Ok p \<and> in_range E (cp_not_before p) \<and> in_range E (cp_not_after p)"
  using assms unfolding issuing_succeeds_def by blast

lemma succeeds_ia5:
  assumes "issuing_succeeds E" and "ascii s"
  shows "\<exists>ia. ia5_try_from (ie_rcgen E) s = Ok ia"
proof -
  have "is_ok (ia5_try_from (ie_rcgen E) s)" using assms unfolding issuing_succeeds_def by blast
  then show ?thesis by (cases "ia5_try_from (ie_rcgen E) s") auto
qed

lemma request_accepted:
  assumes "issuing_succeeds E"
    and "cp_serial_number p = None" "cp_name_constraints p = None" "cp_crl_distribution_points p = []"
    "cp_custom_extensions p = []" "cp_is_ca p = NoCa"
  shows "\<exists>b s q. serialize_request (ie_rcgen E) p k r = Ok b \<and> request_pem (ie_rcgen E) b = Ok s
     \<and> csr_params_from_pem (ie_issuing E) s = Ok q \<and> in_range E (cp_not_before q) \<and> in_range E (cp_not_after q)"
  using assms by (simp add: issuing_succeeds_def)

lemma key_id_run:
  assumes "issuing_succeeds E"
  shows "\<exists>kid. public_key_key_id (ie_sha E) (ie_ecdsa E) pk = Ret kid"
  using assms by (simp add: public_key_key_id_def key_id_from_def hash_data_returns issuing_succeeds_def Let_def)

lemma intermediate_request_accepted:
  assumes "issuing_succeeds E" and "trim cn \<noteq> []"
  shows "\<exists>csr pem tbs. new_intermediate (ie_sha E) (ie_ecdsa E) (ie_rcgen E) k r cn = Ret (Ok csr)
    \<and> as_pem_string (ie_rcgen E) csr = Ret pem \<and> csr_params_from_pem (ie_issuing E) pem = Ok tbs
    \<and> in_range E (cp_not_before tbs) \<and> in_range E (cp_not_after tbs)"
proof -
  obtain base where base: "params_new (ie_rcgen E) [] = Ok base"
    using succeeds_params_new [OF assms(1), of "[]"] by auto
  obtain kid where kid: "public_key_key_id (ie_sha E) (ie_ecdsa E) (private_key_public_key (ie_ecdsa E) k) = Ret kid"
    using key_id_run [OF assms(1)] by blast
  define p where "p = base\<lparr>cp_serial_number := None, cp_name_constraints := None,
        cp_crl_distribution_points := [], cp_custom_extensions := [],
        cp_distinguished_name := csr_dn (ie_rcgen E) cn, cp_is_ca := NoCa,
        cp_key_usages := [KeyCertSign, CrlSign], cp_extended_key_usages := [],
        cp_key_identifier_method := PreSpecified (key_id_as_bytes kid)\<rparr>"
  obtain b s q where b: "serialize_request (ie_rcgen E) p k r = Ok b" "request_pem (ie_rcgen E) b = Ok s"
     "csr_params_from_pem (ie_issuing E) s = Ok q" "in_range E (cp_not_before q)" "in_range E (cp_not_after q)"
    using request_accepted [OF assms(1), of p k r] by (auto simp: p_def)
  have "new_intermediate (ie_sha E) (ie_ecdsa E) (ie_rcgen E) k r cn =
      Ret (Ok \<lparr>csr_profile = p, csr_serialised = b\<rparr>)"
    unfolding new_intermediate_def Let_def base kid p_def [symmetric] using assms(2) b(1) base
    by (simp add: kid p_def [symmetric])
  then show ?thesis using b by (simp add: as_pem_string_def)
qed

lemma leaf_request_accepted:
  assumes "issuing_succeeds E" and "trim cn \<noteq> []" and "trim name \<noteq> []" and "ascii name"
  shows "\<exists>csr pem tbs. new_leaf (ie_sha E) (ie_ecdsa E) (ie_rcgen E) k r cn name = Ret (Ok csr)
    \<and> as_pem_string (ie_rcgen E) csr = Ret pem \<and> csr_params_from_pem (ie_issuing E) pem = Ok tbs
    \<and> in_range E (cp_not_before tbs) \<and> in_range E (cp_not_after tbs)"
proof -
  obtain base where base: "params_new (ie_rcgen E) [] = Ok base"
    using succeeds_params_new [OF assms(1), of "[]"] by auto
  obtain ia where ia: "ia5_try_from (ie_rcgen E) name = Ok ia"
    using succeeds_ia5 [OF assms(1,4)] by blast
  obtain kid where kid: "public_key_key_id (ie_sha E) (ie_ecdsa E) (private_key_public_key (ie_ecdsa E) k) = Ret kid"
    using key_id_run [OF assms(1)] by blast
  define p where "p = base\<lparr>cp_is_ca := NoCa, cp_serial_number := None,
        cp_name_constraints := None, cp_crl_distribution_points := [], cp_custom_extensions := [],
        cp_distinguished_name := csr_dn (ie_rcgen E) cn, cp_subject_alt_names := [DnsName ia],
        cp_key_usages := [DigitalSignature], cp_extended_key_usages := [CodeSigning],
        cp_key_identifier_method := PreSpecified (key_id_as_bytes kid)\<rparr>"
  obtain b s q where b: "serialize_request (ie_rcgen E) p k r = Ok b" "request_pem (ie_rcgen E) b = Ok s"
     "csr_params_from_pem (ie_issuing E) s = Ok q" "in_range E (cp_not_before q)" "in_range E (cp_not_after q)"
    using request_accepted [OF assms(1), of p k r] by (auto simp: p_def)
  have "new_leaf (ie_sha E) (ie_ecdsa E) (ie_rcgen E) k r cn name =
      Ret (Ok \<lparr>csr_profile = p, csr_serialised = b\<rparr>)"
    unfolding new_leaf_def Let_def base kid p_def [symmetric] using assms(2,3) b(1) base ia
    by (simp add: kid p_def [symmetric])
  then show ?thesis using b by (simp add: as_pem_string_def)
qed

lemma san_list_returns:
  assumes "issuing_succeeds E"
  shows "list_all ascii ss \<Longrightarrow> \<exists>names. san_list (ie_rcgen E) ss = Ret names \<and> length names = length ss"
proof (induction ss)
  case (Cons s ss)
  moreover obtain ia where "ia5_try_from (ie_rcgen E) s = Ok ia"
    using succeeds_ia5 [OF assms] Cons.prems by auto
  ultimately show ?case by auto
qed simp

section \<open>What the templates issue\<close>

text \<open>The parameters of a certificate as a function of its builder and of the random draws.\<close>

definition intermediate_request ::
  "('h, 'd, 'k, 'i) issue_env \<Rightarrow> 'k params \<Rightarrow> nat \<Rightarrow> 'd certificate_params option" where
  "intermediate_request E ps t =
     (case new_intermediate (ie_sha E) (ie_ecdsa E) (ie_rcgen E) (pa_key ps) (ie_random E t) (pa_cn ps) of
        Ret (Inr csr) \<Rightarrow>
          (case as_pem_string (ie_rcgen E) csr of
             Ret pem \<Rightarrow> (case csr_params_from_pem (ie_issuing E) pem of Inr q \<Rightarrow> Some q | Inl _ \<Rightarrow> None)
           | Panic _ \<Rightarrow> None)
      | _ \<Rightarrow> None)"

definition intermediate_params ::
  "('h, 'd, 'k, 'i) issue_env \<Rightarrow> ('k, 'i) intermediate_builder \<Rightarrow> nat \<Rightarrow> 'd certificate_params" where
  "intermediate_params E b t = final_params E (cb_params b)
     (intermediate_tbs (cb_template b) (the (intermediate_request E (cb_params b) t)))"

definition leaf_request ::
  "('h, 'd, 'k, 'i) issue_env \<Rightarrow> 'k params \<Rightarrow> string \<Rightarrow> nat \<Rightarrow> 'd certificate_params option" where
  "leaf_request E ps name t =
     (case new_leaf (ie_sha E) (ie_ecdsa E) (ie_rcgen E) (pa_key ps) (ie_random E t) (pa_cn ps) name of
        Ret (Inr csr) \<Rightarrow>
          (case as_pem_string (ie_rcgen E) csr of
             Ret pem \<Rightarrow> (case csr_params_from_pem (ie_issuing E) pem of Inr q \<Rightarrow> Some q | Inl _ \<Rightarrow> None)
           | Panic _ \<Rightarrow> None)
      | _ \<Rightarrow> None)"

definition leaf_params ::
  "('h, 'd, 'k, 'i) issue_env \<Rightarrow> ('k, 'i) leaf_builder \<Rightarrow> nat \<Rightarrow> 'd certificate_params" where
  "leaf_params E b t = final_params E (cb_params b)
     ((the (leaf_request E (cb_params b) (hd (lt_sans (cb_template b))) t))\<lparr>cp_is_ca := ExplicitNoCa,
        cp_subject_alt_names := (case san_list (ie_rcgen E) (lt_sans (cb_template b)) of
          Ret names \<Rightarrow> names | Panic _ \<Rightarrow> [])\<rparr>)"

definition made :: "('h, 'd, 'k, 'i) issue_env \<Rightarrow> bytes \<Rightarrow> bytes \<Rightarrow> 'i identity \<Rightarrow> bool" where
  "made E aki ski idn \<longleftrightarrow> identity_ok E idn \<and> issuer_bytes idn = aki \<and> id_bytes idn = ski"

lemma intermediate_build_issues:
  assumes laws: "issuing_laws E" and ok: "issuing_succeeds E"
    and parent: "identity_ok E (it_parent (cb_template b))" and ps: "params_ok E (cb_params b)"
    and cn: "trim (pa_cn (cb_params b)) \<noteq> []"
  shows "\<exists>idn. intermediate_build E b t = Ret (idn, Suc (Suc t))
    \<and> made E (id_bytes (it_parent (cb_template b))) (ski_of_params E (cb_params b)) idn
    \<and> params_of E idn = intermediate_params E b t"
proof -
  obtain csr pem q where csr: "new_intermediate (ie_sha E) (ie_ecdsa E) (ie_rcgen E) (pa_key (cb_params b))
      (ie_random E t) (pa_cn (cb_params b)) = Ret (Ok csr)"
    "as_pem_string (ie_rcgen E) csr = Ret pem" "csr_params_from_pem (ie_issuing E) pem = Ok q"
    "in_range E (cp_not_before q)" "in_range E (cp_not_after q)"
    using intermediate_request_accepted [OF ok cn] by blast
  let ?tbs = "intermediate_tbs (cb_template b) q"
  have tbs: "in_range E (cp_not_before ?tbs)" "in_range E (cp_not_after ?tbs)" "cp_is_ca ?tbs \<noteq> NoCa"
    using csr(4,5) by (simp_all add: intermediate_tbs_def Let_def split: option.splits)
  have "intermediate_build E b t = params_sign E (cb_params b) ?tbs (it_parent (cb_template b)) (Suc t)"
    "intermediate_request E (cb_params b) t = Some q"
    using csr(1-3) by (simp_all add: intermediate_build_def intermediate_template_build_def intermediate_request_def)
  then show ?thesis
    using params_sign_issues [OF laws ok parent ps tbs]
    by (fastforce simp: issues_def made_def intermediate_params_def)
qed

lemma leaf_build_issues:
  assumes laws: "issuing_laws E" and ok: "issuing_succeeds E"
    and parent: "identity_ok E (lt_parent (cb_template b))" and ps: "params_ok E (cb_params b)"
    and cn: "trim (pa_cn (cb_params b)) \<noteq> []"
    and sans: "lt_sans (cb_template b) \<noteq> []" "list_all ascii (lt_sans (cb_template b))"
      "trim (hd (lt_sans (cb_template b))) \<noteq> []"
  shows "\<exists>idn. leaf_build E b t = Ret (idn, Suc (Suc t))
    \<and> made E (id_bytes (lt_parent (cb_template b))) (ski_of_params E (cb_params b)) idn
    \<and> params_of E idn = leaf_params E b t"
proof -
  have "ascii (hd (lt_sans (cb_template b)))" using sans(1,2) by (cases "lt_sans (cb_template b)") auto
  then obtain csr pem q where csr: "new_leaf (ie_sha E) (ie_ecdsa E) (ie_rcgen E) (pa_key (cb_params b))
      (ie_random E t) (pa_cn (cb_params b)) (hd (lt_sans (cb_template b))) = Ret (Ok csr)"
    "as_pem_string (ie_rcgen E) csr = Ret pem" "csr_params_from_pem (ie_issuing E) pem = Ok q"
    "in_range E (cp_not_before q)" "in_range E (cp_not_after q)"
    using leaf_request_accepted [OF ok cn sans(3)] by blast
  obtain names where names: "san_list (ie_rcgen E) (lt_sans (cb_template b)) = Ret names"
    using san_list_returns [OF ok sans(2)] by blast
  define tbs where "tbs = q\<lparr>cp_is_ca := ExplicitNoCa, cp_subject_alt_names := names\<rparr>"
  have tbs: "in_range E (cp_not_before tbs)" "in_range E (cp_not_after tbs)" "cp_is_ca tbs \<noteq> NoCa"
    using csr(4,5) by (simp_all add: tbs_def)
  have "leaf_build E b t = params_sign E (cb_params b) tbs (lt_parent (cb_template b)) (Suc t)"
    "leaf_request E (cb_params b) (hd (lt_sans (cb_template b))) t = Some q"
    using csr(1-3) sans(1) names by (simp_all add: leaf_build_def leaf_template_build_def tbs_def leaf_request_def)
  then show ?thesis
    using params_sign_issues [OF laws ok parent ps tbs] names
    by (fastforce simp: issues_def made_def leaf_params_def tbs_def)
qed

text \<open>A self-signed certificate is its own issuer.\<close>

lemma root_build_issues:
  assumes laws: "issuing_laws E" and ok: "issuing_succeeds E"
    and ps: "params_ok E (cb_params b)" and cn: "ascii (pa_cn (cb_params b))"
  shows "\<exists>idn. root_build E b t = Ret (idn, Suc t)
    \<and> made E (ski_of_params E (cb_params b)) (ski_of_params E (cb_params b)) idn"
proof -
  obtain q where q: "params_new (ie_rcgen E) [pa_cn (cb_params b)] = Ok q"
    "in_range E (cp_not_before q)" "in_range E (cp_not_after q)"
    using succeeds_params_new [OF ok, of "[pa_cn (cb_params b)]"] cn by auto
  let ?ski = "ski_of_params E (cb_params b)"
  define p where "p = q\<lparr>cp_serial_number := Some test_serial_number, cp_is_ca := Ca Unconstrained,
    cp_use_authority_key_identifier_extension := True, cp_key_identifier_method := PreSpecified ?ski\<rparr>"
  have "is_ok (self_signed (ie_issuing E) p (pa_key (cb_params b)) (ie_random E t))"
    using ok unfolding issuing_succeeds_def by blast
  then obtain i where i: "self_signed (ie_issuing E) p (pa_key (cb_params b)) (ie_random E t) = Ok i"
    by (cases "self_signed (ie_issuing E) p (pa_key (cb_params b)) (ie_random E t)") auto
  then have e: "issuer_params (ie_issuing E) i = p" "encodes E p p (issuer_der (ie_issuing E) i)"
    "pem_iter_from_buffer (ie_x509 E) (issuer_pem (ie_issuing E) i) = [Ok (issuer_der (ie_issuing E) i)]"
    using laws by (auto simp: issuing_laws_def)
  obtain c where c: "from_der (ie_sha E) (ie_jiff E) (ie_x509 E) (issuer_der (ie_issuing E) i) = Ret (Ok c)"
    "cert_id_as_bytes (cert_cert_id c) = ?ski" "issuer_cert_id_as_bytes (cert_issuer_cert_id c) = ?ski"
    using encodes_from_der [OF ok e(2), of ?ski ?ski] ps q(2,3) by (auto simp: p_def params_ok_def)
  have "from_pem (ie_sha E) (ie_jiff E) (ie_x509 E) (issuer_pem (ie_issuing E) i) = Ret (Ok c)"
    using c(1) e(3) by (simp add: from_pem_Ok_iff)
  then have "root_build E b t = Ret (identity_new c i, Suc t)"
    unfolding root_build_def self_signed_build_def ski_run [OF ok] q(1) using i by (simp add: p_def Let_def)
  moreover have "identity_ok E (identity_new c i)"
    using c(2) e(1) ps by (simp add: identity_ok_def identity_new_def params_ok_def) (simp add: p_def)
  ultimately show ?thesis using c(2,3) by (auto simp: made_def identity_new_def)
qed

section \<open>Issued identities\<close>

lemma root_with_id_made:
  assumes "issuing_laws E" "issuing_succeeds E" "length ski \<in> {16..64}" "ascii cn"
  shows "\<exists>idn. root_with_id E cn ski t = Ret (idn, t + 2) \<and> made E ski ski idn"
  using root_build_issues [OF assms(1,2), of
      "\<lparr>cb_params = (fresh_params E t cn)\<lparr>pa_cert_id := Some ski\<rparr>, cb_template = ()\<rparr>" "Suc t"] assms(4)
  by (auto simp: root_with_id_def new_root_def set_cert_id_def cert_builder_new_returns [OF assms(2)]
      params_ok_set_cert_id [OF assms(3)])

lemma test_ca_root_made:
  assumes "issuing_laws E" "issuing_succeeds E"
  shows "\<exists>idn. test_ca_root E t = Ret (idn, t + 2) \<and> made E (draw_ski E t) (draw_ski E t) idn"
  using root_build_issues [OF assms, of "\<lparr>cb_params = fresh_params E t ''Banana Test CA'', cb_template = ()\<rparr>" "Suc t"]
    fresh_params_ok [OF assms(2)]
  by (auto simp: test_ca_root_def new_root_def cert_builder_new_returns [OF assms(2)] ascii_def)

lemma intermediate_with_id_made:
  assumes "issuing_laws E" "issuing_succeeds E" "identity_ok E parent" "length ski \<in> {16..64}" "trim cn \<noteq> []"
  shows "\<exists>idn. intermediate_with_id E cn parent ski t = Ret (idn, t + 3) \<and> made E (id_bytes parent) ski idn"
  using intermediate_build_issues [OF assms(1,2), of "\<lparr>cb_params = (fresh_params E t cn)\<lparr>pa_cert_id := Some ski\<rparr>,
      cb_template = \<lparr>it_parent = parent, it_allowed_domains = [], it_path_len = None\<rparr>\<rparr>" "Suc t"] assms(3,5)
  by (auto simp: intermediate_with_id_def builder_new_intermediate_def set_cert_id_def eval_nat_numeral
      cert_builder_new_returns [OF assms(2)] params_ok_set_cert_id [OF assms(4)])

lemma leaf_under_made:
  assumes "issuing_laws E" "issuing_succeeds E" "identity_ok E parent" "trim cn \<noteq> []"
  shows "\<exists>idn. leaf_under E cn parent t = Ret (idn, t + 3) \<and> made E (id_bytes parent) (draw_ski E t) idn"
  using leaf_build_issues [OF assms(1,2), of "\<lparr>cb_params = fresh_params E t cn,
      cb_template = \<lparr>lt_parent = parent, lt_sans = [''leaf.itsallbroken.com'']\<rparr>\<rparr>" "Suc t"] assms(3,4)
    fresh_params_ok [OF assms(2)]
  by (auto simp: leaf_under_def builder_new_leaf_def san_def with_sans_def eval_nat_numeral
      cert_builder_new_returns [OF assms(2)] trim_empty_iff is_whitespace_def ascii_def)

section \<open>Chains of issued identities\<close>

text \<open>
  A mutator is tame if it leaves the issuer, the key, the name and the identifier of every builder
  alone and keeps the values within what can be issued.
\<close>

definition same_subject :: "'k params \<Rightarrow> 'k params \<Rightarrow> bool" where
  "same_subject p p' \<longleftrightarrow> pa_key p' = pa_key p \<and> pa_cn p' = pa_cn p \<and> pa_cert_id p' = pa_cert_id p"

definition sans_ok :: "string list \<Rightarrow> bool" where
  "sans_ok ss \<longleftrightarrow> ss \<noteq> [] \<and> list_all ascii ss \<and> trim (hd ss) \<noteq> []"

definition tame :: "('h, 'd, 'k, 'i) issue_env \<Rightarrow> ('k, 'i) chain_mutator \<Rightarrow> bool" where
  "tame E m \<longleftrightarrow>
     (\<forall>b i n. n \<noteq> 0 \<longrightarrow> (\<exists>b'. cm_intermediate m b i n = Ret b'
        \<and> it_parent (cb_template b') = it_parent (cb_template b)
        \<and> same_subject (cb_params b) (cb_params b') \<and> (params_ok E (cb_params b) \<longrightarrow> params_ok E (cb_params b'))))
     \<and> (\<forall>b. lt_parent (cb_template (cm_leaf m b)) = lt_parent (cb_template b)
        \<and> same_subject (cb_params b) (cb_params (cm_leaf m b))
        \<and> (params_ok E (cb_params b) \<longrightarrow> params_ok E (cb_params (cm_leaf m b)))
        \<and> (sans_ok (lt_sans (cb_template b)) \<longrightarrow> sans_ok (lt_sans (cb_template (cm_leaf m b)))))"

lemma tame_leaf:
  assumes "tame E m"
  shows "lt_parent (cb_template (cm_leaf m b)) = lt_parent (cb_template b)"
    "same_subject (cb_params b) (cb_params (cm_leaf m b))"
    "params_ok E (cb_params b) \<Longrightarrow> params_ok E (cb_params (cm_leaf m b))"
    "sans_ok (lt_sans (cb_template b)) \<Longrightarrow> sans_ok (lt_sans (cb_template (cm_leaf m b)))"
  using assms by (simp_all add: tame_def)

definition base_builder :: "('h, 'd, 'k, 'i) issue_env \<Rightarrow> 'i identity \<Rightarrow> byte \<Rightarrow> nat \<Rightarrow> ('k, 'i) intermediate_builder" where
  "base_builder E parent i t = \<lparr>cb_params = fresh_params E t (''Intermediate '' @ decimal (unat i)),
     cb_template = \<lparr>it_parent = parent, it_allowed_domains = [''itsallbroken.com''], it_path_len = None\<rparr>\<rparr>"

definition base_leaf_builder :: "('h, 'd, 'k, 'i) issue_env \<Rightarrow> 'i identity \<Rightarrow> nat \<Rightarrow> ('k, 'i) leaf_builder" where
  "base_leaf_builder E parent t = \<lparr>cb_params = fresh_params E t ''A Leaf Certificate'',
     cb_template = \<lparr>lt_parent = parent, lt_sans = [''leaf.itsallbroken.com'']\<rparr>\<rparr>"

text \<open>
  A run of the issuing loop: each certificate names its predecessor, has the identifier of its own
  key, and carries the parameters of its builder after the mutator has seen it.
\<close>

fun issued_run ::
  "('h, 'd, 'k, 'i) issue_env \<Rightarrow> ('k, 'i) chain_mutator \<Rightarrow> byte \<Rightarrow> bytes \<Rightarrow> nat \<Rightarrow> byte list \<Rightarrow> 'i identity list \<Rightarrow> bool" where
  "issued_run E m n aki t [] xs \<longleftrightarrow> xs = []"
| "issued_run E m n aki t (i # is) xs \<longleftrightarrow>
     (\<exists>y ys p b. xs = y # ys \<and> made E aki (draw_ski E t) y
        \<and> cm_intermediate m (base_builder E p i t) (i - 1) n = Ret b
        \<and> params_of E y = intermediate_params E b (Suc t) \<and> issued_run E m n (draw_ski E t) (t + 3) is ys)"

lemma same_subject_ski: "same_subject p p' \<Longrightarrow> ski_of_params E p' = ski_of_params E p"
  by (auto simp: same_subject_def ski_of_params_def split: option.splits)

lemma base_name_not_blank: "trim (''Intermediate '' @ s) \<noteq> []"
  by (simp add: trim_empty_iff is_whitespace_def)

lemma issue_intermediates_run:
  assumes laws: "issuing_laws E" and ok: "issuing_succeeds E" and m: "tame E m" and n: "n \<noteq> 0"
    and root: "identity_ok E root"
  shows "\<forall>x \<in> set ints. identity_ok E x \<Longrightarrow>
    \<exists>new. issue_intermediates E m n root is ints t = Ret (ints @ new, t + 3 * length is)
      \<and> issued_run E m n (id_bytes (last_or root ints)) t is new \<and> (\<forall>x \<in> set new. identity_ok E x)"
proof (induction "is" arbitrary: ints t)
  case (Cons i "is")
  let ?p = "last_or root ints"
  have parent: "identity_ok E ?p" using Cons.prems root by (simp add: last_or_def)
  let ?b = "base_builder E ?p i t"
  obtain b where b: "cm_intermediate m ?b (i - 1) n = Ret b" "it_parent (cb_template b) = ?p"
    "same_subject (cb_params ?b) (cb_params b)" "params_ok E (cb_params b)"
    using m n fresh_params_ok [OF ok] unfolding tame_def by (fastforce simp: base_builder_def)
  have "trim (pa_cn (cb_params b)) \<noteq> []"
    using b(3) base_name_not_blank by (simp add: same_subject_def base_builder_def)
  moreover have "ski_of_params E (cb_params b) = draw_ski E t"
    using same_subject_ski [OF b(3), of E] by (simp add: base_builder_def)
  ultimately obtain y where y: "intermediate_build E b (Suc t) = Ret (y, t + 3)"
    "made E (id_bytes ?p) (draw_ski E t) y" "params_of E y = intermediate_params E b (Suc t)"
    using intermediate_build_issues [OF laws ok, of b "Suc t"] b(2,4) parent by (auto simp: eval_nat_numeral)
  have "identity_ok E y" "id_bytes y = draw_ski E t" using y(2) by (simp_all add: made_def)
  then obtain new where new: "issue_intermediates E m n root is (ints @ [y]) (t + 3) =
      Ret ((ints @ [y]) @ new, t + 3 + 3 * length is)"
    "issued_run E m n (draw_ski E t) (t + 3) is new" "\<forall>x \<in> set new. identity_ok E x"
    using Cons.IH [of "ints @ [y]" "t + 3"] Cons.prems by (auto simp: last_or_def)
  have "builder_new_intermediate E (''Intermediate '' @ decimal (unat i)) ?p t =
      Ret (\<lparr>cb_params = fresh_params E t (''Intermediate '' @ decimal (unat i)), cb_template =
        \<lparr>it_parent = ?p, it_allowed_domains = [], it_path_len = None\<rparr>\<rparr>, Suc t)"
    by (simp add: builder_new_intermediate_def cert_builder_new_returns [OF ok])
  then have "issue_intermediates E m n root (i # is) ints t = Ret (ints @ y # new, t + 3 * length (i # is))"
    using b(1) y(1) new(1) by (simp add: allowed_domain_def base_builder_def)
  moreover have "issued_run E m n (id_bytes ?p) t (i # is) (y # new)"
    using y(2,3) b(1) new(2) by auto
  ultimately show ?case using new(3) \<open>identity_ok E y\<close> by (intro exI [of _ "y # new"]) simp
qed (simp add: last_or_def)

definition u8_indices :: "byte \<Rightarrow> byte list" where
  "u8_indices n = map of_nat [1..<Suc (unat n)]"

lemma u8_indices_length [simp]: "length (u8_indices n) = unat n"
  by (simp add: u8_indices_def)

lemma u8_range_ok:
  assumes "n \<noteq> 255"
  shows "u8_range debug n = Ret (u8_indices n)"
proof -
  have "n + 1 \<noteq> 0"
  proof
    assume "n + 1 = 0"
    then have "n = - 1" by (simp add: eq_neg_iff_add_eq_0)
    then show False using assms by simp
  qed
  then have "unat (n + 1) = Suc (unat n)" by (metis add.commute unatSuc)
  then show ?thesis using assms by (simp add: u8_range_def u8_indices_def)
qed

definition issued_chain ::
  "('h, 'd, 'k, 'i) issue_env \<Rightarrow> ('k, 'i) chain_mutator \<Rightarrow> byte \<Rightarrow> nat \<Rightarrow> 'i test_chain \<Rightarrow> bool" where
  "issued_chain E m n t chain \<longleftrightarrow>
     identity_ok E (tc_root chain) \<and> (\<forall>x \<in> set (tc_intermediates chain). identity_ok E x)
     \<and> length (tc_intermediates chain) = unat n
     \<and> issued_run E m n (id_bytes (tc_root chain)) t (u8_indices n) (tc_intermediates chain)
     \<and> made E (id_bytes (last_or (tc_root chain) (tc_intermediates chain))) (draw_ski E (t + 3 * unat n)) (tc_leaf chain)
     \<and> (\<exists>p. params_of E (tc_leaf chain) =
          leaf_params E (cm_leaf m (base_leaf_builder E p (t + 3 * unat n))) (Suc (t + 3 * unat n)))"

lemma issued_run_length: "issued_run E m n aki t is xs \<Longrightarrow> length xs = length is"
  by (induction E m n aki t "is" xs rule: issued_run.induct) auto

text \<open>Up to its completion, every chain with a tame mutator is issued, for up to 254 intermediates.\<close>

lemma test_chain_build_issued:
  assumes laws: "issuing_laws E" and ok: "issuing_succeeds E" and m: "tame E m" and n: "n \<noteq> 255"
    and root: "identity_ok E root"
  shows "\<exists>chain. test_chain_build E root n m t = cm_complete m chain (t + 3 * unat n + 3)
    \<and> tc_root chain = root \<and> issued_chain E m n t chain"
proof -
  let ?is = "u8_indices n"
  have "\<exists>ints. issue_intermediates E m n root ?is [] t = Ret (ints, t + 3 * unat n)
      \<and> issued_run E m n (id_bytes root) t ?is ints \<and> (\<forall>x \<in> set ints. identity_ok E x)"
  proof (cases "n = 0")
    case False
    then show ?thesis
      using issue_intermediates_run [OF laws ok m False root, of "[]" ?is t] by (simp add: last_or_def)
  qed (simp add: u8_indices_def)
  then obtain ints where ints: "issue_intermediates E m n root ?is [] t = Ret (ints, t + 3 * unat n)"
    "issued_run E m n (id_bytes root) t ?is ints" "\<forall>x \<in> set ints. identity_ok E x" by blast
  let ?p = "last_or root ints" and ?t = "t + 3 * unat n"
  have parent: "identity_ok E ?p" using ints(3) root by (simp add: last_or_def)
  define b where "b = cm_leaf m (base_leaf_builder E ?p ?t)"
  have "sans_ok [''leaf.itsallbroken.com'']"
    by (simp add: sans_ok_def ascii_def trim_empty_iff is_whitespace_def)
  then have b: "lt_parent (cb_template b) = ?p" "same_subject (cb_params (base_leaf_builder E ?p ?t)) (cb_params b)"
    "params_ok E (cb_params b)" "sans_ok (lt_sans (cb_template b))"
    using tame_leaf [OF m, of "base_leaf_builder E ?p ?t"] fresh_params_ok [OF ok]
    by (simp_all add: b_def base_leaf_builder_def)
  moreover have "trim (pa_cn (cb_params b)) \<noteq> []" "ski_of_params E (cb_params b) = draw_ski E ?t"
    using b(2) same_subject_ski [OF b(2), of E]
    by (simp_all add: same_subject_def base_leaf_builder_def trim_empty_iff is_whitespace_def)
  ultimately obtain leaf where leaf: "leaf_build E b (Suc ?t) = Ret (leaf, ?t + 3)"
    "made E (id_bytes ?p) (draw_ski E ?t) leaf" "params_of E leaf = leaf_params E b (Suc ?t)"
    using leaf_build_issues [OF laws ok, of b "Suc ?t"] parent by (auto simp: sans_ok_def eval_nat_numeral)
  let ?chain = "\<lparr>tc_root = root, tc_intermediates = ints, tc_leaf = leaf\<rparr>"
  have "test_chain_build E root n m t = cm_complete m ?chain (?t + 3)"
    using u8_range_ok [OF n] ints(1) leaf(1)
    by (simp add: test_chain_build_def builder_new_leaf_def cert_builder_new_returns [OF ok]
        san_def with_sans_def b_def base_leaf_builder_def)
  moreover have "issued_chain E m n t ?chain"
    using root ints leaf issued_run_length [OF ints(2)] by (auto simp: issued_chain_def b_def)
  ultimately show ?thesis by (intro exI [of _ ?chain]) simp
qed

end
