(* ===== verification/Test_Chains.thy ===== *)
theory Test_Chains
  imports Test_Issuer
begin

text \<open>
  What the generated chains of \<open>rc-x509-trust/src/test_issuer\<close> are, and how the chain walk treats
  them. The walk is proved once against the interface of a cache that answers from a fixed map (the locale
  \<open>answering_cache\<close>): a linked run of cached certificates is walked to its root, to a gap, or to
  the limit. The mutators are shown to leave the links of a chain alone and to plant their defect in
  one certificate; the identifiers of issued certificates differ as far as the drawn keys do.
\<close>

section \<open>Linked certificates\<close>

abbreviation own_id :: "certificate \<Rightarrow> bytes" where
  "own_id c \<equiv> cert_id_as_bytes (cert_cert_id c)"

abbreviation issuer_id :: "certificate \<Rightarrow> bytes" where
  "issuer_id c \<equiv> issuer_cert_id_as_bytes (cert_issuer_cert_id c)"

text \<open>From the root down, each certificate names the identifier of its predecessor.\<close>

fun linked :: "bytes \<Rightarrow> certificate list \<Rightarrow> bool" where
  "linked aki [] \<longleftrightarrow> True"
| "linked aki (c # cs) \<longleftrightarrow> issuer_id c = aki \<and> linked (own_id c) cs"

definition last_id :: "bytes \<Rightarrow> certificate list \<Rightarrow> bytes" where
  "last_id aki cs = (if cs = [] then aki else own_id (last cs))"

lemma last_id_simps [simp]: "last_id aki [] = aki" "last_id aki (cs @ [c]) = own_id c"
  by (simp_all add: last_id_def)

lemma linked_append:
  "linked aki (cs @ ds) \<longleftrightarrow> linked aki cs \<and> linked (last_id aki cs) ds"
  by (induction cs arbitrary: aki) (auto simp: last_id_def)

definition root_for :: "root_set \<Rightarrow> bytes \<Rightarrow> root_certificate option" where
  "root_for rs b = List.find (\<lambda>r. own_id (root_deref r) = b) (roots rs)"

lemma root_set_find_for:
  "root_set_find rs (issuer_as_dangerous_comparable i) = root_for rs (issuer_cert_id_as_bytes i)"
  by (simp add: root_set_find_eq root_for_def same_id_def eq_commute)

section \<open>A cache that answers from a map\<close>

locale answering_cache =
  fixes C :: "'c cert_cache" and I :: "'c \<Rightarrow> bool" and L :: "bytes \<Rightarrow> untrusted_cert option"
  assumes get_answers: "I c \<Longrightarrow> \<exists>c'. cc_get C i c = Ret (L (cert_id_as_bytes i), c') \<and> I c'"
begin

lemma build_loop_step:
  assumes "I c" and "root_for rs (issuer_cert_id_as_bytes i) = None" and "length chain < 6"
  shows "\<exists>c'. I c' \<and> build_loop rs C i chain c =
    (case L (issuer_cert_id_as_bytes i) of
       None \<Rightarrow> Ret (Err (MissingIntermediate i), c')
     | Some v \<Rightarrow> build_loop rs C (untrusted_issuer_cert_id v) (chain @ [v]) c')"
proof -
  obtain c' where "cc_get C (as_cert_id i) c = Ret (L (issuer_cert_id_as_bytes i), c')" "I c'"
    using get_answers [OF assms(1), of "as_cert_id i"] by (auto simp: issuer_cert_id_as_bytes_def)
  then show ?thesis
    using assms(2,3) by (auto simp: build_loop_next root_set_find_for)
qed

text \<open>Cached certificates linked to a root are found, up to the limit.\<close>

lemma build_loop_linked:
  assumes "linked rid cs" and "\<forall>x \<in> set cs. L (own_id x) = Some (UntrustedCert x) \<and> root_for rs (own_id x) = None"
    and "root_for rs rid = Some r"
  shows "I c \<Longrightarrow> issuer_cert_id_as_bytes i = last_id rid cs \<Longrightarrow> length chain + length cs \<le> 6 \<Longrightarrow>
    \<exists>c'. I c' \<and> build_loop rs C i chain c = Ret (Ok (UntrustedChain r (chain @ map UntrustedCert (rev cs))), c')"
  using assms
proof (induction cs arbitrary: i chain c rule: rev_induct)
  case Nil
  then show ?case by (auto simp: build_loop_root root_set_find_for)
next
  case (snoc x cs)
  obtain c1 where "I c1" "build_loop rs C i chain c =
      build_loop rs C (cert_issuer_cert_id x) (chain @ [UntrustedCert x]) c1"
    using build_loop_step [OF snoc.prems(1), of rs i chain] snoc.prems
    by (auto simp: untrusted_issuer_cert_id_def)
  then show ?case
    using snoc.IH [of c1 "cert_issuer_cert_id x" "chain @ [UntrustedCert x]"] snoc.prems
    by (auto simp: linked_append)
qed

text \<open>If the certificates below a gap are cached, the walk ends at the gap.\<close>

lemma build_loop_gap:
  assumes "linked rid cs" and "\<forall>x \<in> set cs. L (own_id x) = Some (UntrustedCert x) \<and> root_for rs (own_id x) = None"
    and "root_for rs rid = None" and "L rid = None"
  shows "I c \<Longrightarrow> issuer_cert_id_as_bytes i = last_id rid cs \<Longrightarrow> length chain + length cs < 6 \<Longrightarrow>
    \<exists>c' j. I c' \<and> issuer_cert_id_as_bytes j = rid
      \<and> build_loop rs C i chain c = Ret (Err (MissingIntermediate j), c')"
  using assms
proof (induction cs arbitrary: i chain c rule: rev_induct)
  case Nil
  then show ?case using build_loop_step [OF Nil.prems(1), of rs i chain] by fastforce
next
  case (snoc x cs)
  obtain c1 where "I c1" "build_loop rs C i chain c =
      build_loop rs C (cert_issuer_cert_id x) (chain @ [UntrustedCert x]) c1"
    using build_loop_step [OF snoc.prems(1), of rs i chain] snoc.prems
    by (auto simp: untrusted_issuer_cert_id_def)
  then show ?case
    using snoc.IH [of c1 "cert_issuer_cert_id x" "chain @ [UntrustedCert x]"] snoc.prems
    by (auto simp: linked_append)
qed

text \<open>A linked run of more cached certificates than the limit admits is abandoned.\<close>

lemma build_loop_excess:
  assumes "linked rid cs" and "\<forall>x \<in> set cs. L (own_id x) = Some (UntrustedCert x) \<and> root_for rs (own_id x) = None"
  shows "I c \<Longrightarrow> issuer_cert_id_as_bytes i = last_id rid cs \<Longrightarrow> length chain \<le> 6 \<Longrightarrow> 6 < length chain + length cs \<Longrightarrow>
    \<exists>c'. I c' \<and> build_loop rs C i chain c = Ret (Err ExcessivelyLongChain, c')"
  using assms
proof (induction cs arbitrary: i chain c rule: rev_induct)
  case (snoc x cs)
  show ?case
  proof (cases "length chain = 6")
    case True
    then show ?thesis using snoc.prems by (auto simp: build_loop_long root_set_find_for)
  next
    case False
    then have "length chain < 6" using snoc.prems(3) by simp
    then obtain c1 where "I c1" "build_loop rs C i chain c =
        build_loop rs C (cert_issuer_cert_id x) (chain @ [UntrustedCert x]) c1"
      using build_loop_step [OF snoc.prems(1), of rs i chain] snoc.prems
      by (auto simp: untrusted_issuer_cert_id_def)
    then show ?thesis
      using snoc.IH [of c1 "cert_issuer_cert_id x" "chain @ [UntrustedCert x]"] snoc.prems False
      by (auto simp: linked_append)
  qed
qed simp

text \<open>Within a set of identifiers that are no root's and whose issuers are in the set, the walk hits the limit.\<close>

lemma build_loop_endless:
  assumes closed: "\<And>b. b \<in> B \<Longrightarrow> root_for rs b = None \<and> (\<exists>v. L b = Some v \<and> issuer_cert_id_as_bytes (untrusted_issuer_cert_id v) \<in> B)"
  shows "I c \<Longrightarrow> issuer_cert_id_as_bytes i \<in> B \<Longrightarrow> length chain \<le> 6 \<Longrightarrow>
    \<exists>c'. I c' \<and> build_loop rs C i chain c = Ret (Err ExcessivelyLongChain, c')"
proof (induction "6 - length chain" arbitrary: i chain c)
  case 0
  then show ?case using closed [OF 0(3)] by (auto simp: build_loop_long root_set_find_for)
next
  case (Suc n)
  obtain v where v: "L (issuer_cert_id_as_bytes i) = Some v" "issuer_cert_id_as_bytes (untrusted_issuer_cert_id v) \<in> B"
    "root_for rs (issuer_cert_id_as_bytes i) = None"
    using closed [OF Suc.prems(2)] by blast
  have "length chain < 6" using Suc.hyps(2) by simp
  then obtain c1 where "I c1" "build_loop rs C i chain c =
      build_loop rs C (untrusted_issuer_cert_id v) (chain @ [v]) c1"
    using build_loop_step [OF Suc.prems(1) v(3), of chain] v(1) by auto
  then show ?case using Suc.hyps(1) [of "chain @ [v]" c1 "untrusted_issuer_cert_id v"] Suc.hyps(2) v(2) by auto
qed

end

interpretation quiescent_answers: answering_cache C "\<lambda>c. quiescent C c L" L for C L
  by unfold_locales (auto simp: quiescent_def)

text \<open>
  The in-memory cache, as long as it is within its capacity: the documented behaviour is then that
  nothing inserted is lost.
\<close>

definition moka_keeps :: "'m moka_lib \<Rightarrow> ('m \<Rightarrow> bytes \<Rightarrow> untrusted_cert option) \<Rightarrow> bool" where
  "moka_keeps M ct \<longleftrightarrow>
     (\<forall>n. ct (mk_new M n) = Map.empty)
     \<and> (\<forall>k v w m. ct (mk_insert M k v w m) = (ct m)(k \<mapsto> v))
     \<and> (\<forall>k m r m'. mk_get M k m = (r, m') \<longrightarrow> ct m' = ct m \<and> r = ct m k)"

definition own_keys :: "(bytes \<Rightarrow> untrusted_cert option) \<Rightarrow> bool" where
  "own_keys L \<longleftrightarrow> (\<forall>k v. L k = Some v \<longrightarrow> cert_id_as_bytes (untrusted_cert_id v) = k)"

definition keeps :: "'m moka_lib \<Rightarrow> (bytes \<Rightarrow> untrusted_cert option) \<Rightarrow> 'm \<Rightarrow> bool" where
  "keeps M L m \<longleftrightarrow> own_keys L \<and> (\<exists>ct. moka_keeps M ct \<and> ct m = L)"

lemma keeps_get:
  assumes "keeps M L m"
  shows "\<exists>m'. memory_cache_get M i m = Ret (L (cert_id_as_bytes i), m') \<and> keeps M L m'"
proof -
  obtain ct where ct: "moka_keeps M ct" "ct m = L" "own_keys L" using assms by (auto simp: keeps_def)
  obtain r m' where g: "mk_get M (cert_id_as_bytes i) m = (r, m')" by fastforce
  then have "ct m' = L" "r = L (cert_id_as_bytes i)" using ct(1,2) by (auto simp: moka_keeps_def)
  then show ?thesis
    using ct g by (auto simp: memory_cache_get_eq keeps_def own_keys_def split: option.splits)
qed

interpretation memory_answers: answering_cache "memory_cert_cache debug M" "keeps M L" L for debug M L
  by unfold_locales (use keeps_get in \<open>auto simp: memory_cert_cache_def\<close>)

section \<open>The mutators are tame\<close>

definition gentle :: "('h, 'd, 'k, 'i) issue_env \<Rightarrow> (('k, 'i) intermediate_builder \<Rightarrow> ('k, 'i) intermediate_builder) \<Rightarrow> bool" where
  "gentle E f \<longleftrightarrow> (\<forall>b. it_parent (cb_template (f b)) = it_parent (cb_template b)
     \<and> same_subject (cb_params b) (cb_params (f b)) \<and> (params_ok E (cb_params b) \<longrightarrow> params_ok E (cb_params (f b))))"

definition gentle_leaf :: "('h, 'd, 'k, 'i) issue_env \<Rightarrow> (('k, 'i) leaf_builder \<Rightarrow> ('k, 'i) leaf_builder) \<Rightarrow> bool" where
  "gentle_leaf E f \<longleftrightarrow> (\<forall>b. lt_parent (cb_template (f b)) = lt_parent (cb_template b)
     \<and> same_subject (cb_params b) (cb_params (f b)) \<and> (params_ok E (cb_params b) \<longrightarrow> params_ok E (cb_params (f b)))
     \<and> (sans_ok (lt_sans (cb_template b)) \<longrightarrow> sans_ok (lt_sans (cb_template (f b)))))"

lemma params_ok_updates:
  "params_ok E ps \<Longrightarrow> in_range E v \<Longrightarrow> params_ok E (ps\<lparr>pa_not_before := Some v\<rparr>)"
  "params_ok E ps \<Longrightarrow> in_range E v \<Longrightarrow> params_ok E (ps\<lparr>pa_not_after := Some v\<rparr>)"
  "params_ok E ps \<Longrightarrow> c \<noteq> NoCa \<Longrightarrow> params_ok E (ps\<lparr>pa_is_ca := Some c\<rparr>)"
  "params_ok E ps \<Longrightarrow> params_ok E (ps\<lparr>pa_custom_extensions := x\<rparr>)"
  "params_ok E ps \<Longrightarrow> params_ok E (ps\<lparr>pa_extended_key_usages := e\<rparr>)"
  by (auto simp: params_ok_def ski_of_params_def split: option.splits)

lemmas setter_defs = set_not_before_def set_not_after_def set_is_ca_def add_custom_extension_def
  set_extended_key_usages_def set_allowed_domains_def set_path_len_def with_sans_def

lemma gentle_setters:
  "in_range E v \<Longrightarrow> gentle E (set_not_before v)" "in_range E v \<Longrightarrow> gentle E (set_not_after v)"
  "c \<noteq> NoCa \<Longrightarrow> gentle E (set_is_ca c)" "gentle E (add_custom_extension x)"
  "gentle E (set_extended_key_usages e)" "gentle E (set_allowed_domains ds)" "gentle E (set_path_len k)"
  "gentle E (\<lambda>b. b)"
  by (auto simp: gentle_def setter_defs same_subject_def intro: params_ok_updates)

lemma gentle_leaf_setters:
  "in_range E v \<Longrightarrow> gentle_leaf E (set_not_before v)" "in_range E v \<Longrightarrow> gentle_leaf E (set_not_after v)"
  "c \<noteq> NoCa \<Longrightarrow> gentle_leaf E (set_is_ca c)" "gentle_leaf E (add_custom_extension x)"
  "gentle_leaf E (set_extended_key_usages e)" "sans_ok ss \<Longrightarrow> gentle_leaf E (with_sans ss)"
  "gentle_leaf E (\<lambda>b. b)"
  by (auto simp: gentle_leaf_def setter_defs same_subject_def intro: params_ok_updates)

lemma tame_iff_gentle:
  assumes "\<And>i n. n \<noteq> 0 \<Longrightarrow> \<exists>f. gentle E f \<and> (\<forall>b. cm_intermediate m b i n = Ret (f b))"
    and "gentle_leaf E (cm_leaf m)"
  shows "tame E m"
  unfolding tame_def
proof (intro conjI allI impI)
  fix b i and n :: byte
  assume "n \<noteq> 0"
  then obtain f where "gentle E f" "cm_intermediate m b i n = Ret (f b)" using assms(1) by metis
  then show "\<exists>b'. cm_intermediate m b i n = Ret b' \<and> it_parent (cb_template b') = it_parent (cb_template b)
      \<and> same_subject (cb_params b) (cb_params b') \<and> (params_ok E (cb_params b) \<longrightarrow> params_ok E (cb_params b'))"
    by (simp add: gentle_def)
qed (use assms(2) in \<open>simp_all add: gentle_leaf_def\<close>)

lemma tame_ValidChain: "tame E ValidChain"
  by (rule tame_iff_gentle) (auto simp: ValidChain_def gentle_leaf_setters intro: gentle_setters)

lemma tame_seeded: "gentle E f \<Longrightarrow> tame E (seeded_mutator seed f msg)"
proof (rule tame_iff_gentle)
  fix i n :: byte
  assume "gentle E f" "n \<noteq> 0"
  then show "\<exists>g. gentle E g \<and> (\<forall>b. cm_intermediate (seeded_mutator seed f msg) b i n = Ret (g b))"
    by (intro exI [of _ "if i = seed mod n then f else (\<lambda>b. b)"])
      (simp add: seeded_mutator_def rem_u8_def gentle_setters)
qed (simp add: seeded_mutator_def gentle_leaf_setters)

lemma tame_leaf_mutator: "gentle_leaf E f \<Longrightarrow> tame E (leaf_mutator f)"
  by (rule tame_iff_gentle) (auto simp: leaf_mutator_def ValidChain_def intro: gentle_setters)

lemma tame_uniform:
  assumes "gentle E f" and "gentle_leaf E g" and "\<And>b i n. cm_intermediate m b i n = Ret (f b)" and "cm_leaf m = g"
  shows "tame E m"
  by (rule tame_iff_gentle) (use assms in auto)

lemma succeeds_dates:
  assumes "issuing_succeeds E"
  shows "in_range E (date_time_ymd (ie_issuing E) 2020 1 1)" "in_range E (date_time_ymd (ie_issuing E) 4000 1 1)"
    "in_range E (date_time_ymd (ie_issuing E) 1969 7 20)"
  using assms unfolding issuing_succeeds_def by simp_all

lemma tame_complete: "tame E (m\<lparr>cm_complete := g\<rparr>) \<longleftrightarrow> tame E m"
  by (simp add: tame_def)

lemma sans_ok_mismatched: "sans_ok [MISMATCHED_LEAF_SAN]"
  by (simp add: sans_ok_def MISMATCHED_LEAF_SAN_def ascii_def trim_empty_iff is_whitespace_def)

lemma sans_ok_scenarios: "sans_ok (leaf_sans s)"
  by (cases s) (simp_all add: sans_ok_def LEAF_ENDPOINT_HOSTNAME_def ascii_def trim_empty_iff is_whitespace_def)

lemma tame_PathLenViolation: "tame E PathLenViolation"
  by (rule tame_uniform [where f = "set_path_len 0" and g = "\<lambda>b. b"])
    (simp_all add: PathLenViolation_def gentle_setters gentle_leaf_setters)

lemma tame_MismatchedLeafSan: "tame E MismatchedLeafSan"
  by (rule tame_uniform [where f = "set_allowed_domains []" and g = "with_sans [MISMATCHED_LEAF_SAN]"])
    (simp_all add: MismatchedLeafSan_def gentle_setters gentle_leaf_setters sans_ok_mismatched)

lemma tame_SetNameConstraints: "tame E (SetNameConstraints nc ls)"
  by (rule tame_uniform [where f = "set_allowed_domains (permitted_domains nc)" and g = "with_sans (leaf_sans ls)"])
    (simp_all add: SetNameConstraints_def SetLeafSans_def gentle_setters gentle_leaf_setters sans_ok_scenarios)

lemma tame_SetLeafSans: "tame E (SetLeafSans ls)"
  by (rule tame_uniform [where f = "set_allowed_domains []" and g = "with_sans (leaf_sans ls)"])
    (simp_all add: SetLeafSans_def gentle_setters gentle_leaf_setters sans_ok_scenarios)

lemma tame_SetEKUs: "tame E (SetEKUs cfg)"
  by (cases cfg; rule tame_iff_gentle)
    (auto simp: SetEKUs_def gentle_leaf_setters intro: gentle_setters)

section \<open>What a mutator plants\<close>

text \<open>A modification of builders that changes the issued parameters in one known way.\<close>

definition acts ::
  "('h, 'd, 'k, 'i) issue_env \<Rightarrow> (('k, 'i) intermediate_builder \<Rightarrow> ('k, 'i) intermediate_builder)
     \<Rightarrow> ('d certificate_params \<Rightarrow> 'd certificate_params) \<Rightarrow> bool" where
  "acts E f g \<longleftrightarrow> (\<forall>p i t s. intermediate_params E (f (base_builder E p i t)) s =
     g (intermediate_params E (base_builder E p i t) s))"

definition acts_leaf ::
  "('h, 'd, 'k, 'i) issue_env \<Rightarrow> (('k, 'i) leaf_builder \<Rightarrow> ('k, 'i) leaf_builder)
     \<Rightarrow> ('d certificate_params \<Rightarrow> 'd certificate_params) \<Rightarrow> bool" where
  "acts_leaf E f g \<longleftrightarrow> (\<forall>b s. leaf_params E (f b) s = g (leaf_params E b s))"

lemma ski_setters:
  "ski_of_params E (ps\<lparr>pa_not_before := a\<rparr>) = ski_of_params E ps"
  "ski_of_params E (ps\<lparr>pa_not_after := a\<rparr>) = ski_of_params E ps"
  "ski_of_params E (ps\<lparr>pa_is_ca := b\<rparr>) = ski_of_params E ps"
  "ski_of_params E (ps\<lparr>pa_custom_extensions := c\<rparr>) = ski_of_params E ps"
  by (auto simp: ski_of_params_def split: option.splits)

lemma final_params_not_before:
  "final_params E (ps\<lparr>pa_not_before := Some v\<rparr>) tbs = (final_params E ps tbs)\<lparr>cp_not_before := v\<rparr>"
  by (cases tbs) (simp add: final_params_def ski_setters)

lemma final_params_not_after:
  "final_params E (ps\<lparr>pa_not_after := Some v\<rparr>) tbs = (final_params E ps tbs)\<lparr>cp_not_after := v\<rparr>"
  by (cases tbs) (simp add: final_params_def ski_setters)

lemma final_params_is_ca:
  "final_params E (ps\<lparr>pa_is_ca := Some c\<rparr>) tbs = (final_params E ps tbs)\<lparr>cp_is_ca := c\<rparr>"
  by (cases tbs) (simp add: final_params_def ski_setters)

lemma final_params_custom_extensions:
  "final_params E (ps\<lparr>pa_custom_extensions := pa_custom_extensions ps @ xs\<rparr>) tbs =
     (final_params E ps tbs)\<lparr>cp_custom_extensions := cp_custom_extensions (final_params E ps tbs) @ xs\<rparr>"
  by (cases tbs) (simp add: final_params_def ski_setters)

lemmas final_params_setters = final_params_not_before final_params_not_after final_params_is_ca
  final_params_custom_extensions

lemma request_setters:
  "intermediate_request E (ps\<lparr>pa_not_before := a\<rparr>) t = intermediate_request E ps t"
  "intermediate_request E (ps\<lparr>pa_not_after := a\<rparr>) t = intermediate_request E ps t"
  "intermediate_request E (ps\<lparr>pa_is_ca := b\<rparr>) t = intermediate_request E ps t"
  "intermediate_request E (ps\<lparr>pa_custom_extensions := c\<rparr>) t = intermediate_request E ps t"
  "leaf_request E (ps\<lparr>pa_not_before := a\<rparr>) nm t = leaf_request E ps nm t"
  "leaf_request E (ps\<lparr>pa_not_after := a\<rparr>) nm t = leaf_request E ps nm t"
  "leaf_request E (ps\<lparr>pa_is_ca := b\<rparr>) nm t = leaf_request E ps nm t"
  "leaf_request E (ps\<lparr>pa_custom_extensions := c\<rparr>) nm t = leaf_request E ps nm t"
  by (simp_all add: intermediate_request_def leaf_request_def)

lemma acts_setters:
  "acts E (set_not_before v) (\<lambda>p. p\<lparr>cp_not_before := v\<rparr>)"
  "acts E (set_not_after v) (\<lambda>p. p\<lparr>cp_not_after := v\<rparr>)"
  "acts E (set_is_ca c) (\<lambda>p. p\<lparr>cp_is_ca := c\<rparr>)"
  "acts E (add_custom_extension x) (\<lambda>p. p\<lparr>cp_custom_extensions := cp_custom_extensions p @ [x]\<rparr>)"
  by (simp_all add: acts_def setter_defs intermediate_params_def final_params_setters request_setters)

lemma acts_set_path_len: "acts E (set_path_len k) (\<lambda>p. p\<lparr>cp_is_ca := Ca (Constrained k)\<rparr>)"
  by (simp add: acts_def set_path_len_def intermediate_params_def base_builder_def final_params_def
      fresh_params_def intermediate_tbs_def Let_def)

lemma acts_leaf_setters:
  "acts_leaf E (set_not_before v) (\<lambda>p. p\<lparr>cp_not_before := v\<rparr>)"
  "acts_leaf E (set_not_after v) (\<lambda>p. p\<lparr>cp_not_after := v\<rparr>)"
  "acts_leaf E (set_is_ca c) (\<lambda>p. p\<lparr>cp_is_ca := c\<rparr>)"
  "acts_leaf E (add_custom_extension x) (\<lambda>p. p\<lparr>cp_custom_extensions := cp_custom_extensions p @ [x]\<rparr>)"
  by (simp_all add: acts_leaf_def setter_defs leaf_params_def final_params_setters request_setters)

lemma base_params_parent:
  "intermediate_params E (base_builder E p i t) s = intermediate_params E (base_builder E p' i t) s"
  by (simp add: intermediate_params_def base_builder_def intermediate_tbs_def)

lemma base_leaf_params_parent:
  "leaf_params E (base_leaf_builder E p t) s = leaf_params E (base_leaf_builder E p' t) s"
  by (simp add: leaf_params_def base_leaf_builder_def)

text \<open>A run with a mutator against a run without: the parameters differ exactly where the mutator acts.\<close>

lemma issued_run_acts:
  assumes "\<And>i b. i \<in> set is \<Longrightarrow> cm_intermediate m b (i - 1) n = Ret (if hit i then f b else b)" and "acts E f g"
    and "issued_run E m n aki t is xs" and "issued_run E ValidChain n aki' t is ys"
  shows "map (params_of E) xs = map (\<lambda>(i, y). (if hit i then g else id) (params_of E y)) (zip is ys)"
  using assms(1,3,4)
proof (induction "is" arbitrary: aki aki' t xs ys)
  case (Cons i "is")
  obtain x xs' p b where x: "xs = x # xs'" "cm_intermediate m (base_builder E p i t) (i - 1) n = Ret b"
    "params_of E x = intermediate_params E b (Suc t)" "issued_run E m n (draw_ski E t) (t + 3) is xs'"
    using Cons.prems(2) by auto
  obtain y ys' q where y: "ys = y # ys'"
    "params_of E y = intermediate_params E (base_builder E q i t) (Suc t)"
    "issued_run E ValidChain n (draw_ski E t) (t + 3) is ys'"
    using Cons.prems(3) by (auto simp: ValidChain_def)
  have "b = (if hit i then f (base_builder E p i t) else base_builder E p i t)"
    using Cons.prems(1) [of i] x(2) by simp
  then have "params_of E x = (if hit i then g else id) (params_of E y)"
    using x(3) y(2) assms(2) base_params_parent [of E p i t "Suc t" q] by (simp add: acts_def)
  then show ?case using Cons.IH [OF _ x(4) y(3)] Cons.prems(1) x(1) y(1) by simp
qed simp

lemma u8_indices_hit:
  assumes "j < unat n"
  shows "u8_indices n ! j - 1 = x \<longleftrightarrow> j = unat x"
proof -
  have "unat n < 2 ^ LENGTH(8)" by (rule unsigned_less)
  then have "j < 256" using assms by simp
  then have "unat (of_nat j :: byte) = j" by (simp add: unsigned_of_nat take_bit_nat_eq_self)
  moreover have "u8_indices n ! j - 1 = of_nat j" using assms by (simp add: u8_indices_def del: upt_Suc)
  ultimately show ?thesis by auto
qed

lemma seeded_update:
  assumes "length ys = unat n" and "n \<noteq> 0"
  shows "map (\<lambda>(i, y). (if i - 1 = seed mod n then g else id) (P y)) (zip (u8_indices n) ys) =
    (map P ys)[unat seed mod unat n := g (P (ys ! (unat seed mod unat n)))]"
  using assms
  by (intro nth_equalityI) (auto simp: u8_indices_hit unat_mod nth_list_update)

definition plants_at ::
  "('h, 'd, 'k, 'i) issue_env \<Rightarrow> 'i identity \<Rightarrow> byte \<Rightarrow> nat \<Rightarrow> 'i test_chain \<Rightarrow> ('k, 'i) chain_mutator \<Rightarrow> nat
     \<Rightarrow> ('d certificate_params \<Rightarrow> 'd certificate_params) \<Rightarrow> bool" where
  "plants_at E root n t valid m k g \<longleftrightarrow>
     (\<exists>chain t'. test_chain_build E root n m t = Ret (chain, None, t') \<and> tc_root chain = root
        \<and> map (params_of E) (tc_intermediates chain) =
            (map (params_of E) (tc_intermediates valid))[k := g (params_of E (tc_intermediates valid ! k))]
        \<and> params_of E (tc_leaf chain) = params_of E (tc_leaf valid))"

definition plants_leaf ::
  "('h, 'd, 'k, 'i) issue_env \<Rightarrow> 'i identity \<Rightarrow> byte \<Rightarrow> nat \<Rightarrow> 'i test_chain \<Rightarrow> ('k, 'i) chain_mutator
     \<Rightarrow> ('d certificate_params \<Rightarrow> 'd certificate_params) \<Rightarrow> bool" where
  "plants_leaf E root n t valid m g \<longleftrightarrow>
     (\<exists>chain t'. test_chain_build E root n m t = Ret (chain, None, t') \<and> tc_root chain = root
        \<and> map (params_of E) (tc_intermediates chain) = map (params_of E) (tc_intermediates valid)
        \<and> params_of E (tc_leaf chain) = g (params_of E (tc_leaf valid)))"

lemma valid_chain_issued:
  assumes "issuing_laws E" "issuing_succeeds E" "identity_ok E root" "n \<noteq> 255"
    and "test_chain_build E root n ValidChain t = Ret (valid, d, t')"
  shows "issued_chain E ValidChain n t valid \<and> tc_root valid = root \<and> d = None \<and> t' = t + 3 * unat n + 3"
  using test_chain_build_issued [OF assms(1,2) tame_ValidChain assms(4,3), of t] assms(5)
  by (auto simp: ValidChain_def)

lemma leaf_params_same:
  assumes "issued_chain E m n t chain" and "issued_chain E ValidChain n t valid" and "acts_leaf E (cm_leaf m) g"
  shows "params_of E (tc_leaf chain) = g (params_of E (tc_leaf valid))"
proof -
  let ?t = "t + 3 * unat n"
  obtain p q where "params_of E (tc_leaf chain) = leaf_params E (cm_leaf m (base_leaf_builder E p ?t)) (Suc ?t)"
    "params_of E (tc_leaf valid) = leaf_params E (base_leaf_builder E q ?t) (Suc ?t)"
    using assms(1,2) by (auto simp: issued_chain_def ValidChain_def)
  then show ?thesis
    using assms(3) base_leaf_params_parent [of E p ?t "Suc ?t" q] by (simp add: acts_leaf_def)
qed

lemma seeded_plants:
  assumes laws: "issuing_laws E" "issuing_succeeds E" "identity_ok E root" and n: "n \<noteq> 0" "n \<noteq> 255"
    and f: "gentle E f" "acts E f g"
    and valid: "test_chain_build E root n ValidChain t = Ret (valid, d, t')"
  shows "plants_at E root n t valid (seeded_mutator seed f msg) (unat seed mod unat n) g"
proof -
  let ?m = "seeded_mutator seed f msg"
  obtain chain where chain: "test_chain_build E root n ?m t = cm_complete ?m chain (t + 3 * unat n + 3)"
    "tc_root chain = root" "issued_chain E ?m n t chain"
    using test_chain_build_issued [OF laws(1,2) tame_seeded [OF f(1)] n(2) laws(3)] by blast
  have v: "issued_chain E ValidChain n t valid"
    using valid_chain_issued [OF laws n(2) valid] by blast
  have "length (tc_intermediates chain) = unat n" using chain(3) by (simp add: issued_chain_def)
  moreover have "unat n \<noteq> 0" using n(1) by (simp add: unat_eq_zero)
  ultimately have "tc_intermediates chain \<noteq> []" by auto
  then have "test_chain_build E root n ?m t = Ret (chain, None, t + 3 * unat n + 3)"
    using chain(1) by (simp add: seeded_mutator_def)
  moreover have "map (params_of E) (tc_intermediates chain) =
      map (\<lambda>(i, y). (if i - 1 = seed mod n then g else id) (params_of E y)) (zip (u8_indices n) (tc_intermediates valid))"
  proof (rule issued_run_acts [OF _ f(2)])
    show "cm_intermediate ?m b (i - 1) n = Ret (if i - 1 = seed mod n then f b else b)" for i b
      using n(1) by (simp add: seeded_mutator_def rem_u8_def)
  qed (use chain(3) v in \<open>auto simp: issued_chain_def\<close>)
  moreover have "params_of E (tc_leaf chain) = id (params_of E (tc_leaf valid))"
    by (rule leaf_params_same [OF chain(3) v]) (simp add: acts_leaf_def seeded_mutator_def)
  ultimately show ?thesis
    using chain(2) v n(1) seeded_update [of "tc_intermediates valid" n seed g "params_of E"]
    by (auto simp: plants_at_def issued_chain_def)
qed

lemma leaf_plants:
  assumes laws: "issuing_laws E" "issuing_succeeds E" "identity_ok E root" and n: "n \<noteq> 255"
    and f: "gentle_leaf E f" "acts_leaf E f g"
    and valid: "test_chain_build E root n ValidChain t = Ret (valid, d, t')"
  shows "plants_leaf E root n t valid (leaf_mutator f) g"
proof -
  let ?m = "leaf_mutator f"
  obtain chain where chain: "test_chain_build E root n ?m t = cm_complete ?m chain (t + 3 * unat n + 3)"
    "tc_root chain = root" "issued_chain E ?m n t chain"
    using test_chain_build_issued [OF laws(1,2) tame_leaf_mutator [OF f(1)] n laws(3)] by blast
  have v: "issued_chain E ValidChain n t valid"
    using valid_chain_issued [OF laws n valid] by blast
  have "test_chain_build E root n ?m t = Ret (chain, None, t + 3 * unat n + 3)"
    using chain(1) by (simp add: leaf_mutator_def ValidChain_def)
  moreover have "map (params_of E) (tc_intermediates chain) =
      map (\<lambda>(i, y). (if False then id else id) (params_of E y)) (zip (u8_indices n) (tc_intermediates valid))"
    by (rule issued_run_acts [where f = "\<lambda>b. b"])
      (use chain(3) v in \<open>auto simp: issued_chain_def acts_def leaf_mutator_def ValidChain_def\<close>)
  moreover have "params_of E (tc_leaf chain) = g (params_of E (tc_leaf valid))"
    by (rule leaf_params_same [OF chain(3) v]) (use f(2) in \<open>simp add: leaf_mutator_def\<close>)
  moreover have "map (\<lambda>(i, y). params_of E y) (zip (u8_indices n) (tc_intermediates valid)) =
      map (params_of E) (tc_intermediates valid)"
    using v by (intro nth_equalityI) (auto simp: issued_chain_def)
  ultimately show ?thesis using chain(2) by (auto simp: plants_leaf_def)
qed

section \<open>Candidate chains\<close>

text \<open>
  The identifiers of issued certificates come from different draws, so they differ as far as the
  keys of the draws do.
\<close>

definition drawn :: "('h, 'd, 'k, 'i) issue_env \<Rightarrow> nat \<Rightarrow> nat \<Rightarrow> 'i identity list \<Rightarrow> bool" where
  "drawn E t t' xs \<longleftrightarrow> (\<exists>ts. map id_bytes xs = map (draw_ski E) ts \<and> distinct ts \<and> set ts \<subseteq> {t..<t'})"

definition fresh_ids :: "('h, 'd, 'k, 'i) issue_env \<Rightarrow> nat \<Rightarrow> bool" where
  "fresh_ids E T \<longleftrightarrow> inj_on (draw_ski E) {..<T}"

lemma drawn_distinct:
  assumes "fresh_ids E T" and "drawn E t t' xs" and "t' \<le> T"
  shows "distinct (map id_bytes xs)" and "s < t \<Longrightarrow> s < T \<Longrightarrow> draw_ski E s \<notin> set (map id_bytes xs)"
proof -
  obtain ts where ts: "map id_bytes xs = map (draw_ski E) ts" "distinct ts" "set ts \<subseteq> {t..<t'}"
    using assms(2) by (auto simp: drawn_def)
  have "set ts \<subseteq> {..<T}" using ts(3) assms(3) by auto
  then have "inj_on (draw_ski E) (set ts)"
    using assms(1) inj_on_subset unfolding fresh_ids_def by blast
  then show "distinct (map id_bytes xs)" using ts(1,2) by (simp add: distinct_map)
  show "draw_ski E s \<notin> set (map id_bytes xs)" if "s < t" "s < T"
  proof
    assume "draw_ski E s \<in> set (map id_bytes xs)"
    then have "draw_ski E s \<in> draw_ski E ` set ts" using ts(1) by simp
    then obtain u where u: "u \<in> set ts" "draw_ski E s = draw_ski E u" by blast
    then have "u \<in> {t..<t'}" using ts(3) by blast
    then have "s = u" using assms(1,3) u(2) that unfolding fresh_ids_def by (auto dest: inj_onD)
    then show False using \<open>u \<in> {t..<t'}\<close> that by simp
  qed
qed

lemma drawn_mono: "drawn E t t1 xs \<Longrightarrow> t1 \<le> t2 \<Longrightarrow> drawn E t t2 xs"
  by (fastforce simp: drawn_def)

lemma drawn_take: "drawn E t t' xs \<Longrightarrow> drawn E t t' (take k xs)"
  unfolding drawn_def
proof (elim exE conjE)
  fix ts assume "map id_bytes xs = map (draw_ski E) ts" "distinct ts" "set ts \<subseteq> {t..<t'}"
  then show "\<exists>ts. map id_bytes (take k xs) = map (draw_ski E) ts \<and> distinct ts \<and> set ts \<subseteq> {t..<t'}"
    by (intro exI [of _ "take k ts"]) (auto simp: take_map [symmetric] dest: in_set_takeD)
qed

lemma drawn_snoc:
  assumes "drawn E t t1 xs" and "id_bytes x = draw_ski E s" and "t1 \<le> s" and "s < t2" and "t \<le> s"
  shows "drawn E t t2 (xs @ [x])"
proof -
  obtain ts where "map id_bytes xs = map (draw_ski E) ts" "distinct ts" "set ts \<subseteq> {t..<t1}"
    using assms(1) by (auto simp: drawn_def)
  then show ?thesis using assms(2-5) unfolding drawn_def by (intro exI [of _ "ts @ [s]"]) auto
qed

lemma issued_run_linked: "issued_run E m n aki t is xs \<Longrightarrow> linked aki (map id_cert xs)"
  by (induction E m n aki t "is" xs rule: issued_run.induct) (auto simp: made_def)

lemma issued_run_drawn: "issued_run E m n aki t is xs \<Longrightarrow> drawn E t (t + 3 * length is) xs"
proof (induction E m n aki t "is" xs rule: issued_run.induct)
  case (2 E m n aki t i "is" xs)
  then obtain y ys where y: "xs = y # ys" "id_bytes y = draw_ski E t" "drawn E (t + 3) (t + 3 + 3 * length is) ys"
    by (fastforce simp: made_def)
  then obtain ts where "map id_bytes ys = map (draw_ski E) ts" "distinct ts" "set ts \<subseteq> {t + 3..<t + 3 + 3 * length is}"
    by (auto simp: drawn_def)
  then show ?case using y(1,2) unfolding drawn_def by (intro exI [of _ "t # ts"]) auto
qed (simp add: drawn_def)

text \<open>
  A chain that looks like one to the walk: linked by identifiers from the root to the leaf, with
  intermediates that have identifiers of their own.
\<close>

definition candidate :: "('h, 'd, 'k, 'i) issue_env \<Rightarrow> nat \<Rightarrow> nat \<Rightarrow> 'i test_chain \<Rightarrow> bool" where
  "candidate E t t' chain \<longleftrightarrow>
     linked (id_bytes (tc_root chain)) (map id_cert (tc_intermediates chain))
     \<and> issuer_bytes (tc_leaf chain) = id_bytes (last_or (tc_root chain) (tc_intermediates chain))
     \<and> drawn E t t' (tc_intermediates chain)"

lemma issued_candidate:
  assumes "issued_chain E m n t chain"
  shows "candidate E t (t + 3 * unat n) chain"
proof -
  have r: "issued_run E m n (id_bytes (tc_root chain)) t (u8_indices n) (tc_intermediates chain)"
    using assms by (simp add: issued_chain_def)
  have "drawn E t (t + 3 * unat n) (tc_intermediates chain)" using issued_run_drawn [OF r] by simp
  then show ?thesis
    using assms issued_run_linked [OF r] by (simp add: candidate_def issued_chain_def made_def)
qed

lemma comparable_id_bytes_eq [simp]: "comparable_id_bytes c = own_id c"
  by (simp add: comparable_id_bytes_def dc_cert_bytes_def)

lemma last_or_ok:
  "issued_chain E m n t chain \<Longrightarrow> identity_ok E (last_or (tc_root chain) (tc_intermediates chain))"
  by (auto simp: issued_chain_def last_or_def)

definition builds_candidate ::
  "('h, 'd, 'k, 'i) issue_env \<Rightarrow> 'i identity \<Rightarrow> byte \<Rightarrow> nat \<Rightarrow> ('k, 'i) chain_mutator \<Rightarrow> bool" where
  "builds_candidate E root n t m \<longleftrightarrow>
     (\<exists>chain t'. test_chain_build E root n m t = Ret (chain, None, t') \<and> tc_root chain = root
        \<and> length (tc_intermediates chain) \<le> unat n \<and> candidate E t t' chain \<and> t' \<le> t + 3 * unat n + 20)"

lemma tame_builds_candidate:
  assumes "issuing_laws E" "issuing_succeeds E" "identity_ok E root" "n \<noteq> 255" and "tame E m"
    and "\<And>chain t. length (tc_intermediates chain) = unat n \<Longrightarrow> cm_complete m chain t = Ret (chain, None, t)"
  shows "builds_candidate E root n t m"
proof -
  obtain chain where chain: "test_chain_build E root n m t = cm_complete m chain (t + 3 * unat n + 3)"
    "tc_root chain = root" "issued_chain E m n t chain"
    using test_chain_build_issued [OF assms(1,2,5,4,3)] by blast
  have "candidate E t (t + 3 * unat n + 3) chain"
    using issued_candidate [OF chain(3)] drawn_mono [of E t _ "tc_intermediates chain" "t + 3 * unat n + 3"]
    by (auto simp: candidate_def)
  moreover have "length (tc_intermediates chain) = unat n" using chain(3) by (simp add: issued_chain_def)
  ultimately show ?thesis using assms(6) chain(1,2) by (auto simp: builds_candidate_def)
qed

text \<open>Another leaf under a certificate that borrows the identifier of the last one.\<close>

lemma replaced_leaf_candidate:
  assumes "issued_chain E m n t chain" and "issuer_bytes leaf = id_bytes (last_or (tc_root chain) (tc_intermediates chain))"
    and "t + 3 * unat n \<le> t'"
  shows "candidate E t t' (chain\<lparr>tc_leaf := leaf\<rparr>)"
  using issued_candidate [OF assms(1)] drawn_mono [OF _ assms(3)] assms(2) by (auto simp: candidate_def)

lemma ForgedLeaf_candidate:
  assumes laws: "issuing_laws E" "issuing_succeeds E" "identity_ok E root" "n \<noteq> 255"
  shows "builds_candidate E root n t (ForgedLeaf E)"
proof -
  have "tame E (ForgedLeaf E)" by (simp add: ForgedLeaf_def tame_complete tame_ValidChain)
  then obtain chain where chain: "test_chain_build E root n (ForgedLeaf E) t =
      cm_complete (ForgedLeaf E) chain (t + 3 * unat n + 3)" "tc_root chain = root" "issued_chain E (ForgedLeaf E) n t chain"
    using test_chain_build_issued [OF laws(1,2) _ laws(4,3)] by blast
  let ?last = "last_or (tc_root chain) (tc_intermediates chain)" and ?t = "t + 3 * unat n + 3"
  have last: "length (id_bytes ?last) \<in> {16..64}" using last_or_ok [OF chain(3)] by (simp add: identity_ok_def)
  obtain ca where ca: "root_with_id E ''Evil CA'' (id_bytes ?last) ?t = Ret (ca, ?t + 2)"
    "made E (id_bytes ?last) (id_bytes ?last) ca"
    using root_with_id_made [OF laws(1,2) last, of "''Evil CA''" ?t] by (auto simp: ascii_def)
  have ca_ok: "identity_ok E ca" "id_bytes ca = id_bytes ?last" using ca(2) by (simp_all add: made_def)
  obtain leaf where leaf: "leaf_under E ''Evil Leaf'' ca (?t + 2) = Ret (leaf, ?t + 2 + 3)" "issuer_bytes leaf = id_bytes ca"
    using leaf_under_made [OF laws(1,2) ca_ok(1), of "''Evil Leaf''" "?t + 2"]
    by (auto simp: trim_empty_iff is_whitespace_def made_def)
  have "test_chain_build E root n (ForgedLeaf E) t = Ret (chain\<lparr>tc_leaf := leaf\<rparr>, None, ?t + 2 + 3)"
    using chain(1) ca(1) leaf(1) by (simp add: ForgedLeaf_def Let_def)
  then show ?thesis
    using chain replaced_leaf_candidate [OF chain(3), of leaf "?t + 2 + 3"] leaf(2) ca_ok(2)
    by (auto simp: builds_candidate_def issued_chain_def)
qed

lemma OrphanLeaf_candidate:
  assumes laws: "issuing_laws E" "issuing_succeeds E" "identity_ok E root" "n \<noteq> 255"
  shows "builds_candidate E root n t (OrphanLeaf E)"
proof -
  have "tame E (OrphanLeaf E)" by (simp add: OrphanLeaf_def tame_complete tame_ValidChain)
  then obtain chain where chain: "test_chain_build E root n (OrphanLeaf E) t =
      cm_complete (OrphanLeaf E) chain (t + 3 * unat n + 3)" "tc_root chain = root" "issued_chain E (OrphanLeaf E) n t chain"
    using test_chain_build_issued [OF laws(1,2) _ laws(4,3)] by blast
  let ?last = "last_or (tc_root chain) (tc_intermediates chain)" and ?t = "t + 3 * unat n + 3"
  have last: "length (id_bytes ?last) \<in> {16..64}" using last_or_ok [OF chain(3)] by (simp add: identity_ok_def)
  obtain ca where ca: "intermediate_with_id E ''Evil Orphan CA'' root (id_bytes ?last) ?t = Ret (ca, ?t + 3)"
    "identity_ok E ca" "id_bytes ca = id_bytes ?last"
    using intermediate_with_id_made [OF laws(1-3) last, of "''Evil Orphan CA''" ?t]
    by (auto simp: trim_empty_iff is_whitespace_def made_def)
  obtain leaf where leaf: "leaf_under E ''Orphan Leaf'' ca (?t + 3) = Ret (leaf, ?t + 3 + 3)" "issuer_bytes leaf = id_bytes ca"
    using leaf_under_made [OF laws(1,2) ca(2), of "''Orphan Leaf''" "?t + 3"]
    by (auto simp: trim_empty_iff is_whitespace_def made_def)
  have "test_chain_build E root n (OrphanLeaf E) t = Ret (chain\<lparr>tc_leaf := leaf\<rparr>, None, ?t + 3 + 3)"
    using chain(1,2) ca(1) leaf(1) by (simp add: OrphanLeaf_def Let_def)
  then show ?thesis
    using chain replaced_leaf_candidate [OF chain(3), of leaf "?t + 3 + 3"] leaf(2) ca(3)
    by (auto simp: builds_candidate_def issued_chain_def)
qed

lemma last_or_take:
  assumes "k < length xs"
  shows "last_or r (take k xs) = (if k = 0 then r else xs ! (k - 1))"
  using assms by (auto simp: last_or_def last_conv_nth)

lemma last_id_last_or: "last_id (id_bytes r) (map id_cert xs) = id_bytes (last_or r xs)"
  by (simp add: last_id_def last_or_def last_map)

lemma ForgedIntermediate_candidate:
  assumes laws: "issuing_laws E" "issuing_succeeds E" "identity_ok E root" "n \<noteq> 255" and n: "n \<noteq> 0"
  shows "builds_candidate E root n t (ForgedIntermediate E seed)"
proof -
  let ?m = "ForgedIntermediate E seed"
  have "tame E ?m" by (simp add: ForgedIntermediate_def tame_complete tame_ValidChain)
  then obtain chain where chain: "test_chain_build E root n ?m t = cm_complete ?m chain (t + 3 * unat n + 3)"
    "tc_root chain = root" "issued_chain E ?m n t chain"
    using test_chain_build_issued [OF laws(1,2) _ laws(4,3)] by blast
  let ?t = "t + 3 * unat n + 3" and ?ints = "tc_intermediates chain"
  have len: "length ?ints = unat n" "\<forall>x \<in> set ?ints. identity_ok E x" using chain(3) by (simp_all add: issued_chain_def)
  have "unat n \<noteq> 0" using n by (simp add: unat_eq_zero)
  then have ints: "?ints \<noteq> []" using len by auto
  define k where "k = unat seed mod length ?ints"
  have k: "k < length ?ints" using ints by (simp add: k_def)
  define parent where "parent = last_or root (take k ?ints)"
  have parent: "parent = (if k = 0 then root else ?ints ! (k - 1))" "length (id_bytes parent) \<in> {16..64}"
    using last_or_take [OF k] len laws(3) k by (auto simp: parent_def identity_ok_def)
  obtain ca where ca: "root_with_id E ''Evil CA'' (id_bytes parent) ?t = Ret (ca, ?t + 2)" "identity_ok E ca"
    "id_bytes ca = id_bytes parent"
    using root_with_id_made [OF laws(1,2) parent(2), of "''Evil CA''" ?t] by (auto simp: ascii_def made_def)
  let ?b = "\<lparr>cb_params = fresh_params E (?t + 2) ''Evil Intermediate'',
      cb_template = \<lparr>it_parent = ca, it_allowed_domains = [''itsallbroken.com''], it_path_len = None\<rparr>\<rparr>"
  obtain evil where evil: "intermediate_build E ?b (Suc (?t + 2)) = Ret (evil, ?t + 2 + 3)"
    "identity_ok E evil" "issuer_bytes evil = id_bytes parent" "id_bytes evil = draw_ski E (?t + 2)"
    using intermediate_build_issues [OF laws(1,2), of ?b "Suc (?t + 2)"] ca(2,3) fresh_params_ok [OF laws(2)]
    by (auto simp: trim_empty_iff is_whitespace_def made_def eval_nat_numeral)
  obtain leaf where leaf: "leaf_under E ''Evil Leaf'' evil (?t + 2 + 3) = Ret (leaf, ?t + 2 + 3 + 3)"
    "issuer_bytes leaf = id_bytes evil"
    using leaf_under_made [OF laws(1,2) evil(2), of "''Evil Leaf''" "?t + 2 + 3"]
    by (auto simp: trim_empty_iff is_whitespace_def made_def)
  let ?chain = "chain\<lparr>tc_intermediates := take k ?ints @ [evil], tc_leaf := leaf\<rparr>"
  have "cm_complete ?m chain ?t = Ret (?chain, None, ?t + 2 + 3 + 3)"
    using ints ca(1) evil(1) leaf(1) parent(1) chain(2)
    by (auto simp: ForgedIntermediate_def k_def [symmetric] builder_new_intermediate_def
        cert_builder_new_returns [OF laws(2)] allowed_domain_def Let_def)
  moreover have c: "linked (id_bytes root) (map id_cert ?ints)" "drawn E t (t + 3 * unat n) ?ints"
    using issued_candidate [OF chain(3)] chain(2) by (simp_all add: candidate_def)
  have "linked (id_bytes root) (map id_cert (take k ?ints))"
    using c(1) linked_append [of "id_bytes root" "map id_cert (take k ?ints)" "map id_cert (drop k ?ints)"]
    by (simp flip: map_append)
  then have "linked (id_bytes root) (map id_cert (take k ?ints @ [evil]))"
    using evil(3) by (simp add: linked_append last_id_last_or parent_def)
  then have "candidate E t (?t + 2 + 3 + 3) ?chain"
    using leaf(2) chain(2) drawn_snoc [OF drawn_take [OF c(2)] evil(4), of "?t + 2 + 3 + 3" k]
    by (simp add: candidate_def last_or_def)
  ultimately show ?thesis using chain(1,2) k len(1) by (auto simp: builds_candidate_def)
qed

end
