(* ===== verification/Sample_Issuer.thy ===== *)
theory Sample_Issuer
  imports Test_Chains
begin

text \<open>
  A concrete issuer that satisfies the laws of \<open>Test_Issuer\<close>: the hypotheses of the theorems on the
  test chains can hold together. The instance computes; nothing in it models code of the repository.
\<close>

section \<open>Encoding of certificates\<close>

text \<open>A certificate is a sequence of framed fields, each ended by a zero.\<close>

fun frame :: "bytes \<Rightarrow> bytes" where
  "frame [] = [0]"
| "frame (x # xs) = 1 # x # frame xs"

fun unframe :: "bytes \<Rightarrow> bytes \<times> bytes" where
  "unframe (b # x # r) = (if b = 0 then ([], x # r) else (case unframe r of (xs, r') \<Rightarrow> (x # xs, r')))"
| "unframe [b] = ([], [])"
| "unframe [] = ([], [])"

lemma unframe_frame [simp]: "r \<noteq> [] \<Longrightarrow> unframe (frame xs @ r) = (xs, r)"
proof (induction xs)
  case Nil
  then show ?case by (cases r) simp_all
qed simp

definition field_of_int :: "int \<Rightarrow> bytes" where
  "field_of_int v = (if v < 0 then 1 else 0) # replicate (nat \<bar>v\<bar>) 0"

definition int_of_field :: "bytes \<Rightarrow> int" where
  "int_of_field xs = (case xs of [] \<Rightarrow> 0 | s # ds \<Rightarrow> (if s = 1 then - int (length ds) else int (length ds)))"

lemma int_of_field_of_int [simp]: "int_of_field (field_of_int v) = v"
  by (simp add: field_of_int_def int_of_field_def)

definition sample_der :: "'d certificate_params \<Rightarrow> 'd certificate_params \<Rightarrow> bytes" where
  "sample_der p q =
     (let key_id = (\<lambda>c. case cp_key_identifier_method c of PreSpecified v \<Rightarrow> v | OtherKeyIdMethod _ \<Rightarrow> [])
      in frame (case cp_serial_number p of Some v \<Rightarrow> v | None \<Rightarrow> []) @ frame (key_id p) @ frame (key_id q)
        @ frame (field_of_int (cp_not_before p)) @ frame (field_of_int (cp_not_after p))
        @ [case cp_is_ca p of Ca _ \<Rightarrow> 1 | _ \<Rightarrow> 0])"

definition sample_read :: "bytes \<Rightarrow> x509_certificate" where
  "sample_read d =
     (case unframe d of (serial, d1) \<Rightarrow> case unframe d1 of (ski, d2) \<Rightarrow> case unframe d2 of (aki, d3) \<Rightarrow>
      case unframe d3 of (nb, d4) \<Rightarrow> case unframe d4 of (na, d5) \<Rightarrow>
        \<lparr>as_raw = d, raw_serial = serial, validity_not_before = int_of_field nb, validity_not_after = int_of_field na,
         iter_extensions = [SubjectKeyIdentifier ski, AuthorityKeyIdentifier (Some aki)],
         x509_is_ca = (d5 = [1]), subject_public_key_data = [], x509_subject = ''subject''\<rparr>)"

section \<open>The issuer\<close>

type_synonym sample_dn = "dn_type \<Rightarrow> dn_value option"

type_synonym sample_issued = "bytes \<times> sample_dn certificate_params \<times> bytes private_key"

definition sample_issuing :: "(sample_dn, bytes, sample_issued) issuing_lib" where
  "sample_issuing = \<lparr>csr_params_from_pem = (\<lambda>_. params_new sample_rcgen []),
     signed_by = (\<lambda>p k j r. Ok (sample_der p (fst (snd j)), p, k)), self_signed = (\<lambda>p k r. Ok (sample_der p p, p, k)),
     issuer_der = fst, issuer_pem = fst, issuer_key = (\<lambda>i. snd (snd i)), issuer_params = (\<lambda>i. fst (snd i)),
     date_time_ymd = (\<lambda>y m d. 31556952 * (y - 1970))\<rparr>"

definition sample_env :: "(bytes, sample_dn, bytes, sample_issued) issue_env" where
  "sample_env = \<lparr>ie_sha = sample_sha, ie_ecdsa = sample_ecdsa, ie_rcgen = sample_rcgen, ie_issuing = sample_issuing,
     ie_jiff = sample_jiff\<lparr>ts_from_second := Ok\<rparr>,
     ie_x509 = \<lparr>x509_parse = (\<lambda>strict d. Ok ([], sample_read d)), pem_iter_from_buffer = (\<lambda>b. [Ok b]),
       pem_encode_lf = (\<lambda>tag d. tag)\<rparr>,
     ie_fips = True, ie_debug = False, ie_random = id\<rparr>"

section \<open>Its laws\<close>

lemma sample_encodes: "encodes sample_env p q (sample_der p q)"
  by (auto simp: encodes_def sample_env_def sample_der_def sample_read_def Let_def simp del: frame.simps
      split: is_ca.splits)

lemma sample_laws: "issuing_laws sample_env"
  using sample_encodes by (auto simp: issuing_laws_def) (auto simp: sample_env_def sample_issuing_def)

lemma sample_succeeds: "issuing_succeeds sample_env"
  using sample_sha_laws(1)
  by (simp add: issuing_succeeds_def in_range_def sample_env_def sample_issuing_def sample_rcgen_def sample_ecdsa_def
      returns_def private_key_new_def assert_that_def expect_def)

lemma sample_draw: "draw_ski sample_env t = replicate 31 0 @ [of_nat t, 42]"
proof -
  have "drawn_key sample_env t = PrivateKey [of_nat t]"
    by (simp add: drawn_key_def sample_env_def sample_ecdsa_def private_key_new_def assert_that_def expect_def)
  then show ?thesis
    by (simp add: draw_ski_def ski_for_def generate_ski_def public_key_key_id_def key_id_from_def sample_env_def
        sample_ecdsa_def hash_data_def sha256_finish_def sha256_update_def sha256_incremental_def sample_sha_def
        key_id_as_bytes_def digest_from_raw_def SHA256_OUTPUT_LEN_def Let_def)
qed

lemma sample_fresh: "fresh_ids sample_env 100"
proof (unfold fresh_ids_def, rule inj_onI)
  fix s t :: nat
  assume "s \<in> {..<100}" "t \<in> {..<100}" and eq: "draw_ski sample_env s = draw_ski sample_env t"
  then have "s < 256" "t < 256" by simp_all
  moreover have "unat (of_nat s :: byte) = unat (of_nat t :: byte)" using eq by (simp add: sample_draw)
  ultimately show "s = t" by (simp add: unsigned_of_nat take_bit_nat_eq_self)
qed

lemma sample_keeps: "moka_keeps sample_moka id"
  by (simp add: moka_keeps_def sample_moka_def)

end
