(* ===== verification/Chain_Verify.thy ===== *)
theory Chain_Verify
  imports Chain_Build
begin

text \<open>
  Verification of a candidate chain: \<open>chain/verify_chain.rs\<close> and
  \<open>endpoint_hostname.rs\<close> of \<open>rc-x509-trust\<close>. The path validator (\<open>webpki\<close>) and the
  parser of server names are the parameter \<open>webpki_lib\<close>; the errors of the validator are a
  datatype with the variants the code names and one for the rest, which the code must expect
  because the foreign type is non-exhaustive.
\<close>

section \<open>Endpoint names\<close>

datatype server_name = ServerDnsName string | ServerIpAddress string

fun server_name_to_str :: "server_name \<Rightarrow> string" where
  "server_name_to_str (ServerDnsName s) = s"
| "server_name_to_str (ServerIpAddress s) = s"

datatype endpoint_hostname = EndpointHostname server_name

datatype invalid_endpoint_hostname = InvalidEndpointHostname string

fun as_server_name :: "endpoint_hostname \<Rightarrow> server_name" where
  "as_server_name (EndpointHostname n) = n"

definition endpoint_hostname_try_from ::
  "(string \<Rightarrow> string + server_name) \<Rightarrow> string \<Rightarrow> invalid_endpoint_hostname + endpoint_hostname" where
  "endpoint_hostname_try_from parse value =
     map_sum InvalidEndpointHostname EndpointHostname (parse value)"

section \<open>Errors of the validator\<close>

type_synonym unix_time = nat
type_synonym key_usage = bytes

datatype webpki_error =
    BadDer
  | BadDerTime
  | EmptyEkuExtension
  | ExtensionValueInvalid
  | InvalidCertValidity
  | InvalidSerialNumber
  | InvalidNetworkMaskConstraint
  | MalformedDnsIdentifier
  | MalformedExtensions
  | MalformedNameConstraint
  | SignatureAlgorithmMismatch
  | TrailingData nat
  | InvalidSignatureForPublicKey
  | InvalidCrlSignatureForPublicKey
  | InvalidCrlNumber
  | IssuerNotCrlSigner
  | MaximumNameConstraintComparisonsExceeded
  | MaximumPathBuildCallsExceeded
  | MaximumPathDepthExceeded
  | MaximumSignatureChecksExceeded
  | WebpkiCrlExpired unix_time unix_time
  | WebpkiCertExpired unix_time unix_time
  | CertNotValidYet unix_time unix_time
  | WebpkiCertRevoked
  | UnknownIssuer
  | NameConstraintViolation
  | PathLenConstraintViolated
  | CaUsedAsEndEntity
  | EndEntityUsedAsCa
  | CertNotValidForName server_name "string list"
  | RequiredEkuNotFoundContext key_usage "nat list list"
  | UnknownRevocationStatus
  | UnsupportedCertVersion
  | UnsupportedCriticalExtension
  | UnsupportedCrlIssuingDistributionPoint
  | UnsupportedCrlVersion
  | UnsupportedDeltaCrl
  | UnsupportedIndirectCrl
  | UnsupportedNameType
  | UnsupportedRevocationReason
  | UnsupportedRevocationReasonsPartitioning
  | UnsupportedCrlSignatureAlgorithmContext string
  | UnsupportedSignatureAlgorithmContext string
  | UnsupportedCrlSignatureAlgorithmForPublicKeyContext string
  | UnsupportedSignatureAlgorithmForPublicKeyContext string
  | OtherWebpkiError string

datatype chain_verify_error =
    CertMalformed webpki_error
  | CertSignatureInvalid
  | CrlSignatureInvalid
  | CrlMalformed webpki_error
  | ChainWalkLimits webpki_error
  | SignerIsCa
  | IntermediateNotCa
  | CertExpired (ce_current: unix_time) (ce_not_after: unix_time)
  | CertFutureValidity (cf_current: unix_time) (cf_not_before: unix_time)
  | CertRevoked
  | CrlExpired (cl_current: unix_time) (cl_next_update: unix_time)
  | LeafNameMismatch (expected: string) (presented: "string list")
  | ChainNameConstraint
  | PathLen
  | RequiredEKU (required: key_usage) (found: "nat list list")
  | ChainBuildingMismatch
  | Unsupported webpki_error
  | Unknown webpki_error

definition chain_verify_error_from :: "webpki_error \<Rightarrow> chain_verify_error" where
  "chain_verify_error_from v = (case v of
     BadDer \<Rightarrow> CertMalformed v
   | BadDerTime \<Rightarrow> CertMalformed v
   | EmptyEkuExtension \<Rightarrow> CertMalformed v
   | ExtensionValueInvalid \<Rightarrow> CertMalformed v
   | InvalidCertValidity \<Rightarrow> CertMalformed v
   | InvalidSerialNumber \<Rightarrow> CertMalformed v
   | InvalidNetworkMaskConstraint \<Rightarrow> CertMalformed v
   | MalformedDnsIdentifier \<Rightarrow> CertMalformed v
   | MalformedExtensions \<Rightarrow> CertMalformed v
   | MalformedNameConstraint \<Rightarrow> CertMalformed v
   | SignatureAlgorithmMismatch \<Rightarrow> CertMalformed v
   | TrailingData _ \<Rightarrow> CertMalformed v
   | InvalidSignatureForPublicKey \<Rightarrow> CertSignatureInvalid
   | InvalidCrlSignatureForPublicKey \<Rightarrow> CrlSignatureInvalid
   | InvalidCrlNumber \<Rightarrow> CrlMalformed v
   | IssuerNotCrlSigner \<Rightarrow> CrlMalformed v
   | MaximumNameConstraintComparisonsExceeded \<Rightarrow> ChainWalkLimits v
   | MaximumPathBuildCallsExceeded \<Rightarrow> ChainWalkLimits v
   | MaximumPathDepthExceeded \<Rightarrow> ChainWalkLimits v
   | MaximumSignatureChecksExceeded \<Rightarrow> ChainWalkLimits v
   | WebpkiCrlExpired time next_update \<Rightarrow> CrlExpired time next_update
   | WebpkiCertExpired time na \<Rightarrow> CertExpired time na
   | CertNotValidYet time nb \<Rightarrow> CertFutureValidity time nb
   | WebpkiCertRevoked \<Rightarrow> CertRevoked
   | UnknownIssuer \<Rightarrow> ChainBuildingMismatch
   | NameConstraintViolation \<Rightarrow> ChainNameConstraint
   | PathLenConstraintViolated \<Rightarrow> PathLen
   | CaUsedAsEndEntity \<Rightarrow> SignerIsCa
   | EndEntityUsedAsCa \<Rightarrow> IntermediateNotCa
   | CertNotValidForName n p \<Rightarrow> LeafNameMismatch (server_name_to_str n) p
   | RequiredEkuNotFoundContext req pre \<Rightarrow> RequiredEKU req pre
   | UnknownRevocationStatus \<Rightarrow> Unsupported v
   | UnsupportedCertVersion \<Rightarrow> Unsupported v
   | UnsupportedCriticalExtension \<Rightarrow> Unsupported v
   | UnsupportedCrlIssuingDistributionPoint \<Rightarrow> Unsupported v
   | UnsupportedCrlVersion \<Rightarrow> Unsupported v
   | UnsupportedDeltaCrl \<Rightarrow> Unsupported v
   | UnsupportedIndirectCrl \<Rightarrow> Unsupported v
   | UnsupportedNameType \<Rightarrow> Unsupported v
   | UnsupportedRevocationReason \<Rightarrow> Unsupported v
   | UnsupportedRevocationReasonsPartitioning \<Rightarrow> Unsupported v
   | UnsupportedCrlSignatureAlgorithmContext _ \<Rightarrow> Unsupported v
   | UnsupportedSignatureAlgorithmContext _ \<Rightarrow> Unsupported v
   | UnsupportedCrlSignatureAlgorithmForPublicKeyContext _ \<Rightarrow> Unsupported v
   | UnsupportedSignatureAlgorithmForPublicKeyContext _ \<Rightarrow> Unsupported v
   | OtherWebpkiError _ \<Rightarrow> Unknown v)"

section \<open>Verification\<close>

datatype signature_algorithm =
    ECDSA_P256_SHA256 | ECDSA_P256_SHA384 | ECDSA_P256_SHA512
  | ECDSA_P384_SHA256 | ECDSA_P384_SHA384 | ECDSA_P384_SHA512
  | ECDSA_P521_SHA256 | ECDSA_P521_SHA384 | ECDSA_P521_SHA512
  | ED25519
  | RSA_PKCS1_2048_8192_SHA256 | RSA_PKCS1_2048_8192_SHA384 | RSA_PKCS1_2048_8192_SHA512
  | RSA_PKCS1_2048_8192_SHA256_ABSENT_PARAMS
  | RSA_PKCS1_2048_8192_SHA384_ABSENT_PARAMS
  | RSA_PKCS1_2048_8192_SHA512_ABSENT_PARAMS
  | RSA_PKCS1_3072_8192_SHA384

definition ALLOWED_SIGNATURE_ALGORITHMS :: "signature_algorithm list" where
  "ALLOWED_SIGNATURE_ALGORITHMS = [
     ECDSA_P256_SHA256, ECDSA_P256_SHA384, ECDSA_P256_SHA512,
     ECDSA_P384_SHA256, ECDSA_P384_SHA384, ECDSA_P384_SHA512,
     ECDSA_P521_SHA256, ECDSA_P521_SHA384, ECDSA_P521_SHA512,
     ED25519,
     RSA_PKCS1_2048_8192_SHA256, RSA_PKCS1_2048_8192_SHA384, RSA_PKCS1_2048_8192_SHA512,
     RSA_PKCS1_2048_8192_SHA256_ABSENT_PARAMS,
     RSA_PKCS1_2048_8192_SHA384_ABSENT_PARAMS,
     RSA_PKCS1_2048_8192_SHA512_ABSENT_PARAMS,
     RSA_PKCS1_3072_8192_SHA384]"

definition EKU_CODE_SIGNING_BYTES :: bytes where
  "EKU_CODE_SIGNING_BYTES = [43, 6, 1, 5, 5, 7, 3, 3]"

datatype eku_policy = RequireCodeSigning

text \<open>
  The validator's interface: \<open>'a\<close> is a trust anchor, \<open>'e\<close> a parsed end entity, and an
  extended-key-usage validator maps the purposes of a certificate to a verdict. The last two
  arguments of \<open>verify_for_usage\<close> are the optional revocation options and path filter.
\<close>

type_synonym eku_validator = "bytes list \<Rightarrow> webpki_error + unit"

record ('a, 'e) webpki_lib =
  anchor_from_trusted_cert :: "bytes \<Rightarrow> webpki_error + 'a"
  end_entity_try_from :: "bytes \<Rightarrow> webpki_error + 'e"
  required_if_present :: "bytes \<Rightarrow> eku_validator"
  verify_for_usage :: "'e \<Rightarrow> signature_algorithm list \<Rightarrow> 'a list \<Rightarrow> bytes list \<Rightarrow> unix_time
    \<Rightarrow> eku_validator \<Rightarrow> unit option \<Rightarrow> unit option \<Rightarrow> webpki_error + unit"
  verify_is_valid_for_subject_name :: "'e \<Rightarrow> server_name \<Rightarrow> webpki_error + unit"

fun eku_validate :: "('a, 'e) webpki_lib \<Rightarrow> eku_policy \<Rightarrow> eku_validator" where
  "eku_validate W RequireCodeSigning purposes = required_if_present W EKU_CODE_SIGNING_BYTES purposes"

definition verify_chain ::
  "('a, 'e) webpki_lib \<Rightarrow> unix_time \<Rightarrow> root_certificate \<Rightarrow> untrusted_cert \<Rightarrow> untrusted_chain
     \<Rightarrow> eku_policy \<Rightarrow> endpoint_hostname \<Rightarrow> (chain_verify_error + certificate) run" where
  "verify_chain W now root cert chain policy dns_name =
     (let leaf_cert = untrusted_as_der_slice cert;
          root_cert = as_der_slice (root_deref root)
      in expect (anchor_from_trusted_cert W root_cert) ''root is always valid'' (\<lambda>anchor.
           let intermediates = map untrusted_as_der_slice (as_slice chain) in
           Ret (
             try_op (end_entity_try_from W leaf_cert) chain_verify_error_from (\<lambda>ee.
             try_op (verify_for_usage W ee ALLOWED_SIGNATURE_ALGORITHMS [anchor] intermediates now
                 (eku_validate W policy) None None) chain_verify_error_from (\<lambda>path.
             try_op (verify_is_valid_for_subject_name W ee (as_server_name dns_name))
                 chain_verify_error_from (\<lambda>_.
               Ok (into_trusted cert)))))))"

section \<open>Lemmas\<close>

text \<open>The validator's error that an error of verification came from, names as text.\<close>

fun webpki_error_of :: "chain_verify_error \<Rightarrow> webpki_error" where
  "webpki_error_of (CertMalformed v) = v"
| "webpki_error_of CertSignatureInvalid = InvalidSignatureForPublicKey"
| "webpki_error_of CrlSignatureInvalid = InvalidCrlSignatureForPublicKey"
| "webpki_error_of (CrlMalformed v) = v"
| "webpki_error_of (ChainWalkLimits v) = v"
| "webpki_error_of SignerIsCa = CaUsedAsEndEntity"
| "webpki_error_of IntermediateNotCa = EndEntityUsedAsCa"
| "webpki_error_of (CertExpired t a) = WebpkiCertExpired t a"
| "webpki_error_of (CertFutureValidity t b) = CertNotValidYet t b"
| "webpki_error_of CertRevoked = WebpkiCertRevoked"
| "webpki_error_of (CrlExpired t n) = WebpkiCrlExpired t n"
| "webpki_error_of (LeafNameMismatch e p) = CertNotValidForName (ServerDnsName e) p"
| "webpki_error_of ChainNameConstraint = NameConstraintViolation"
| "webpki_error_of PathLen = PathLenConstraintViolated"
| "webpki_error_of (RequiredEKU r f) = RequiredEkuNotFoundContext r f"
| "webpki_error_of ChainBuildingMismatch = UnknownIssuer"
| "webpki_error_of (Unsupported v) = v"
| "webpki_error_of (Unknown v) = v"

fun name_as_text :: "webpki_error \<Rightarrow> webpki_error" where
  "name_as_text (CertNotValidForName n p) = CertNotValidForName (ServerDnsName (server_name_to_str n)) p"
| "name_as_text v = v"

lemma webpki_error_of_from: "webpki_error_of (chain_verify_error_from v) = name_as_text v"
  by (cases v) (simp_all add: chain_verify_error_from_def)

lemma name_as_text_same: "\<nexists>n p. v = CertNotValidForName n p \<Longrightarrow> name_as_text v = v"
  by (cases v) simp_all

lemma name_as_text_mismatch:
  "name_as_text v = CertNotValidForName n p \<longleftrightarrow>
     (\<exists>m. v = CertNotValidForName m p \<and> n = ServerDnsName (server_name_to_str m))"
  by (cases v) auto

lemma name_as_text_eq_iff:
  "name_as_text v = name_as_text w \<longleftrightarrow>
     v = w \<or> (\<exists>n m p. v = CertNotValidForName n p \<and> w = CertNotValidForName m p
                \<and> server_name_to_str n = server_name_to_str m)"
proof (cases "\<exists>n p. v = CertNotValidForName n p")
  case True
  then show ?thesis by (auto simp: name_as_text_mismatch eq_commute [of _ "name_as_text w"])
next
  case False
  show ?thesis
  proof (cases "\<exists>n p. w = CertNotValidForName n p")
    case True
    then show ?thesis by (auto simp: name_as_text_mismatch)
  next
    case w: False
    then show ?thesis using False name_as_text_same [of v] name_as_text_same [of w] by auto
  qed
qed

lemma verify_chain_eq:
  assumes "anchor_from_trusted_cert W (as_der_slice (root_deref root)) = Ok anchor"
  shows "verify_chain W now root cert chain policy dns_name = Ret (
     try_op (end_entity_try_from W (untrusted_as_der_slice cert)) chain_verify_error_from (\<lambda>ee.
     try_op (verify_for_usage W ee ALLOWED_SIGNATURE_ALGORITHMS [anchor]
         (map untrusted_as_der_slice (as_slice chain)) now (eku_validate W policy) None None)
       chain_verify_error_from (\<lambda>path.
     try_op (verify_is_valid_for_subject_name W ee (as_server_name dns_name))
       chain_verify_error_from (\<lambda>_. Ok (into_trusted cert)))))"
  using assms by (simp add: verify_chain_def Let_def)

section \<open>A sample instance\<close>

definition sample_webpki :: "(bytes, bytes) webpki_lib" where
  "sample_webpki = \<lparr>anchor_from_trusted_cert = Ok, end_entity_try_from = Ok,
     required_if_present = (\<lambda>eku ps. if ps = [] \<or> eku \<in> set ps then Ok () else Err (RequiredEkuNotFoundContext eku [])),
     verify_for_usage = (\<lambda>ee algs anchors ints now eku rev filt.
       if ints = [] then Err UnknownIssuer else eku []),
     verify_is_valid_for_subject_name = (\<lambda>ee n. if n = ServerDnsName ''a'' then Ok ()
       else Err (CertNotValidForName n []))\<rparr>"

section \<open>Properties\<close>

text \<open>
  C29. A chain is accepted exactly when the leaf parses as an end entity, the validator accepts the
  path from it over the chain's intermediates to the given root, and to that root alone, at the
  current time with the allowed algorithms and the code-signing policy, and the leaf is valid for
  the endpoint's name; the certificate returned is then the leaf's own, unchanged.
\<close>

theorem verify_chain_accepts_iff:
  assumes "anchor_from_trusted_cert W (as_der_slice (root_deref root)) = Ok anchor"
  shows "verify_chain W now root cert chain policy dns_name = Ret (Ok c) \<longleftrightarrow>
     c = into_trusted cert \<and>
     (\<exists>ee. end_entity_try_from W (untrusted_as_der_slice cert) = Ok ee
        \<and> verify_for_usage W ee ALLOWED_SIGNATURE_ALGORITHMS [anchor]
            (map untrusted_as_der_slice (as_slice chain)) now
            (required_if_present W [43, 6, 1, 5, 5, 7, 3, 3]) None None = Ok ()
        \<and> verify_is_valid_for_subject_name W ee (as_server_name dns_name) = Ok ())"
proof -
  have "eku_validate W policy = required_if_present W [43, 6, 1, 5, 5, 7, 3, 3]"
    by (cases policy) (auto simp: EKU_CODE_SIGNING_BYTES_def fun_eq_iff)
  then show ?thesis
    by (auto simp: verify_chain_eq [OF assms] outcome_simps)
qed

theorem verify_chain_accepts_iff_witness:
  "verify_chain sample_webpki 5 (RootCertificate (sample_cert [9] [9]))
     (UntrustedCert (sample_cert [1] [2]))
     (UntrustedChain (RootCertificate (sample_cert [9] [9])) [UntrustedCert (sample_cert [2] [9])])
     RequireCodeSigning (EndpointHostname (ServerDnsName ''a'')) = Ret (Ok (sample_cert [1] [2]))"
proof -
  have "anchor_from_trusted_cert sample_webpki
      (as_der_slice (root_deref (RootCertificate (sample_cert [9] [9])))) =
      Ok (as_der_slice (sample_cert [9] [9]))"
    by (simp add: sample_webpki_def)
  from verify_chain_accepts_iff [OF this] show ?thesis
    by (simp add: sample_webpki_def)
qed

text \<open>
  The conversion of the validator's errors loses nothing but the kind of a server name: two
  errors convert to the same one only if they are equal, or both report a name mismatch for names
  with the same text and the same presented names. Only an error the code does not name becomes
  the unknown error, and an error that is kept inside the result is the one that occurred.
\<close>

lemma chain_verify_error_faithful:
  "(chain_verify_error_from v = chain_verify_error_from w \<longleftrightarrow>
      v = w \<or> (\<exists>n m p. v = CertNotValidForName n p \<and> w = CertNotValidForName m p
                 \<and> server_name_to_str n = server_name_to_str m))
   \<and> ((\<exists>u. chain_verify_error_from v = Unknown u) \<longleftrightarrow> (\<exists>s. v = OtherWebpkiError s))
   \<and> (chain_verify_error_from v \<in> {CertMalformed u, CrlMalformed u, ChainWalkLimits u,
        Unsupported u, Unknown u} \<longrightarrow> u = v)"
proof -
  have "chain_verify_error_from v = chain_verify_error_from w \<longleftrightarrow> name_as_text v = name_as_text w"
  proof
    assume "name_as_text v = name_as_text w"
    moreover have "chain_verify_error_from u = chain_verify_error_from (name_as_text u)" for u
      by (cases u) (simp_all add: chain_verify_error_from_def)
    ultimately show "chain_verify_error_from v = chain_verify_error_from w" by metis
  qed (metis webpki_error_of_from)
  moreover have "(\<exists>u. chain_verify_error_from v = Unknown u) \<longleftrightarrow> (\<exists>s. v = OtherWebpkiError s)"
    by (cases v) (simp_all add: chain_verify_error_from_def)
  moreover have "chain_verify_error_from v \<in> {CertMalformed u, CrlMalformed u, ChainWalkLimits u,
        Unsupported u, Unknown u} \<longrightarrow> u = v"
    by (cases v) (auto simp: chain_verify_error_from_def)
  ultimately show ?thesis by (simp only: name_as_text_eq_iff)
qed

lemma chain_verify_error_faithful_witness:
  "chain_verify_error_from BadDer \<noteq> chain_verify_error_from UnknownIssuer"
  using chain_verify_error_faithful [of BadDer UnknownIssuer] by simp

end
