(* ===== verification/Trust_Tests.thy ===== *)
theory Trust_Tests
  imports Sample_Issuer Chain_Verify
begin

text \<open>
  The property tests of \<open>rc-x509-trust\<close>, in \<open>chain/mod.rs\<close>, \<open>chain/build_unverified.rs\<close>,
  \<open>chain/verify_chain.rs\<close> and \<open>trust_store/store.rs\<close>. A test is a function that panics where one of
  its assertions fails; that it returns for all inputs is a theorem here. The chains come from the
  issuer of \<open>Test_Issuer\<close>, the cache is the in-memory cache within its capacity, and the path
  validator stays a parameter.
\<close>

section \<open>Inputs\<close>

text \<open>The values of \<open>arbitrary_ordered_root_set\<close>: the two roots in either order.\<close>

definition ordered_root_sets :: "'i identity \<Rightarrow> 'i identity \<Rightarrow> root_set list" where
  "ordered_root_sets ca1 ca2 =
     [root_set_new [root_cert ca1, root_cert ca2], root_set_new [root_cert ca2, root_cert ca1]]"

datatype chain_error = Build chain_build_error | Verify chain_verify_error

text \<open>A mutation with the assertion on the error that it must cause.\<close>

record ('k, 'i) invalid_chain =
  ic_mutation :: string
  ic_mutator :: "('k, 'i) chain_mutator"
  ic_assert_err :: "chain_error \<Rightarrow> bool"

definition verify_err :: "(chain_verify_error \<Rightarrow> bool) \<Rightarrow> chain_error \<Rightarrow> bool" where
  "verify_err P e = (case e of Verify v \<Rightarrow> P v | Build _ \<Rightarrow> False)"

definition spuriously_built :: "('h, 'd, 'k, 'i) issue_env \<Rightarrow> byte \<Rightarrow> ('k, 'i) invalid_chain list" where
  "spuriously_built E seed = [
     \<lparr>ic_mutation = ''ForgedLeaf'', ic_mutator = ForgedLeaf E,
      ic_assert_err = verify_err (\<lambda>e. e = CertSignatureInvalid)\<rparr>,
     \<lparr>ic_mutation = ''PathLenViolation'', ic_mutator = PathLenViolation,
      ic_assert_err = verify_err (\<lambda>e. e = PathLen)\<rparr>,
     \<lparr>ic_mutation = ''ExpiredLeaf'', ic_mutator = ExpiredLeaf E,
      ic_assert_err = verify_err is_CertExpired\<rparr>,
     \<lparr>ic_mutation = ''FutureValidLeaf'', ic_mutator = FutureValidLeaf E,
      ic_assert_err = verify_err is_CertFutureValidity\<rparr>,
     \<lparr>ic_mutation = ''ForgedIntermediate'', ic_mutator = ForgedIntermediate E seed,
      ic_assert_err = verify_err (\<lambda>e. e = CertSignatureInvalid)\<rparr>,
     \<lparr>ic_mutation = ''ExpiredIntermediate'', ic_mutator = ExpiredIntermediate E seed,
      ic_assert_err = verify_err is_CertExpired\<rparr>,
     \<lparr>ic_mutation = ''FutureValidIntermediate'', ic_mutator = FutureValidIntermediate E seed,
      ic_assert_err = verify_err is_CertFutureValidity\<rparr>,
     \<lparr>ic_mutation = ''CaSignerLeaf'', ic_mutator = CaSignerLeaf,
      ic_assert_err = verify_err (\<lambda>e. e = SignerIsCa)\<rparr>,
     \<lparr>ic_mutation = ''MismatchedLeafSan'', ic_mutator = MismatchedLeafSan,
      ic_assert_err = verify_err is_LeafNameMismatch\<rparr>,
     \<lparr>ic_mutation = ''PreEpochLeaf'', ic_mutator = PreEpochLeaf E,
      ic_assert_err = verify_err (\<lambda>e. e = CertMalformed BadDerTime)\<rparr>,
     \<lparr>ic_mutation = ''CriticalExtensionLeaf'', ic_mutator = CriticalExtensionLeaf,
      ic_assert_err = verify_err (\<lambda>e. e = Unsupported UnsupportedCriticalExtension)\<rparr>,
     \<lparr>ic_mutation = ''OrphanLeaf'', ic_mutator = OrphanLeaf E,
      ic_assert_err = verify_err (\<lambda>e. e = ChainBuildingMismatch)\<rparr>,
     \<lparr>ic_mutation = ''NonCaIntermediate'', ic_mutator = NonCaIntermediate seed,
      ic_assert_err = verify_err (\<lambda>e. e = IntermediateNotCa)\<rparr>,
     \<lparr>ic_mutation = ''PreEpochIntermediate'', ic_mutator = PreEpochIntermediate E seed,
      ic_assert_err = verify_err (\<lambda>e. e = CertMalformed BadDerTime)\<rparr>,
     \<lparr>ic_mutation = ''CriticalExtensionIntermediate'', ic_mutator = CriticalExtensionIntermediate seed,
      ic_assert_err = verify_err (\<lambda>e. e = Unsupported UnsupportedCriticalExtension)\<rparr>]"

definition rejected_by_building :: "('h, 'd, 'k, 'i) issue_env \<Rightarrow> byte \<Rightarrow> ('k, 'i) invalid_chain list" where
  "rejected_by_building E seed = [
     \<lparr>ic_mutation = ''SelfReferentialCertIds'', ic_mutator = SelfReferentialCertIds E,
      ic_assert_err = (\<lambda>e. e = Build ExcessivelyLongChain)\<rparr>,
     \<lparr>ic_mutation = ''MissingIntermediate'', ic_mutator = MissingIntermediateMutator seed,
      ic_assert_err = (\<lambda>e. case e of Build (MissingIntermediate _) \<Rightarrow> True | _ \<Rightarrow> False)\<rparr>]"

definition invalid_chains :: "('h, 'd, 'k, 'i) issue_env \<Rightarrow> byte \<Rightarrow> ('k, 'i) invalid_chain list" where
  "invalid_chains E seed = spuriously_built E seed @ rejected_by_building E seed"

section \<open>The tests of chain building\<close>

fun populate :: "'c cert_cache \<Rightarrow> 'i identity list \<Rightarrow> 'c \<Rightarrow> 'c run" where
  "populate C [] c = Ret c"
| "populate C (x # xs) c = run_bind (cc_insert C (UntrustedCert (id_cert x)) c) (populate C xs)"

definition test_cache :: "('h, 'd, 'k, 'i) issue_env \<Rightarrow> 'm moka_lib \<Rightarrow> 'm cert_cache" where
  "test_cache E M = memory_cert_cache (ie_debug E) M"

definition new_test_cache :: "'m moka_lib \<Rightarrow> 'm" where
  "new_test_cache M = memory_cache_new M (1024 * 1024)"

definition prop_valid_chain_building ::
  "('h, 'd, 'k, 'i) issue_env \<Rightarrow> 'm moka_lib \<Rightarrow> 'i identity \<Rightarrow> root_set \<Rightarrow> 'i test_chain \<Rightarrow> nat \<Rightarrow> unit run" where
  "prop_valid_chain_building E M ca rs chain t =
     run_bind (populate (test_cache E M) (tc_intermediates chain) (new_test_cache M)) (\<lambda>c.
     run_bind (builder_new_intermediate E ''Random Extra CA'' ca t) (\<lambda>(b, t1).
     run_bind (intermediate_build E (allowed_domain ''itsallbroken.com'' b) t1) (\<lambda>(extra, t2).
     run_bind (cc_insert (test_cache E M) (UntrustedCert (id_cert extra)) c) (\<lambda>c1.
     run_bind (build_unverified_chain_for rs (test_cache E M) (UntrustedCert (id_cert (tc_leaf chain))) c1) (\<lambda>(r, c2).
     expect r ''valid chain'' (\<lambda>got.
     assert_that (length (as_slice got) = length (tc_intermediates chain)) ''assertion `left == right` failed''
       (assert_that (list_all (\<lambda>(g, i). fingerprint_eq (untrusted_fingerprint g) (cert_fingerprint (id_cert i)))
          (zip (as_slice got) (rev (tc_intermediates chain)))) ''assertion `left == right` failed'' (Ret ()))))))))"

definition prop_missing_intermediate ::
  "('h, 'd, 'k, 'i) issue_env \<Rightarrow> 'm moka_lib \<Rightarrow> 'i identity \<Rightarrow> root_set \<Rightarrow> byte \<Rightarrow> byte \<Rightarrow> nat \<Rightarrow> unit run" where
  "prop_missing_intermediate E M ca rs n_intermediates seed t =
     run_bind (test_chain_build E ca n_intermediates (MissingIntermediateMutator seed) t) (\<lambda>(chain, dropped, t1).
     case dropped of
       None \<Rightarrow> Panic ''called `Option::unwrap()` on a `None` value''
     | Some dropped \<Rightarrow>
         run_bind (populate (test_cache E M) (tc_intermediates chain) (new_test_cache M)) (\<lambda>c.
         run_bind (build_unverified_chain_for rs (test_cache E M) (UntrustedCert (id_cert (tc_leaf chain))) c) (\<lambda>(r, c1).
           case r of
             Inr _ \<Rightarrow> Panic ''invalid chain''
           | Inl (MissingIntermediate got) \<Rightarrow>
               assert_that (dc_issuer_eq_dc_cert (issuer_as_dangerous_comparable got)
                   (as_dangerous_comparable (cert_cert_id (id_cert dropped))))
                 ''assertion `left == right` failed'' (Ret ())
           | Inl _ \<Rightarrow> Panic ''assertion failed'')))"

definition prop_spuriously_accepted_invalid_chains ::
  "('h, 'd, 'k, 'i) issue_env \<Rightarrow> 'm moka_lib \<Rightarrow> root_set \<Rightarrow> 'i test_chain \<Rightarrow> unit run" where
  "prop_spuriously_accepted_invalid_chains E M rs chain =
     run_bind (populate (test_cache E M) (tc_intermediates chain) (new_test_cache M)) (\<lambda>c.
     run_bind (build_unverified_chain_for rs (test_cache E M) (UntrustedCert (id_cert (tc_leaf chain))) c) (\<lambda>(r, c1).
       expect r ''invalid chain spuriously accepted'' (\<lambda>_. Ret ())))"

section \<open>The tests of the trust store\<close>

definition test_prop_validate ::
  "('h, 'd, 'k, 'i) issue_env \<Rightarrow> 'm moka_lib \<Rightarrow> root_set \<Rightarrow> 'i test_chain \<Rightarrow> unit run" where
  "test_prop_validate E M rs chain =
     (let store = trust_store_new (into_array rs) (new_test_cache M) in
      run_bind (add_certs (test_cache E M)
          (map (UntrustedCert \<circ> id_cert) (tc_intermediates chain @ [tc_leaf chain])) store) (\<lambda>store.
      run_bind (signature_try_from [42]) (\<lambda>sig.
      expect sig ''well formed'' (\<lambda>sig.
      run_bind (validate (test_cache E M) (cert_cert_id (id_cert (tc_leaf chain))) sig [] store) (\<lambda>(r, store).
        expect r ''valid chain'' Ret)))))"

definition test_prop_missing_local_certificate ::
  "('h, 'd, 'k, 'i) issue_env \<Rightarrow> 'm moka_lib \<Rightarrow> root_set \<Rightarrow> 'i test_chain \<Rightarrow> 'i identity option \<Rightarrow> bool \<Rightarrow> unit run" where
  "test_prop_missing_local_certificate E M rs chain dropped drop_leaf =
     (let store = trust_store_new (into_array rs) (new_test_cache M);
          maybe_leaf = (if drop_leaf then [] else [tc_leaf chain])
      in run_bind (add_certs (test_cache E M)
          (map (UntrustedCert \<circ> id_cert) (tc_intermediates chain @ maybe_leaf)) store) (\<lambda>store.
      run_bind (signature_try_from [42]) (\<lambda>sig.
      expect sig ''well formed'' (\<lambda>sig.
      run_bind (validate (test_cache E M) (cert_cert_id (id_cert (tc_leaf chain))) sig [] store) (\<lambda>(r, store).
        case r of
          Inr _ \<Rightarrow> Panic ''has missing cert''
        | Inl err \<Rightarrow>
            run_bind
              (if drop_leaf then
                 (case err of
                    MissingLeafCert i \<Rightarrow> Ret (cert_cert_id (id_cert (tc_leaf chain)), i)
                  | _ \<Rightarrow> Panic ''assertion failed'')
               else
                 (case dropped of
                    None \<Rightarrow> Panic ''called `Option::unwrap()` on a `None` value''
                  | Some d \<Rightarrow>
                      (case err of
                         ChainBuild (MissingIntermediate i) \<Rightarrow> Ret (cert_cert_id (id_cert d), as_cert_id i)
                       | _ \<Rightarrow> Panic ''assertion failed'')))
              (\<lambda>(want, got).
                assert_that (dc_cert_eq_dc_cert (as_dangerous_comparable want) (as_dangerous_comparable got))
                  ''assertion `left == right` failed'' (Ret ())))))))"

section \<open>The tests of verification\<close>

definition DEFAULT_LEAF_SAN :: string where
  "DEFAULT_LEAF_SAN = ''leaf.itsallbroken.com''"

definition test_prop_invalid_chain ::
  "('h, 'd, 'k, 'i) issue_env \<Rightarrow> 'm moka_lib \<Rightarrow> ('a, 'e) webpki_lib \<Rightarrow> unix_time \<Rightarrow> (string \<Rightarrow> string + server_name)
     \<Rightarrow> 'i identity \<Rightarrow> root_set \<Rightarrow> (chain_error \<Rightarrow> bool) \<Rightarrow> 'i test_chain \<Rightarrow> unit run" where
  "test_prop_invalid_chain E M W now parse ca rs assert_err input =
     run_bind (populate (test_cache E M) (tc_intermediates input) (new_test_cache M)) (\<lambda>c.
     run_bind (build_unverified_chain_for rs (test_cache E M) (UntrustedCert (id_cert (tc_leaf input))) c) (\<lambda>(chain, c1).
       case chain of
         Inl e \<Rightarrow> assert_that (assert_err (Build e)) ''assertion failed'' (Ret ())
       | Inr v \<Rightarrow>
           expect (endpoint_hostname_try_from parse DEFAULT_LEAF_SAN) ''called `Result::unwrap()` on an `Err` value''
             (\<lambda>dns_name.
              run_bind (verify_chain W now (root_cert ca) (UntrustedCert (id_cert (tc_leaf input))) v
                RequireCodeSigning dns_name) (\<lambda>r.
                case r of
                  Inr _ \<Rightarrow> Panic ''invalid chain must be rejected''
                | Inl err \<Rightarrow> assert_that (assert_err (Verify err)) ''assertion failed'' (Ret ())))))"

definition test_prop_valid_chain ::
  "('h, 'd, 'k, 'i) issue_env \<Rightarrow> 'm moka_lib \<Rightarrow> ('a, 'e) webpki_lib \<Rightarrow> unix_time \<Rightarrow> (string \<Rightarrow> string + server_name)
     \<Rightarrow> 'i identity \<Rightarrow> root_set \<Rightarrow> 'i test_chain \<Rightarrow> nat \<Rightarrow> unit run" where
  "test_prop_valid_chain E M W now parse ca rs input t =
     run_bind (populate (test_cache E M) (tc_intermediates input) (new_test_cache M)) (\<lambda>c.
     run_bind (builder_new_intermediate E ''Random Extra CA'' ca t) (\<lambda>(b, t1).
     run_bind (intermediate_build E (allowed_domain ''itsallbroken.com'' b) t1) (\<lambda>(extra, t2).
     run_bind (cc_insert (test_cache E M) (UntrustedCert (id_cert extra)) c) (\<lambda>c1.
     run_bind (build_unverified_chain_for rs (test_cache E M) (UntrustedCert (id_cert (tc_leaf input))) c1) (\<lambda>(r, c2).
     expect r ''valid chain'' (\<lambda>chain.
     expect (endpoint_hostname_try_from parse DEFAULT_LEAF_SAN) ''called `Result::unwrap()` on an `Err` value'' (\<lambda>dns_name.
     run_bind (verify_chain W now (root_cert ca) (UntrustedCert (id_cert (tc_leaf input))) chain
         RequireCodeSigning dns_name) (\<lambda>got.
     expect got ''successfully validated chain'' (\<lambda>got.
     assert_that (fingerprint_eq (cert_fingerprint got) (cert_fingerprint (id_cert (tc_leaf input))))
       ''assertion `left == right` failed'' (Ret ()))))))))))"

definition test_prop_chain_walk_limits ::
  "('h, 'd, 'k, 'i) issue_env \<Rightarrow> 'm moka_lib \<Rightarrow> ('a, 'e) webpki_lib \<Rightarrow> unix_time \<Rightarrow> (string \<Rightarrow> string + server_name)
     \<Rightarrow> 'i identity \<Rightarrow> root_set \<Rightarrow> 'i test_chain \<Rightarrow> unit run" where
  "test_prop_chain_walk_limits E M W now parse ca rs input =
     run_bind (populate (test_cache E M) (tc_intermediates input) (new_test_cache M)) (\<lambda>c.
     let leaf = UntrustedCert (id_cert (tc_leaf input)) in
     run_bind (build_unverified_chain_for rs (test_cache E M) leaf c) (\<lambda>(r, c1).
       case r of
         Inl e \<Rightarrow>
           assert_that (e = ExcessivelyLongChain) ''assertion failed''
             (assert_that (length (tc_intermediates input) > MAX_INTERMEDIATES) ''assertion failed'' (Ret ()))
       | Inr chain \<Rightarrow>
           assert_that (length (tc_intermediates input) \<le> MAX_INTERMEDIATES) ''assertion failed''
             (expect (endpoint_hostname_try_from parse DEFAULT_LEAF_SAN) ''called `Result::unwrap()` on an `Err` value''
               (\<lambda>dns_name.
                run_bind (verify_chain W now (root_cert ca) leaf chain RequireCodeSigning dns_name) (\<lambda>r.
                  expect r ''a chain within the path depth limit must be accepted'' (\<lambda>_. Ret ()))))))"

text \<open>A certificate may sign code if it names no purposes or names code signing.\<close>

definition code_signing_permitted :: "extended_key_usage_purpose list \<Rightarrow> bool" where
  "code_signing_permitted ekus \<longleftrightarrow> ekus = [] \<or> CodeSigning \<in> set ekus"

text \<open>The assertions of \<open>test_prop_eku_policy\<close> on the result of the verification.\<close>

definition normalised_ekus :: "byte \<Rightarrow> chain_eku_config \<Rightarrow> chain_eku_config" where
  "normalised_ekus n_intermediates ekus =
     (if n_intermediates = 0 then
        (case ekus of
           IntermediatesOnly _ \<Rightarrow> IntermediatesOnly []
         | IntermediatesAndLeaf _ leaf \<Rightarrow> LeafOnly leaf
         | other \<Rightarrow> other)
      else ekus)"

definition assert_ok :: "chain_verify_error + 'c \<Rightarrow> unit run" where
  "assert_ok result = assert_that (is_ok result) ''assertion failed'' (Ret ())"

definition assert_required_eku :: "chain_verify_error + 'c \<Rightarrow> unit run" where
  "assert_required_eku result =
     assert_that (case result of Inl e \<Rightarrow> is_RequiredEKU e | Inr _ \<Rightarrow> False) ''assertion failed'' (Ret ())"

definition eku_policy_assertions :: "byte \<Rightarrow> chain_eku_config \<Rightarrow> chain_verify_error + 'c \<Rightarrow> unit run" where
  "eku_policy_assertions n_intermediates cfg result =
     (let ekus = normalised_ekus n_intermediates cfg;
          is_codesign = (\<lambda>v. v = CodeSigning);
          is_not_codesign = (\<lambda>v. v \<noteq> CodeSigning)
      in if length (eku_union ekus) = 0 then assert_ok result
         else if list_ex is_codesign (eku_leaf ekus) \<and> list_ex is_codesign (eku_intermediates ekus)
         then assert_ok result
         else if list_ex is_codesign (eku_leaf ekus) then
           (if length (eku_intermediates ekus) = 0 then assert_ok result
            else assert_that (list_all is_not_codesign (eku_intermediates ekus)) ''assertion failed''
              (assert_required_eku result))
         else if list_ex is_codesign (eku_intermediates ekus) then
           (if length (eku_leaf ekus) = 0 then assert_ok result
            else assert_that (list_all is_not_codesign (eku_leaf ekus)) ''assertion failed''
              (assert_required_eku result))
         else if length (eku_leaf ekus) > 0 \<and> list_all is_not_codesign (eku_leaf ekus)
         then assert_required_eku result
         else if length (eku_intermediates ekus) > 0 \<and> list_all is_not_codesign (eku_intermediates ekus)
         then assert_required_eku result
         else Panic ''internal error: entered unreachable code: all permutations are covered by checks above'')"

definition test_prop_eku_policy ::
  "('h, 'd, 'k, 'i) issue_env \<Rightarrow> 'm moka_lib \<Rightarrow> ('a, 'e) webpki_lib \<Rightarrow> unix_time \<Rightarrow> (string \<Rightarrow> string + server_name)
     \<Rightarrow> 'i identity \<Rightarrow> root_set \<Rightarrow> chain_eku_config \<Rightarrow> byte \<Rightarrow> nat \<Rightarrow> unit run" where
  "test_prop_eku_policy E M W now parse ca rs ekus n_intermediates t =
     run_bind (test_chain_build E ca n_intermediates (SetEKUs ekus) t) (\<lambda>(chain, _, t1).
     run_bind (populate (test_cache E M) (tc_intermediates chain) (new_test_cache M)) (\<lambda>c.
     let untrusted_leaf = UntrustedCert (id_cert (tc_leaf chain)) in
     run_bind (build_unverified_chain_for rs (test_cache E M) untrusted_leaf c) (\<lambda>(r, c1).
     expect r ''valid chain structure'' (\<lambda>candidate_chain.
     expect (endpoint_hostname_try_from parse DEFAULT_LEAF_SAN) ''called `Result::unwrap()` on an `Err` value'' (\<lambda>dns_name.
     run_bind (verify_chain W now (root_cert ca) untrusted_leaf candidate_chain RequireCodeSigning dns_name)
       (eku_policy_assertions n_intermediates ekus))))))"

text \<open>The assertions of \<open>test_prop_dc_pin\<close>.\<close>

definition dc_pin_assertions ::
  "string \<Rightarrow> name_constraint_scenario \<Rightarrow> leaf_san_scenario \<Rightarrow> chain_verify_error + 'c \<Rightarrow> unit run" where
  "dc_pin_assertions connected_endpoint ns_scenario san_scenario result =
     (if \<not> list_all (permits ns_scenario) (leaf_sans san_scenario) then
        assert_that (case result of Inl e \<Rightarrow> e = ChainNameConstraint | Inr _ \<Rightarrow> False)
          ''chain with mismatched name constraint must be rejected'' (Ret ())
      else if connected_endpoint \<notin> set (leaf_sans san_scenario) then
        (case result of
           Inl (LeafNameMismatch exp_name cert) \<Rightarrow>
             assert_that (exp_name \<notin> set cert) ''assertion failed''
               (assert_that (exp_name = connected_endpoint) ''assertion `left == right` failed'' (Ret ()))
         | _ \<Rightarrow> Panic ''leaf that does not assert the connected endpoint must be rejected'')
      else expect result ''chain with valid name constraints and leaf SAN must be accepted'' (\<lambda>_. Ret ()))"

definition test_prop_dc_pin ::
  "('h, 'd, 'k, 'i) issue_env \<Rightarrow> 'm moka_lib \<Rightarrow> ('a, 'e) webpki_lib \<Rightarrow> unix_time \<Rightarrow> (string \<Rightarrow> string + server_name)
     \<Rightarrow> 'i identity \<Rightarrow> root_set \<Rightarrow> string \<Rightarrow> name_constraint_scenario \<Rightarrow> leaf_san_scenario \<Rightarrow> byte \<Rightarrow> nat \<Rightarrow> unit run" where
  "test_prop_dc_pin E M W now parse ca rs connected_endpoint ns_scenario san_scenario n_intermediates t =
     run_bind (test_chain_build E ca n_intermediates (SetNameConstraints ns_scenario san_scenario) t) (\<lambda>(chain, _, t1).
     run_bind (populate (test_cache E M) (tc_intermediates chain) (new_test_cache M)) (\<lambda>c.
     run_bind (build_unverified_chain_for rs (test_cache E M) (UntrustedCert (id_cert (tc_leaf chain))) c) (\<lambda>(r, c1).
     expect r ''valid chain structure'' (\<lambda>candidate_chain.
     expect (endpoint_hostname_try_from parse connected_endpoint) ''called `Result::unwrap()` on an `Err` value'' (\<lambda>dns_name.
     run_bind (verify_chain W now (root_cert ca) (UntrustedCert (id_cert (tc_leaf chain))) candidate_chain
         RequireCodeSigning dns_name)
       (dc_pin_assertions connected_endpoint ns_scenario san_scenario))))))"

section \<open>The filled cache\<close>

text \<open>A certificate is small enough if its weight in the cache does not overflow in a checked build.\<close>

definition fits :: "bool \<Rightarrow> 'i identity \<Rightarrow> bool" where
  "fits debug x \<longleftrightarrow> debug \<longrightarrow> op_fits (OpInsert (UntrustedCert (id_cert x)))"

fun inserted :: "(bytes \<Rightarrow> untrusted_cert option) \<Rightarrow> 'i identity list \<Rightarrow> bytes \<Rightarrow> untrusted_cert option" where
  "inserted L [] = L"
| "inserted L (x # xs) = inserted (L(id_bytes x \<mapsto> UntrustedCert (id_cert x))) xs"

lemma inserted_other: "b \<notin> id_bytes ` set xs \<Longrightarrow> inserted L xs b = L b"
  by (induction xs arbitrary: L) auto

lemma inserted_own:
  "distinct (map id_bytes xs) \<Longrightarrow> x \<in> set xs \<Longrightarrow> inserted L xs (id_bytes x) = Some (UntrustedCert (id_cert x))"
proof (induction xs arbitrary: L)
  case (Cons y ys)
  then show ?case
    using inserted_other [of "id_bytes x" ys "L(id_bytes y \<mapsto> UntrustedCert (id_cert y))"]
    by (cases "x = y") auto
qed simp

lemma memory_cache_insert_returns:
  assumes "fits debug x"
  shows "\<exists>w. memory_cache_insert debug M (UntrustedCert (id_cert x)) m =
      Ret (mk_insert M (id_bytes x) (UntrustedCert (id_cert x)) w m)"
proof (cases debug)
  case True
  then show ?thesis
    using memory_cache_insert_fits [of "UntrustedCert (id_cert x)" debug M m] assms
    by (simp add: fits_def untrusted_cert_id_def)
next
  case False
  then show ?thesis
    by (auto simp: memory_cache_insert_def weight_estimator_def untrusted_cert_id_def Let_def)
qed

lemma insert_keeps:
  assumes "keeps M L m" and "fits debug x"
  shows "\<exists>m'. cc_insert (memory_cert_cache debug M) (UntrustedCert (id_cert x)) m = Ret m'
    \<and> keeps M (L(id_bytes x \<mapsto> UntrustedCert (id_cert x))) m'"
proof -
  obtain ct where ct: "moka_keeps M ct" "ct m = L" "own_keys L" using assms(1) by (auto simp: keeps_def)
  obtain w where "memory_cache_insert debug M (UntrustedCert (id_cert x)) m =
      Ret (mk_insert M (id_bytes x) (UntrustedCert (id_cert x)) w m)"
    using memory_cache_insert_returns [OF assms(2), of M m] by blast
  moreover have "own_keys (L(id_bytes x \<mapsto> UntrustedCert (id_cert x)))"
    using ct(3) by (simp add: own_keys_def untrusted_cert_id_def)
  moreover have "ct (mk_insert M (id_bytes x) (UntrustedCert (id_cert x)) v m) =
      L(id_bytes x \<mapsto> UntrustedCert (id_cert x))" for v
    using ct(1,2) by (simp add: moka_keeps_def)
  ultimately show ?thesis
    using ct(1) by (auto simp: memory_cert_cache_def keeps_def)
qed

lemma populate_keeps:
  "keeps M L m \<Longrightarrow> \<forall>x \<in> set xs. fits (ie_debug E) x \<Longrightarrow>
     \<exists>m'. populate (test_cache E M) xs m = Ret m' \<and> keeps M (inserted L xs) m'"
proof (induction xs arbitrary: L m)
  case (Cons x xs)
  obtain m1 where "cc_insert (test_cache E M) (UntrustedCert (id_cert x)) m = Ret m1"
    "keeps M (L(id_bytes x \<mapsto> UntrustedCert (id_cert x))) m1"
    using insert_keeps [OF Cons.prems(1), of "ie_debug E" x] Cons.prems(2) by (auto simp: test_cache_def)
  then show ?case using Cons.IH [of "L(id_bytes x \<mapsto> UntrustedCert (id_cert x))" m1] Cons.prems(2)
    by (simp del: fun_upd_apply)
qed simp

lemma add_certs_keeps:
  "keeps M L (ts_cache st) \<Longrightarrow> \<forall>x \<in> set xs. fits (ie_debug E) x \<Longrightarrow>
     \<exists>st'. add_certs (test_cache E M) (map (UntrustedCert \<circ> id_cert) xs) st = Ret st'
       \<and> keeps M (inserted L xs) (ts_cache st') \<and> ts_roots st' = ts_roots st"
proof (induction xs arbitrary: L st)
  case (Cons x xs)
  obtain m1 where "cc_insert (test_cache E M) (UntrustedCert (id_cert x)) (ts_cache st) = Ret m1"
    "keeps M (L(id_bytes x \<mapsto> UntrustedCert (id_cert x))) m1"
    using insert_keeps [OF Cons.prems(1), of "ie_debug E" x] Cons.prems(2) by (auto simp: test_cache_def)
  then show ?case
    using Cons.IH [of "L(id_bytes x \<mapsto> UntrustedCert (id_cert x))" "st\<lparr>ts_cache := m1\<rparr>"] Cons.prems(2)
    by (simp del: fun_upd_apply)
qed simp

lemma new_cache_keeps: "moka_keeps M ct \<Longrightarrow> keeps M Map.empty (new_test_cache M)"
  by (auto simp: keeps_def own_keys_def new_test_cache_def memory_cache_new_def moka_keeps_def)

section \<open>The two authorities\<close>

lemma test_ca_root_Ret:
  assumes "issuing_laws E" "issuing_succeeds E" "test_ca_root E t0 = Ret (ca, t1)"
  shows "t1 = t0 + 2" "identity_ok E ca" "id_bytes ca = draw_ski E t0"
  using test_ca_root_made [OF assms(1,2), of t0] assms(3) by (auto simp: made_def)

lemma roots_lookup:
  assumes laws: "issuing_laws E" "issuing_succeeds E" and fresh: "fresh_ids E T"
    and ca: "test_ca_root E t0 = Ret (ca1, t1)" "test_ca_root E t1 = Ret (ca2, t2)"
    and rs: "rs \<in> set (ordered_root_sets ca1 ca2)" and T: "t2 \<le> T"
  shows "root_for rs (id_bytes ca1) = Some (root_cert ca1)"
    and "b \<notin> {draw_ski E t0, draw_ski E t1} \<Longrightarrow> root_for rs b = None"
proof -
  note c1 = test_ca_root_Ret [OF laws ca(1)] and c2 = test_ca_root_Ret [OF laws ca(2)]
  have "draw_ski E t0 \<noteq> draw_ski E t1"
    using fresh c1(1) c2(1) T by (auto simp: fresh_ids_def dest!: inj_onD [of _ _ t0 t1])
  then show "root_for rs (id_bytes ca1) = Some (root_cert ca1)"
    using rs c1(3) c2(3) by (auto simp: ordered_root_sets_def root_for_def root_set_new_def root_cert_def from_trusted_cert_def)
  show "root_for rs b = None" if "b \<notin> {draw_ski E t0, draw_ski E t1}"
    using that rs c1(3) c2(3) by (auto simp: ordered_root_sets_def root_for_def root_set_new_def root_cert_def from_trusted_cert_def)
qed

lemma drawn_avoids:
  assumes "fresh_ids E T" "drawn E t t' xs" "t' \<le> T" "x \<in> set xs" "s < t" "s < T"
  shows "id_bytes x \<noteq> draw_ski E s"
proof
  assume "id_bytes x = draw_ski E s"
  moreover have "id_bytes x \<in> set (map id_bytes xs)" using assms(4) by simp
  ultimately show False using drawn_distinct(2) [OF assms(1-3,5,6)] by simp
qed

lemma drawn_no_root:
  assumes laws: "issuing_laws E" "issuing_succeeds E" and fresh: "fresh_ids E T"
    and ca: "test_ca_root E t0 = Ret (ca1, t1)" "test_ca_root E t1 = Ret (ca2, t2)"
    and rs: "rs \<in> set (ordered_root_sets ca1 ca2)"
    and d: "drawn E t2 t' xs" "t' \<le> T" "t2 \<le> T" "x \<in> set xs"
  shows "root_for rs (id_bytes x) = None"
proof -
  have t: "t0 < t2" "t1 < t2" using test_ca_root_Ret(1) [OF laws ca(1)] test_ca_root_Ret(1) [OF laws ca(2)] by simp_all
  then have "t0 < T" "t1 < T" using d(3) by simp_all
  then show ?thesis
    using drawn_avoids [OF fresh d(1,2,4) t(1)] drawn_avoids [OF fresh d(1,2,4) t(2)]
    by (intro roots_lookup(2) [OF laws fresh ca rs d(3)]) simp
qed

text \<open>Candidates with cached intermediates are built exactly.\<close>

lemma candidate_built:
  assumes laws: "issuing_laws E" "issuing_succeeds E" and fresh: "fresh_ids E T"
    and ca: "test_ca_root E t0 = Ret (ca1, t1)" "test_ca_root E t1 = Ret (ca2, t2)"
    and rs: "rs \<in> set (ordered_root_sets ca1 ca2)"
    and chain: "candidate E t2 t' chain" "tc_root chain = ca1" "t' \<le> T" "t2 \<le> T" "length (tc_intermediates chain) \<le> 6"
    and m: "keeps M L m" and L: "\<forall>x \<in> set (tc_intermediates chain). L (id_bytes x) = Some (UntrustedCert (id_cert x))"
  shows "\<exists>m'. build_unverified_chain_for rs (test_cache E M) (UntrustedCert (id_cert (tc_leaf chain))) m =
    Ret (Ok (UntrustedChain (root_cert ca1) (map UntrustedCert (rev (map id_cert (tc_intermediates chain))))), m')"
proof -
  let ?ints = "tc_intermediates chain"
  note roots = roots_lookup [OF laws fresh ca rs chain(4)]
  have d: "drawn E t2 t' ?ints" using chain(1) by (simp add: candidate_def)
  have no_root: "root_for rs (own_id x) = None" if "x \<in> set (map id_cert ?ints)" for x
    using that drawn_no_root [OF laws fresh ca rs d chain(3,4)] by auto
  have "\<exists>m'. keeps M L m' \<and> build_loop rs (memory_cert_cache (ie_debug E) M)
      (cert_issuer_cert_id (id_cert (tc_leaf chain))) [] m =
      Ret (Ok (UntrustedChain (root_cert ca1) ([] @ map UntrustedCert (rev (map id_cert ?ints)))), m')"
  proof (rule memory_answers.build_loop_linked [OF _ _ roots(1) m])
    show "linked (id_bytes ca1) (map id_cert ?ints)" using chain(1,2) by (simp add: candidate_def)
    show "issuer_cert_id_as_bytes (cert_issuer_cert_id (id_cert (tc_leaf chain))) = last_id (id_bytes ca1) (map id_cert ?ints)"
      using chain(1,2) by (simp add: candidate_def last_id_last_or)
  qed (use L no_root chain(5) in auto)
  then show ?thesis
    by (auto simp: build_unverified_chain_for_def test_cache_def untrusted_issuer_cert_id_def)
qed

section \<open>Chains that building accepts\<close>

lemma seeded_candidate:
  assumes "issuing_laws E" "issuing_succeeds E" "identity_ok E root" "n \<noteq> 255" "n \<noteq> 0" and "gentle E f"
  shows "builds_candidate E root n t (seeded_mutator seed f msg)"
proof -
  have "unat n \<noteq> 0" using assms(5) by (simp add: unat_eq_zero)
  then show ?thesis
    by (intro tame_builds_candidate [OF assms(1-4) tame_seeded [OF assms(6)]])
      (auto simp: seeded_mutator_def assert_that_def)
qed

lemma leaf_candidate:
  assumes "issuing_laws E" "issuing_succeeds E" "identity_ok E root" "n \<noteq> 255" and "gentle_leaf E f"
  shows "builds_candidate E root n t (leaf_mutator f)"
  by (rule tame_builds_candidate [OF assms(1-4) tame_leaf_mutator [OF assms(5)]])
    (simp add: leaf_mutator_def ValidChain_def)

lemma spurious_candidate:
  assumes laws: "issuing_laws E" "issuing_succeeds E" "identity_ok E root" "n \<noteq> 255" and n: "2 \<le> unat n"
    and ic: "ic \<in> set (spuriously_built E seed)"
  shows "builds_candidate E root n t (ic_mutator ic)"
proof -
  have n0: "n \<noteq> 0" using n by auto
  note dates = succeeds_dates [OF laws(2)]
  note seeded = seeded_candidate [OF laws n0] and leaf = leaf_candidate [OF laws]
  have path: "builds_candidate E root n t PathLenViolation"
    by (rule tame_builds_candidate [OF laws tame_PathLenViolation]) (use n in \<open>simp add: PathLenViolation_def\<close>)
  have san: "builds_candidate E root n t MismatchedLeafSan"
    by (rule tame_builds_candidate [OF laws tame_MismatchedLeafSan]) (simp add: MismatchedLeafSan_def)
  have ints: "builds_candidate E root n t (ExpiredIntermediate E seed)"
    "builds_candidate E root n t (FutureValidIntermediate E seed)"
    "builds_candidate E root n t (PreEpochIntermediate E seed)"
    "builds_candidate E root n t (NonCaIntermediate seed)"
    "builds_candidate E root n t (CriticalExtensionIntermediate seed)"
    using dates unfolding ExpiredIntermediate_def FutureValidIntermediate_def PreEpochIntermediate_def
      NonCaIntermediate_def CriticalExtensionIntermediate_def
    by (auto intro!: seeded gentle_setters)
  have leaves: "builds_candidate E root n t (ExpiredLeaf E)" "builds_candidate E root n t (FutureValidLeaf E)"
    "builds_candidate E root n t (PreEpochLeaf E)" "builds_candidate E root n t CaSignerLeaf"
    "builds_candidate E root n t CriticalExtensionLeaf"
    using dates unfolding ExpiredLeaf_def FutureValidLeaf_def PreEpochLeaf_def CaSignerLeaf_def CriticalExtensionLeaf_def
    by (auto intro!: leaf gentle_leaf_setters)
  show ?thesis
    using ic ints leaves path san ForgedLeaf_candidate [OF laws, of t] OrphanLeaf_candidate [OF laws, of t]
      ForgedIntermediate_candidate [OF laws n0, of t seed]
    unfolding spuriously_built_def by auto
qed

lemma populated:
  assumes "moka_keeps M ct" and "distinct (map id_bytes xs)" and "\<forall>x \<in> set xs. fits (ie_debug E) x"
  shows "\<exists>m L. populate (test_cache E M) xs (new_test_cache M) = Ret m \<and> keeps M L m
    \<and> (\<forall>x \<in> set xs. L (id_bytes x) = Some (UntrustedCert (id_cert x)))
    \<and> (\<forall>b. b \<notin> id_bytes ` set xs \<longrightarrow> L b = None)"
proof -
  obtain m where "populate (test_cache E M) xs (new_test_cache M) = Ret m" "keeps M (inserted Map.empty xs) m"
    using populate_keeps [OF new_cache_keeps [OF assms(1)] assms(3)] by blast
  then show ?thesis
    using inserted_own [OF assms(2)] inserted_other [of _ xs Map.empty]
    by (intro exI [of _ m] exI [of _ "inserted Map.empty xs"]) simp
qed

text \<open>The certificates of a chain as chain building returns them.\<close>

abbreviation full_chain :: "'i identity \<Rightarrow> 'i test_chain \<Rightarrow> untrusted_chain" where
  "full_chain ca chain \<equiv> UntrustedChain (root_cert ca) (map UntrustedCert (rev (map id_cert (tc_intermediates chain))))"

lemma built_from_cache:
  assumes laws: "issuing_laws E" "issuing_succeeds E" "fresh_ids E T" "moka_keeps M ct"
    and ca: "test_ca_root E t0 = Ret (ca1, t1)" "test_ca_root E t1 = Ret (ca2, t2)"
    and rs: "rs \<in> set (ordered_root_sets ca1 ca2)"
    and n: "n \<noteq> 255" "unat n \<le> 6" "t2 + 3 * unat n + 20 \<le> T" and m: "builds_candidate E ca1 n t2 m"
  shows "\<exists>chain t'. test_chain_build E ca1 n m t2 = Ret (chain, None, t')
    \<and> ((\<forall>x \<in> set (tc_intermediates chain). fits (ie_debug E) x) \<longrightarrow>
        (\<exists>c c'. populate (test_cache E M) (tc_intermediates chain) (new_test_cache M) = Ret c
          \<and> build_unverified_chain_for rs (test_cache E M) (UntrustedCert (id_cert (tc_leaf chain))) c =
              Ret (Ok (full_chain ca1 chain), c')))"
proof -
  obtain chain t' where chain: "test_chain_build E ca1 n m t2 = Ret (chain, None, t')"
    "tc_root chain = ca1" "length (tc_intermediates chain) \<le> unat n" "candidate E t2 t' chain" "t' \<le> t2 + 3 * unat n + 20"
    using m by (auto simp: builds_candidate_def)
  have T: "t' \<le> T" "t2 \<le> T" "length (tc_intermediates chain) \<le> 6" using n chain(3,5) by simp_all
  have d: "drawn E t2 t' (tc_intermediates chain)" using chain(4) by (simp add: candidate_def)
  have "\<exists>c c'. populate (test_cache E M) (tc_intermediates chain) (new_test_cache M) = Ret c
      \<and> build_unverified_chain_for rs (test_cache E M) (UntrustedCert (id_cert (tc_leaf chain))) c =
          Ret (Ok (full_chain ca1 chain), c')"
    if fit: "\<forall>x \<in> set (tc_intermediates chain). fits (ie_debug E) x"
  proof -
    obtain c L where c: "populate (test_cache E M) (tc_intermediates chain) (new_test_cache M) = Ret c" "keeps M L c"
      "\<forall>x \<in> set (tc_intermediates chain). L (id_bytes x) = Some (UntrustedCert (id_cert x))"
      using populated [OF laws(4) drawn_distinct(1) [OF laws(3) d T(1)] fit] by blast
    then show ?thesis using candidate_built [OF laws(1-3) ca rs chain(4,2) T c(2,3)] by blast
  qed
  then show ?thesis using chain(1) by blast
qed

lemma accepted_by_verifier:
  "run_bind v (\<lambda>r. expect r msg (\<lambda>_. Ret ())) = Ret () \<longleftrightarrow> (\<exists>c. v = Ret (Ok c))"
  by (auto simp: run_bind_eq_Ret expect_eq_Ret)

lemma verify_chain_returns_leaf:
  "verify_chain W now root cert chain policy dns = Ret (Ok c) \<Longrightarrow> c = into_trusted cert"
  by (auto simp: verify_chain_def Let_def expect_eq_Ret try_op_eq_Ok)

lemma verdict_of_verifier:
  "run_bind v (\<lambda>r. case r of Inr _ \<Rightarrow> Panic msg | Inl err \<Rightarrow> assert_that (P err) msg' (Ret ())) = Ret () \<longleftrightarrow>
     (\<exists>err. v = Ret (Err err) \<and> P err)"
proof (cases v)
  case (Ret r)
  then show ?thesis by (cases r) (auto simp: outcome_simps)
qed simp

lemma invalid_chain_built:
  assumes "populate (test_cache E M) (tc_intermediates chain) (new_test_cache M) = Ret m"
    and "build_unverified_chain_for rs (test_cache E M) (UntrustedCert (id_cert (tc_leaf chain))) m = Ret (Ok v, m')"
  shows "test_prop_invalid_chain E M W now parse ca rs P chain = Ret () \<longleftrightarrow>
    (\<exists>dns err. endpoint_hostname_try_from parse DEFAULT_LEAF_SAN = Ok dns
       \<and> verify_chain W now (root_cert ca) (UntrustedCert (id_cert (tc_leaf chain))) v RequireCodeSigning dns = Ret (Err err)
       \<and> P (Verify err))"
  using assms
  by (cases "endpoint_hostname_try_from parse DEFAULT_LEAF_SAN")
    (simp_all add: test_prop_invalid_chain_def verdict_of_verifier)

lemma signature_42: "\<exists>sig. signature_try_from [42] = Ret (Ok sig)"
  by (simp add: signature_try_from_def MAX_LEN_def Let_def)

lemma test_cache_get:
  assumes "keeps M L m"
  shows "\<exists>m'. cc_get (test_cache E M) i m = Ret (L (cert_id_as_bytes i), m') \<and> keeps M L m'"
  using keeps_get [OF assms, of i] by (simp add: test_cache_def memory_cert_cache_def)

text \<open>A store filled with a list of identities.\<close>

lemma stored:
  assumes "moka_keeps M ct" and "distinct (map id_bytes xs)" and "\<forall>x \<in> set xs. fits (ie_debug E) x"
  shows "\<exists>st L. add_certs (test_cache E M) (map (UntrustedCert \<circ> id_cert) xs) (trust_store_new (into_array rs) (new_test_cache M)) = Ret st
    \<and> ts_roots st = rs \<and> keeps M L (ts_cache st)
    \<and> (\<forall>x \<in> set xs. L (id_bytes x) = Some (UntrustedCert (id_cert x)))
    \<and> (\<forall>b. b \<notin> id_bytes ` set xs \<longrightarrow> L b = None)"
proof -
  let ?st = "trust_store_new (into_array rs) (new_test_cache M)"
  obtain st where "add_certs (test_cache E M) (map (UntrustedCert \<circ> id_cert) xs) ?st = Ret st"
    "keeps M (inserted Map.empty xs) (ts_cache st)" "ts_roots st = ts_roots ?st"
    using add_certs_keeps [of M Map.empty ?st xs E] new_cache_keeps [OF assms(1)] assms(3)
    by (auto simp: trust_store_new_def)
  then show ?thesis
    using inserted_own [OF assms(2)] inserted_other [of _ xs Map.empty]
    by (intro exI [of _ st] exI [of _ "inserted Map.empty xs"])
      (simp add: trust_store_new_def into_array_def root_set_new_def)
qed

lemma issued_chain_drawn:
  assumes "issued_chain E m n t chain"
  shows "drawn E t (t + 3 * unat n + 1) (tc_intermediates chain @ [tc_leaf chain])"
proof (rule drawn_snoc)
  show "drawn E t (t + 3 * unat n) (tc_intermediates chain)"
    using issued_candidate [OF assms] by (simp add: candidate_def)
  show "id_bytes (tc_leaf chain) = draw_ski E (t + 3 * unat n)"
    using assms by (simp add: issued_chain_def made_def)
qed simp_all

lemma extra_issued:
  assumes "issuing_laws E" "issuing_succeeds E" "identity_ok E ca"
  shows "\<exists>extra b. builder_new_intermediate E ''Random Extra CA'' ca t = Ret (b, Suc t)
    \<and> intermediate_build E (allowed_domain d b) (Suc t) = Ret (extra, Suc (Suc (Suc t)))
    \<and> id_bytes extra = draw_ski E t"
  using intermediate_build_issues [OF assms(1,2), of "\<lparr>cb_params = fresh_params E t ''Random Extra CA'',
      cb_template = \<lparr>it_parent = ca, it_allowed_domains = [d], it_path_len = None\<rparr>\<rparr>" "Suc t"]
    assms(3) fresh_params_ok [OF assms(2)]
  by (auto simp: builder_new_intermediate_def cert_builder_new_returns [OF assms(2)] allowed_domain_def made_def
      trim_def is_whitespace_def)

lemma own_fingerprints:
  "list_all (\<lambda>(g, i). fingerprint_eq (untrusted_fingerprint g) (cert_fingerprint (id_cert i)))
     (zip (map UntrustedCert (rev (map id_cert xs))) (rev xs))"
  by (simp add: rev_map zip_map1 zip_same_conv_map list_all_iff untrusted_fingerprint_def fingerprint_eq_iff)

lemma built_beside_extra:
  assumes laws: "issuing_laws E" "issuing_succeeds E" "fresh_ids E T" "moka_keeps M ct"
    and ca: "test_ca_root E t0 = Ret (ca1, t1)" "test_ca_root E t1 = Ret (ca2, t2)"
    and rs: "rs \<in> set (ordered_root_sets ca1 ca2)"
    and chain: "candidate E t2 t chain" "tc_root chain = ca1" "t2 \<le> T" "length (tc_intermediates chain) \<le> 6"
    and t: "t2 \<le> t" "t \<le> t'" "Suc t' \<le> T"
    and fit: "\<forall>x \<in> set (tc_intermediates chain). fits (ie_debug E) x"
    and small: "\<forall>b t x t'. intermediate_build E b t = Ret (x, t') \<longrightarrow> fits (ie_debug E) x"
  shows "\<exists>m b extra m' m''. populate (test_cache E M) (tc_intermediates chain) (new_test_cache M) = Ret m
    \<and> builder_new_intermediate E ''Random Extra CA'' ca1 t' = Ret (b, Suc t')
    \<and> intermediate_build E (allowed_domain ''itsallbroken.com'' b) (Suc t') = Ret (extra, Suc (Suc (Suc t')))
    \<and> cc_insert (test_cache E M) (UntrustedCert (id_cert extra)) m = Ret m'
    \<and> build_unverified_chain_for rs (test_cache E M) (UntrustedCert (id_cert (tc_leaf chain))) m' =
        Ret (Ok (full_chain ca1 chain), m'')"
proof -
  let ?ints = "tc_intermediates chain"
  have tT: "t \<le> T" using t by simp
  have d: "drawn E t2 t ?ints" using chain(1) by (simp add: candidate_def)
  obtain extra b where extra: "builder_new_intermediate E ''Random Extra CA'' ca1 t' = Ret (b, Suc t')"
    "intermediate_build E (allowed_domain ''itsallbroken.com'' b) (Suc t') = Ret (extra, Suc (Suc (Suc t')))"
    "id_bytes extra = draw_ski E t'"
    using extra_issued [OF laws(1,2) test_ca_root_Ret(2) [OF laws(1,2) ca(1)]] by blast
  have "drawn E t2 (Suc t') (?ints @ [extra])" by (rule drawn_snoc [OF d extra(3)]) (use t in simp_all)
  from drawn_distinct(1) [OF laws(3) this t(3)]
  have new: "\<forall>x \<in> set ?ints. id_bytes x \<noteq> id_bytes extra" by (auto simp: image_iff)
  obtain m L where m: "populate (test_cache E M) ?ints (new_test_cache M) = Ret m" "keeps M L m"
    "\<forall>x \<in> set ?ints. L (id_bytes x) = Some (UntrustedCert (id_cert x))"
    using populated [OF laws(4) drawn_distinct(1) [OF laws(3) d tT] fit] by blast
  obtain m' where m': "cc_insert (test_cache E M) (UntrustedCert (id_cert extra)) m = Ret m'"
    "keeps M (L(id_bytes extra \<mapsto> UntrustedCert (id_cert extra))) m'"
    using insert_keeps [OF m(2) small [rule_format, OF extra(2)]] by (auto simp: test_cache_def)
  obtain m'' where "build_unverified_chain_for rs (test_cache E M) (UntrustedCert (id_cert (tc_leaf chain))) m' =
      Ret (Ok (UntrustedChain (root_cert ca1) (map UntrustedCert (rev (map id_cert ?ints)))), m'')"
    using candidate_built [OF laws(1-3) ca rs chain(1,2) tT chain(3,4) m'(2)] m(3) new by auto
  then show ?thesis using m(1) extra(1,2) m'(1) by blast
qed

text \<open>What both tests of valid chains come to, for a chain that is built beside the extra certificate.\<close>

lemma valid_tests_beside_extra:
  assumes "populate (test_cache E M) (tc_intermediates chain) (new_test_cache M) = Ret m"
    and "builder_new_intermediate E ''Random Extra CA'' ca1 t' = Ret (b, Suc t')"
    and "intermediate_build E (allowed_domain ''itsallbroken.com'' b) (Suc t') = Ret (extra, Suc (Suc (Suc t')))"
    and "cc_insert (test_cache E M) (UntrustedCert (id_cert extra)) m = Ret m'"
    and "build_unverified_chain_for rs (test_cache E M) (UntrustedCert (id_cert (tc_leaf chain))) m' =
      Ret (Ok (full_chain ca1 chain), m'')"
  shows "prop_valid_chain_building E M ca1 rs chain t' = Ret ()"
    and "test_prop_valid_chain E M W now parse ca1 rs chain t' = Ret () \<longleftrightarrow>
      (\<exists>dns c. endpoint_hostname_try_from parse DEFAULT_LEAF_SAN = Ok dns
        \<and> verify_chain W now (root_cert ca1) (UntrustedCert (id_cert (tc_leaf chain))) (full_chain ca1 chain)
            RequireCodeSigning dns = Ret (Ok c))"
proof -
  have leaf: "c = id_cert (tc_leaf chain)"
    if "verify_chain W now root (UntrustedCert (id_cert (tc_leaf chain))) ch policy dns = Ret (Ok c)" for root ch policy dns c
    using verify_chain_returns_leaf [OF that] by simp
  show "prop_valid_chain_building E M ca1 rs chain t' = Ret ()"
    using assms own_fingerprints [of "tc_intermediates chain"]
    by (simp add: prop_valid_chain_building_def expect_def assert_that_def)
  show "test_prop_valid_chain E M W now parse ca1 rs chain t' = Ret () \<longleftrightarrow>
      (\<exists>dns c. endpoint_hostname_try_from parse DEFAULT_LEAF_SAN = Ok dns
        \<and> verify_chain W now (root_cert ca1) (UntrustedCert (id_cert (tc_leaf chain))) (full_chain ca1 chain)
            RequireCodeSigning dns = Ret (Ok c))"
    using assms
    by (auto simp: test_prop_valid_chain_def run_bind_eq_Ret expect_eq_Ret assert_that_eq_Ret fingerprint_eq_iff
        dest: leaf)
qed

lemma test_prop_validate_passes:
  assumes laws: "issuing_laws E" "issuing_succeeds E" "fresh_ids E T" "moka_keeps M ct"
    and ca: "test_ca_root E t0 = Ret (ca1, t1)" "test_ca_root E t1 = Ret (ca2, t2)"
    and rs: "rs \<in> set (ordered_root_sets ca1 ca2)"
    and chain: "candidate E t2 t chain" "tc_root chain = ca1" "t2 \<le> T" "length (tc_intermediates chain) \<le> 6"
    and d: "drawn E t2 t' (tc_intermediates chain @ [tc_leaf chain])" and t: "t \<le> T" "t' \<le> T"
    and fit: "\<forall>x \<in> set (tc_intermediates chain @ [tc_leaf chain]). fits (ie_debug E) x"
  shows "test_prop_validate E M rs chain = Ret ()"
proof -
  let ?leaf = "tc_leaf chain"
  obtain st L where st: "add_certs (test_cache E M) (map (UntrustedCert \<circ> id_cert) (tc_intermediates chain @ [?leaf]))
      (trust_store_new (into_array rs) (new_test_cache M)) = Ret st" "ts_roots st = rs" "keeps M L (ts_cache st)"
    "\<forall>x \<in> set (tc_intermediates chain @ [?leaf]). L (id_bytes x) = Some (UntrustedCert (id_cert x))"
    using stored [OF laws(4) drawn_distinct(1) [OF laws(3) d t(2)] fit] by blast
  obtain m where m: "cc_get (test_cache E M) (cert_cert_id (id_cert ?leaf)) (ts_cache st) = Ret (Some (UntrustedCert (id_cert ?leaf)), m)"
    "keeps M L m"
    using test_cache_get [OF st(3), of E "cert_cert_id (id_cert ?leaf)"] st(4) by auto
  have "\<exists>m'. build_unverified_chain_for rs (test_cache E M) (UntrustedCert (id_cert ?leaf)) m =
      Ret (Ok (UntrustedChain (root_cert ca1) (map UntrustedCert (rev (map id_cert (tc_intermediates chain))))), m')"
    using st(4) by (intro candidate_built [OF laws(1-3) ca rs chain(1,2) t(1) chain(3,4) m(2)]) simp
  then show ?thesis
    using signature_42 st(1,2) m(1)
    by (auto simp: test_prop_validate_def validate_def expect_def try_op_def)
qed

section \<open>Chains that building rejects\<close>

lemma missing_intermediate_issued:
  fixes E :: "('h, 'd, 'k, 'i) issue_env"
  assumes laws: "issuing_laws E" "issuing_succeeds E" "identity_ok E root" and n: "n \<noteq> 255" "n \<noteq> 0"
  shows "\<exists>chain upper d lower. test_chain_build E root n (MissingIntermediateMutator seed) t = Ret (chain, Some d, t + 3 * unat n + 3)
    \<and> tc_intermediates chain = upper @ lower \<and> linked (id_bytes d) (map id_cert lower)
    \<and> issuer_bytes (tc_leaf chain) = last_id (id_bytes d) (map id_cert lower)
    \<and> drawn E t (t + 3 * unat n + 1) (upper @ d # lower @ [tc_leaf chain]) \<and> length lower < unat n"
proof -
  let ?m = "MissingIntermediateMutator seed :: ('k, 'i) chain_mutator"
  have tame: "tame E ?m" by (simp add: MissingIntermediateMutator_def tame_complete tame_ValidChain)
  obtain c where c: "test_chain_build E root n ?m t = cm_complete ?m c (t + 3 * unat n + 3)" "issued_chain E ?m n t c"
    using test_chain_build_issued [OF laws(1,2) tame n(1) laws(3)] by blast
  let ?ints = "tc_intermediates c"
  let ?i = "unat seed mod length ?ints"
  let ?upper = "take ?i ?ints" and ?d = "?ints ! ?i" and ?lower = "drop (Suc ?i) ?ints"
  have len: "length ?ints = unat n" using c(2) by (simp add: issued_chain_def)
  have "unat n \<noteq> 0" using n(2) by (simp add: unat_eq_zero)
  then have i: "?i < length ?ints" "?ints \<noteq> []" using len by auto
  note split = id_take_nth_drop [OF i(1)]
  note c' = issued_candidate [OF c(2), unfolded candidate_def]
  have "linked (id_bytes ?d) (map id_cert ?lower)"
    using c' arg_cong [OF split, of "\<lambda>xs. linked (id_bytes (tc_root c)) (map id_cert xs)"]
    by (simp add: linked_append)
  moreover have "issuer_bytes (tc_leaf c) = last_id (id_bytes ?d) (map id_cert ?lower)"
    using c' arg_cong [OF split, of "last_or (tc_root c)"] by (simp add: last_id_last_or last_or_def)
  moreover have "drawn E t (t + 3 * unat n + 1) (?upper @ ?d # ?lower @ [tc_leaf c])"
    using issued_chain_drawn [OF c(2)] split by (metis append_Cons append_assoc)
  moreover have "test_chain_build E root n ?m t =
      Ret (c\<lparr>tc_intermediates := ?upper @ ?lower\<rparr>, Some ?d, t + 3 * unat n + 3)"
    using c(1) i(2) by (simp add: MissingIntermediateMutator_def assert_that_def Let_def)
  ultimately show ?thesis using len i(1)
    by (intro exI [of _ "c\<lparr>tc_intermediates := ?upper @ ?lower\<rparr>"] exI [of _ ?upper] exI [of _ ?d] exI [of _ ?lower]) simp
qed

lemma gap_reported:
  assumes laws: "issuing_laws E" "issuing_succeeds E" and fresh: "fresh_ids E T"
    and ca: "test_ca_root E t0 = Ret (ca1, t1)" "test_ca_root E t1 = Ret (ca2, t2)"
    and rs: "rs \<in> set (ordered_root_sets ca1 ca2)"
    and d: "drawn E t2 t' (upper @ d # lower @ ds)" "t' \<le> T" "t2 \<le> T"
    and gap: "linked (id_bytes d) (map id_cert lower)" "issuer_bytes leaf = last_id (id_bytes d) (map id_cert lower)"
      "length lower < 6"
    and m: "keeps M L m" and L: "\<forall>x \<in> set lower. L (id_bytes x) = Some (UntrustedCert (id_cert x))" "L (id_bytes d) = None"
  shows "\<exists>m' j. build_unverified_chain_for rs (test_cache E M) (UntrustedCert (id_cert leaf)) m =
      Ret (Err (MissingIntermediate j), m') \<and> issuer_cert_id_as_bytes j = id_bytes d"
proof -
  note no_root = drawn_no_root [OF laws fresh ca rs d]
  have "\<exists>m' j. keeps M L m' \<and> issuer_cert_id_as_bytes j = id_bytes d
      \<and> build_loop rs (memory_cert_cache (ie_debug E) M) (cert_issuer_cert_id (id_cert leaf)) [] m =
          Ret (Err (MissingIntermediate j), m')"
    by (rule memory_answers.build_loop_gap [OF gap(1) _ _ L(2) m]) (use gap(2,3) L(1) no_root in auto)
  then show ?thesis
    by (auto simp: build_unverified_chain_for_def test_cache_def untrusted_issuer_cert_id_def)
qed

lemma missing_from_cache:
  assumes laws: "issuing_laws E" "issuing_succeeds E" "fresh_ids E T" "moka_keeps M ct"
    and ca: "test_ca_root E t0 = Ret (ca1, t1)" "test_ca_root E t1 = Ret (ca2, t2)"
    and rs: "rs \<in> set (ordered_root_sets ca1 ca2)"
    and d: "drawn E t2 t' (upper @ d # lower @ [leaf])" "t' \<le> T" "t2 \<le> T"
    and gap: "linked (id_bytes d) (map id_cert lower)" "issuer_bytes leaf = last_id (id_bytes d) (map id_cert lower)"
      "length lower < 6"
    and fit: "\<forall>x \<in> set (upper @ lower). fits (ie_debug E) x"
  shows "\<exists>m m' j. populate (test_cache E M) (upper @ lower) (new_test_cache M) = Ret m
    \<and> build_unverified_chain_for rs (test_cache E M) (UntrustedCert (id_cert leaf)) m = Ret (Err (MissingIntermediate j), m')
    \<and> issuer_cert_id_as_bytes j = id_bytes d"
proof -
  note distinct = drawn_distinct(1) [OF laws(3) d(1,2)]
  have "distinct (map id_bytes (upper @ lower))" using distinct by auto
  then obtain m L where m: "populate (test_cache E M) (upper @ lower) (new_test_cache M) = Ret m" "keeps M L m"
    "\<forall>x \<in> set (upper @ lower). L (id_bytes x) = Some (UntrustedCert (id_cert x))"
    "\<forall>b. b \<notin> id_bytes ` set (upper @ lower) \<longrightarrow> L b = None"
    using populated [OF laws(4) _ fit] by blast
  have "L (id_bytes d) = None" using m(4) distinct by auto
  then show ?thesis using gap_reported [OF laws(1-3) ca rs d gap m(2)] m(1,3) by auto
qed

lemma missing_from_store:
  assumes laws: "issuing_laws E" "issuing_succeeds E" "fresh_ids E T" "moka_keeps M ct"
    and ca: "test_ca_root E t0 = Ret (ca1, t1)" "test_ca_root E t1 = Ret (ca2, t2)"
    and rs: "rs \<in> set (ordered_root_sets ca1 ca2)"
    and d: "drawn E t2 t' (upper @ d # lower @ [tc_leaf chain])" "t' \<le> T" "t2 \<le> T"
    and gap: "linked (id_bytes d) (map id_cert lower)"
      "issuer_bytes (tc_leaf chain) = last_id (id_bytes d) (map id_cert lower)" "length lower < 6"
    and chain: "tc_intermediates chain = upper @ lower"
    and fit: "\<forall>x \<in> set (upper @ lower @ [tc_leaf chain]). fits (ie_debug E) x"
  shows "test_prop_missing_local_certificate E M rs chain (Some d) drop_leaf = Ret ()"
proof -
  let ?leaf = "tc_leaf chain" and ?xs = "tc_intermediates chain @ (if drop_leaf then [] else [tc_leaf chain])"
  note distinct = drawn_distinct(1) [OF laws(3) d(1,2)]
  have "distinct (map id_bytes ?xs)" "\<forall>x \<in> set ?xs. fits (ie_debug E) x" using distinct fit chain by auto
  then obtain st L where st: "add_certs (test_cache E M) (map (UntrustedCert \<circ> id_cert) ?xs)
      (trust_store_new (into_array rs) (new_test_cache M)) = Ret st" "ts_roots st = rs" "keeps M L (ts_cache st)"
    "\<forall>x \<in> set ?xs. L (id_bytes x) = Some (UntrustedCert (id_cert x))"
    "\<forall>b. b \<notin> id_bytes ` set ?xs \<longrightarrow> L b = None"
    using stored [OF laws(4)] by blast
  obtain m where m: "cc_get (test_cache E M) (cert_cert_id (id_cert ?leaf)) (ts_cache st) = Ret (L (id_bytes ?leaf), m)"
    "keeps M L m"
    using test_cache_get [OF st(3), of E "cert_cert_id (id_cert ?leaf)"] by auto
  obtain sig where sig: "signature_try_from [42] = Ret (Ok sig)" using signature_42 by blast
  show ?thesis
  proof (cases drop_leaf)
    case True
    then have "L (id_bytes ?leaf) = None" using st(5) distinct chain by auto
    then show ?thesis using True st(1) m(1) sig
      by (simp add: test_prop_missing_local_certificate_def validate_def expect_def assert_that_def dc_cert_eq_dc_cert_def Let_def)
  next
    case False
    then have L: "L (id_bytes d) = None" "L (id_bytes ?leaf) = Some (UntrustedCert (id_cert ?leaf))"
      using st(4,5) distinct chain by auto
    obtain m' j where "build_unverified_chain_for rs (test_cache E M) (UntrustedCert (id_cert ?leaf)) m =
        Ret (Err (MissingIntermediate j), m')" "issuer_cert_id_as_bytes j = id_bytes d"
      using gap_reported [OF laws(1-3) ca rs d gap m(2) _ L(1)] st(4) chain by auto
    then show ?thesis using False st(1,2) m(1) sig L(2)
      by (simp add: test_prop_missing_local_certificate_def validate_def expect_def assert_that_def dc_cert_eq_dc_cert_def
          try_op_def issuer_cert_id_as_bytes_def Let_def)
  qed
qed

lemma walked_from_cache:
  assumes laws: "issuing_laws E" "issuing_succeeds E" "fresh_ids E T" "moka_keeps M ct"
    and ca: "test_ca_root E t0 = Ret (ca1, t1)" "test_ca_root E t1 = Ret (ca2, t2)"
    and rs: "rs \<in> set (ordered_root_sets ca1 ca2)"
    and chain: "candidate E t2 t' chain" "tc_root chain = ca1" "t' \<le> T" "t2 \<le> T"
    and fit: "\<forall>x \<in> set (tc_intermediates chain). fits (ie_debug E) x"
  shows "\<exists>c c'. populate (test_cache E M) (tc_intermediates chain) (new_test_cache M) = Ret c
    \<and> build_unverified_chain_for rs (test_cache E M) (UntrustedCert (id_cert (tc_leaf chain))) c =
        Ret (if 6 < length (tc_intermediates chain) then Err ExcessivelyLongChain else Ok (full_chain ca1 chain), c')"
proof -
  let ?ints = "tc_intermediates chain" and ?leaf = "id_cert (tc_leaf chain)"
  have d: "drawn E t2 t' ?ints" using chain(1) by (simp add: candidate_def)
  obtain c L where c: "populate (test_cache E M) ?ints (new_test_cache M) = Ret c" "keeps M L c"
    "\<forall>x \<in> set ?ints. L (id_bytes x) = Some (UntrustedCert (id_cert x))"
    using populated [OF laws(4) drawn_distinct(1) [OF laws(3) d chain(3)] fit] by blast
  show ?thesis
  proof (cases "length ?ints > 6")
    case True
    have "\<exists>c'. keeps M L c' \<and> build_loop rs (memory_cert_cache (ie_debug E) M) (cert_issuer_cert_id ?leaf) [] c =
        Ret (Err ExcessivelyLongChain, c')"
    proof (rule memory_answers.build_loop_excess [OF _ _ c(2)])
      show "linked (id_bytes ca1) (map id_cert ?ints)" using chain(1,2) by (simp add: candidate_def)
      show "issuer_cert_id_as_bytes (cert_issuer_cert_id ?leaf) = last_id (id_bytes ca1) (map id_cert ?ints)"
        using chain(1,2) by (simp add: candidate_def last_id_last_or)
    qed (use True c(3) drawn_no_root [OF laws(1-3) ca rs d chain(3,4)] in auto)
    then show ?thesis using True c(1)
      by (auto simp: build_unverified_chain_for_def test_cache_def untrusted_issuer_cert_id_def)
  next
    case False
    then have "length ?ints \<le> 6" by simp
    then show ?thesis using False c(1) candidate_built [OF laws(1-3) ca rs chain(1-4) _ c(2,3)] by auto
  qed
qed

lemma walk_limits_decided:
  assumes "populate (test_cache E M) (tc_intermediates chain) (new_test_cache M) = Ret c"
    and "build_unverified_chain_for rs (test_cache E M) (UntrustedCert (id_cert (tc_leaf chain))) c =
        Ret (if 6 < length (tc_intermediates chain) then Err ExcessivelyLongChain else Ok (full_chain ca chain), c')"
  shows "test_prop_chain_walk_limits E M W now parse ca rs chain = Ret () \<longleftrightarrow>
    6 < length (tc_intermediates chain) \<or>
    (\<exists>dns c. endpoint_hostname_try_from parse DEFAULT_LEAF_SAN = Ok dns
      \<and> verify_chain W now (root_cert ca) (UntrustedCert (id_cert (tc_leaf chain))) (full_chain ca chain)
          RequireCodeSigning dns = Ret (Ok c))"
  using assms
  by (cases "6 < length (tc_intermediates chain)")
    (auto simp: test_prop_chain_walk_limits_def Let_def MAX_INTERMEDIATES_def assert_that_eq_Ret
      run_bind_eq_Ret expect_eq_Ret)

lemma update_last_two:
  assumes "length ys = Suc (Suc k)"
  shows "ys[k := a, Suc k := b] = take k ys @ [a, b]"
  by (rule nth_equalityI) (use assms in \<open>auto simp: nth_append nth_list_update less_Suc_eq\<close>)

lemma loop_issued:
  assumes laws: "issuing_laws E" "issuing_succeeds E" "identity_ok E root" and n: "n \<noteq> 255" "2 \<le> unat n"
  shows "\<exists>chain xs a b t'. test_chain_build E root n (SelfReferentialCertIds E) t = Ret (chain, None, t')
    \<and> tc_intermediates chain = xs @ [a, b] \<and> drawn E t (t + 3 * unat n) xs
    \<and> made E (replicate 16 2) (replicate 16 4) a \<and> made E (replicate 16 4) (replicate 16 2) b
    \<and> issuer_bytes (tc_leaf chain) = replicate 16 2"
proof -
  let ?m = "SelfReferentialCertIds E"
  let ?t = "t + 3 * unat n + 3"
  have tame: "tame E ?m" by (simp add: SelfReferentialCertIds_def tame_complete tame_ValidChain)
  obtain c where c: "test_chain_build E root n ?m t = cm_complete ?m c ?t" "issued_chain E ?m n t c"
    using test_chain_build_issued [OF laws(1,2) tame n(1) laws(3)] by blast
  let ?ints = "tc_intermediates c"
  have "length ?ints = unat n" using c(2) by (simp add: issued_chain_def)
  then obtain k where k: "length ?ints = Suc (Suc k)" using n(2) by (metis add_2_eq_Suc le_Suc_ex)
  have cn: "ascii ''Loop Signer B''" "ascii ''Loop Signer A''" by (simp_all add: ascii_def)
  have cn': "trim ''Loop Intermediate A'' \<noteq> []" "trim ''Loop Intermediate B'' \<noteq> []" "trim ''Leaf'' \<noteq> []"
    by (simp_all add: trim_empty_iff is_whitespace_def)
  obtain sa u1 where sa: "root_with_id E ''Loop Signer B'' (replicate 16 2) ?t = Ret (sa, u1)"
    "made E (replicate 16 2) (replicate 16 2) sa"
    using root_with_id_made [OF laws(1,2) _ cn(1), of "replicate 16 2" ?t] by auto
  obtain a u2 where a: "intermediate_with_id E ''Loop Intermediate A'' sa (replicate 16 4) u1 = Ret (a, u2)"
    "made E (replicate 16 2) (replicate 16 4) a"
    using intermediate_with_id_made [OF laws(1,2) _ _ cn'(1), of sa "replicate 16 4" u1] sa(2) by (auto simp: made_def)
  obtain sb u3 where sb: "root_with_id E ''Loop Signer A'' (replicate 16 4) u2 = Ret (sb, u3)"
    "made E (replicate 16 4) (replicate 16 4) sb"
    using root_with_id_made [OF laws(1,2) _ cn(2), of "replicate 16 4" u2] by auto
  obtain b u4 where b: "intermediate_with_id E ''Loop Intermediate B'' sb (replicate 16 2) u3 = Ret (b, u4)"
    "made E (replicate 16 4) (replicate 16 2) b"
    using intermediate_with_id_made [OF laws(1,2) _ _ cn'(2), of sb "replicate 16 2" u3] sb(2) by (auto simp: made_def)
  obtain leaf u5 where leaf: "leaf_under E ''Leaf'' b u4 = Ret (leaf, u5)"
    "issuer_bytes leaf = replicate 16 2"
    using leaf_under_made [OF laws(1,2) _ cn'(3), of b u4] b(2) by (auto simp: made_def)
  have "test_chain_build E root n ?m t =
      Ret (c\<lparr>tc_intermediates := take k ?ints @ [a, b], tc_leaf := leaf\<rparr>, None, u5)"
    unfolding c(1) by (simp add: SelfReferentialCertIds_def assert_that_def Let_def k sa(1) a(1) sb(1) b(1) leaf(1)
        update_last_two [OF k] nth_append)
  moreover have "drawn E t (t + 3 * unat n) (take k ?ints)"
    using issued_candidate [OF c(2)] by (auto simp: candidate_def intro: drawn_take)
  ultimately show ?thesis
    using a(2) b(2) leaf(2)
    by (intro exI [of _ "c\<lparr>tc_intermediates := take k ?ints @ [a, b], tc_leaf := leaf\<rparr>"] exI [of _ "take k ?ints"]) auto
qed

lemma loop_in_cache:
  assumes laws: "issuing_laws E" "issuing_succeeds E" "fresh_ids E T" "moka_keeps M ct"
    and ca: "test_ca_root E t0 = Ret (ca1, t1)" "test_ca_root E t1 = Ret (ca2, t2)"
    and rs: "rs \<in> set (ordered_root_sets ca1 ca2)"
    and d: "drawn E t2 t' xs" "t' \<le> T" "t2 \<le> T"
    and loop: "made E (replicate 16 2) (replicate 16 4) a" "made E (replicate 16 4) (replicate 16 2) b"
      "issuer_bytes leaf = replicate 16 2"
    and fit: "\<forall>x \<in> set (xs @ [a, b]). fits (ie_debug E) x"
  shows "\<exists>m m'. populate (test_cache E M) (xs @ [a, b]) (new_test_cache M) = Ret m
    \<and> build_unverified_chain_for rs (test_cache E M) (UntrustedCert (id_cert leaf)) m = Ret (Err ExcessivelyLongChain, m')"
proof -
  have ids: "id_bytes a = replicate 16 4" "id_bytes b = replicate 16 2" "issuer_bytes a = replicate 16 2"
    "issuer_bytes b = replicate 16 4"
    using loop by (simp_all add: made_def)
  have short: "draw_ski E s \<noteq> replicate 16 v" for s v
    using draw_ski_length [OF laws(2), of s] by (metis length_replicate num.distinct(5) numeral_eq_iff)
  have "\<forall>x \<in> set xs. id_bytes x \<noteq> replicate 16 v" for v
  proof -
    obtain ts where "map id_bytes xs = map (draw_ski E) ts" using d(1) by (auto simp: drawn_def)
    then have "id_bytes ` set xs = draw_ski E ` set ts" by (metis list.set_map)
    then show ?thesis using short [of _ v] by (metis (no_types, lifting) imageE imageI)
  qed
  then have "\<forall>x \<in> set xs. replicate 16 v \<noteq> id_bytes x" for v by metis
  moreover have "replicate 16 (4 :: byte) \<noteq> replicate 16 2" by (simp add: replicate_eq_replicate)
  ultimately have "distinct (map id_bytes (xs @ [a, b]))"
    using drawn_distinct(1) [OF laws(3) d(1,2)] ids by (auto simp: image_iff)
  then obtain m L where m: "populate (test_cache E M) (xs @ [a, b]) (new_test_cache M) = Ret m" "keeps M L m"
    "\<forall>x \<in> set (xs @ [a, b]). L (id_bytes x) = Some (UntrustedCert (id_cert x))"
    using populated [OF laws(4) _ fit] by blast
  let ?B = "{replicate 16 4, replicate 16 2} :: bytes set"
  have "root_for rs (replicate 16 v) = None" for v
    using short [of _ v] by (intro roots_lookup(2) [OF laws(1-3) ca rs d(3)]) (metis empty_iff insert_iff)
  then have closed: "root_for rs b = None
      \<and> (\<exists>v. L b = Some v \<and> issuer_cert_id_as_bytes (untrusted_issuer_cert_id v) \<in> ?B)" if "b \<in> ?B" for b
    using that m(3) ids by (auto simp: untrusted_issuer_cert_id_def)
  have "\<exists>m'. keeps M L m' \<and> build_loop rs (memory_cert_cache (ie_debug E) M)
      (cert_issuer_cert_id (id_cert leaf)) [] m = Ret (Err ExcessivelyLongChain, m')"
    by (rule memory_answers.build_loop_endless [where B = ?B, OF closed m(2)]) (use loop(3) in simp_all)
  then show ?thesis using m(1)
    by (auto simp: build_unverified_chain_for_def test_cache_def untrusted_issuer_cert_id_def)
qed

section \<open>What the test of name constraints expects\<close>

lemma dc_pin_expects_acceptance:
  "dc_pin_assertions LEAF_ENDPOINT_HOSTNAME ns sc (Ok c) = Ret () \<longleftrightarrow>
     sc = SanMatching \<and> ns \<noteq> NcMismatching
     \<or> sc = SanMultipleWithMatch \<and> (ns = NcUnconstrained \<or> ns = NcMatchingSubdomain)"
  by (cases ns; cases sc)
    (simp_all add: dc_pin_assertions_def permits_def ends_with_def LEAF_ENDPOINT_HOSTNAME_def assert_that_def expect_def
      numeral_eq_Suc)

section \<open>The sample instance\<close>

lemma sample_fits: "fits (ie_debug sample_env) x"
  by (simp add: fits_def sample_env_def)

lemma sample_cas:
  "\<exists>ca1 ca2. test_ca_root sample_env 0 = Ret (ca1, 2) \<and> test_ca_root sample_env 2 = Ret (ca2, 4)"
  using test_ca_root_made [OF sample_laws sample_succeeds, of 0] test_ca_root_made [OF sample_laws sample_succeeds, of 2]
  by auto

lemmas sample_issuer = sample_laws sample_succeeds sample_fresh sample_keeps

section \<open>Properties\<close>

text \<open>
  C21. Chain building catches none of the fifteen mutations that the tests call spuriously built:
  forged leaves and intermediates, orphaned leaves, expired, premature and pre-epoch certificates,
  wrong authority flags, unknown critical extensions, path length and name violations. For any
  seed, any randomness with distinct keys, two to six intermediates and the roots in either order, the
  chain is issued, chain building returns it in full, and whether the test of invalid chains passes
  is decided by the path validator alone, on this chain and for the endpoint's name.
\<close>

theorem spurious_chains_built:
  assumes laws: "issuing_laws E" "issuing_succeeds E" "fresh_ids E T" "moka_keeps M ct"
    and ca: "test_ca_root E t0 = Ret (ca1, t1)" "test_ca_root E t1 = Ret (ca2, t2)"
    and rs: "rs \<in> set (ordered_root_sets ca1 ca2)" and ic: "ic \<in> set (spuriously_built E seed)"
    and n: "2 \<le> unat n" "unat n \<le> 6" "t2 + 3 * unat n + 20 \<le> T"
  shows "\<exists>chain t'. test_chain_build E ca1 n (ic_mutator ic) t2 = Ret (chain, None, t')
    \<and> ((\<forall>x \<in> set (tc_intermediates chain). fits (ie_debug E) x) \<longrightarrow>
        prop_spuriously_accepted_invalid_chains E M rs chain = Ret ()
        \<and> (test_prop_invalid_chain E M W now parse ca1 rs (ic_assert_err ic) chain = Ret () \<longleftrightarrow>
            (\<exists>dns err. endpoint_hostname_try_from parse DEFAULT_LEAF_SAN = Ok dns
               \<and> verify_chain W now (root_cert ca1) (UntrustedCert (id_cert (tc_leaf chain)))
                   (full_chain ca1 chain) RequireCodeSigning dns = Ret (Err err)
               \<and> ic_assert_err ic (Verify err))))"
proof -
  have n': "n \<noteq> 255" using n(2) by auto
  obtain chain t' where chain: "test_chain_build E ca1 n (ic_mutator ic) t2 = Ret (chain, None, t')"
    "(\<forall>x \<in> set (tc_intermediates chain). fits (ie_debug E) x) \<longrightarrow>
      (\<exists>c c'. populate (test_cache E M) (tc_intermediates chain) (new_test_cache M) = Ret c
        \<and> build_unverified_chain_for rs (test_cache E M) (UntrustedCert (id_cert (tc_leaf chain))) c =
            Ret (Ok (full_chain ca1 chain), c'))"
    using built_from_cache [OF laws ca rs n' n(2,3)
        spurious_candidate [OF laws(1,2) test_ca_root_Ret(2) [OF laws(1,2) ca(1)] n' n(1) ic]] by blast
  then show ?thesis
    using invalid_chain_built [of E M chain _ rs "full_chain ca1 chain" _ W now parse ca1 "ic_assert_err ic"]
    by (intro exI [of _ chain] exI [of _ t']) (fastforce simp: prop_spuriously_accepted_invalid_chains_def)
qed

theorem spurious_chains_built_witness:
  "\<exists>ca1 ca2 chain t'. test_ca_root sample_env 0 = Ret (ca1, 2) \<and> test_ca_root sample_env 2 = Ret (ca2, 4)
    \<and> test_chain_build sample_env ca1 3 (ForgedLeaf sample_env) 4 = Ret (chain, None, t')
    \<and> prop_spuriously_accepted_invalid_chains sample_env sample_moka
        (root_set_new [root_cert ca2, root_cert ca1]) chain = Ret ()"
proof -
  obtain ca1 ca2 where ca: "test_ca_root sample_env 0 = Ret (ca1, 2)" "test_ca_root sample_env 2 = Ret (ca2, 4)"
    using sample_cas by blast
  let ?rs = "root_set_new [root_cert ca2, root_cert ca1]"
  have "?rs \<in> set (ordered_root_sets ca1 ca2)" by (simp add: ordered_root_sets_def)
  moreover have "hd (spuriously_built sample_env 0) \<in> set (spuriously_built sample_env 0)"
    "ic_mutator (hd (spuriously_built sample_env 0)) = ForgedLeaf sample_env"
    by (simp_all add: spuriously_built_def)
  ultimately show ?thesis
    using ca sample_fits spurious_chains_built [OF sample_issuer ca, of ?rs "hd (spuriously_built sample_env 0)" 0 3]
    by fastforce
qed



text \<open>
  A dropped intermediate is reported, and as itself. For one to six intermediates and any of
  them dropped, chain building fails with \<open>MissingIntermediate\<close> and the identifier of the dropped
  certificate, both from a cache and from a store that holds the leaf; a store without the leaf
  reports the leaf. The assertions of both tests pass.
\<close>

lemma missing_intermediate_reported:
  assumes laws: "issuing_laws E" "issuing_succeeds E" "fresh_ids E T" "moka_keeps M ct"
    and ca: "test_ca_root E t0 = Ret (ca1, t1)" "test_ca_root E t1 = Ret (ca2, t2)"
    and rs: "rs \<in> set (ordered_root_sets ca1 ca2)"
    and n: "1 \<le> unat n" "unat n \<le> 6" "t2 + 3 * unat n + 20 \<le> T"
  shows "\<exists>chain dropped t'. test_chain_build E ca1 n (MissingIntermediateMutator seed) t2 = Ret (chain, Some dropped, t')
    \<and> ((\<forall>x \<in> set (tc_intermediates chain @ [tc_leaf chain]). fits (ie_debug E) x) \<longrightarrow>
        prop_missing_intermediate E M ca1 rs n seed t2 = Ret ()
        \<and> test_prop_missing_local_certificate E M rs chain (Some dropped) drop_leaf = Ret ())"
proof -
  have n': "n \<noteq> 255" "n \<noteq> 0" using n by auto
  obtain chain upper d lower t' where chain:
    "test_chain_build E ca1 n (MissingIntermediateMutator seed) t2 = Ret (chain, Some d, t')"
    "tc_intermediates chain = upper @ lower" "linked (id_bytes d) (map id_cert lower)"
    "issuer_bytes (tc_leaf chain) = last_id (id_bytes d) (map id_cert lower)"
    "drawn E t2 (t2 + 3 * unat n + 1) (upper @ d # lower @ [tc_leaf chain])" "length lower < unat n"
    using missing_intermediate_issued [OF laws(1,2) test_ca_root_Ret(2) [OF laws(1,2) ca(1)] n'] by blast
  have T: "t2 + 3 * unat n + 1 \<le> T" "t2 \<le> T" "length lower < 6" using n chain(6) by simp_all
  show ?thesis
    using chain(1,2) missing_from_store [OF laws ca rs chain(5) T(1,2) chain(3,4) T(3) chain(2)]
      missing_from_cache [OF laws ca rs chain(5) T(1,2) chain(3,4) T(3)]
    by (intro exI [of _ chain] exI [of _ d] exI [of _ t'])
      (fastforce simp: prop_missing_intermediate_def assert_that_def dc_issuer_eq_dc_cert_def)
qed

lemma missing_intermediate_reported_witness:
  "\<exists>ca1 ca2 chain dropped t'. test_ca_root sample_env 0 = Ret (ca1, 2) \<and> test_ca_root sample_env 2 = Ret (ca2, 4)
    \<and> test_chain_build sample_env ca1 4 (MissingIntermediateMutator 6) 4 = Ret (chain, Some dropped, t')
    \<and> prop_missing_intermediate sample_env sample_moka ca1 (root_set_new [root_cert ca1, root_cert ca2]) 4 6 4 = Ret ()
    \<and> test_prop_missing_local_certificate sample_env sample_moka (root_set_new [root_cert ca1, root_cert ca2]) chain
        (Some dropped) False = Ret ()"
proof -
  obtain ca1 ca2 where ca: "test_ca_root sample_env 0 = Ret (ca1, 2)" "test_ca_root sample_env 2 = Ret (ca2, 4)"
    using sample_cas by blast
  let ?rs = "root_set_new [root_cert ca1, root_cert ca2]"
  have "?rs \<in> set (ordered_root_sets ca1 ca2)" by (simp add: ordered_root_sets_def)
  then show ?thesis
    using ca sample_fits missing_intermediate_reported [OF sample_issuer ca, of ?rs 4 6 False] by fastforce
qed

text \<open>
  C24. Chain building alone rejects the chains that the tests expect it to reject. With a loop of two
  certificates that name each other as issuers, the walk stops with \<open>ExcessivelyLongChain\<close>; with a
  dropped intermediate it stops with \<open>MissingIntermediate\<close>. The test of invalid chains passes for
  both, for any seed, two to six intermediates and roots in either order, whatever the path
  validator would have said.
\<close>

theorem broken_chains_rejected:
  assumes laws: "issuing_laws E" "issuing_succeeds E" "fresh_ids E T" "moka_keeps M ct"
    and ca: "test_ca_root E t0 = Ret (ca1, t1)" "test_ca_root E t1 = Ret (ca2, t2)"
    and rs: "rs \<in> set (ordered_root_sets ca1 ca2)" and ic: "ic \<in> set (rejected_by_building E seed)"
    and n: "2 \<le> unat n" "unat n \<le> 6" "t2 + 3 * unat n + 20 \<le> T"
  shows "\<exists>chain dropped t'. test_chain_build E ca1 n (ic_mutator ic) t2 = Ret (chain, dropped, t')
    \<and> ((\<forall>x \<in> set (tc_intermediates chain). fits (ie_debug E) x) \<longrightarrow>
        test_prop_invalid_chain E M W now parse ca1 rs (ic_assert_err ic) chain = Ret ())"
proof -
  have n': "n \<noteq> 255" "n \<noteq> 0" using n by auto
  note root = test_ca_root_Ret(2) [OF laws(1,2) ca(1)]
  consider (loop) "ic_mutator ic = SelfReferentialCertIds E" "ic_assert_err ic = (\<lambda>e. e = Build ExcessivelyLongChain)"
    | (missing) "ic_mutator ic = MissingIntermediateMutator seed" "\<And>i. ic_assert_err ic (Build (MissingIntermediate i))"
    using ic by (auto simp: rejected_by_building_def)
  then show ?thesis
  proof cases
    case loop
    obtain chain xs a b t' where chain: "test_chain_build E ca1 n (SelfReferentialCertIds E) t2 = Ret (chain, None, t')"
      "tc_intermediates chain = xs @ [a, b]" "drawn E t2 (t2 + 3 * unat n) xs"
      "made E (replicate 16 2) (replicate 16 4) a" "made E (replicate 16 4) (replicate 16 2) b"
      "issuer_bytes (tc_leaf chain) = replicate 16 2"
      using loop_issued [OF laws(1,2) root n'(1) n(1)] by blast
    have T: "t2 + 3 * unat n \<le> T" "t2 \<le> T" using n by simp_all
    show ?thesis
      using chain(1,2) loop loop_in_cache [OF laws ca rs chain(3) T chain(4-6)]
      by (intro exI [of _ chain] exI [of _ None] exI [of _ t'])
        (fastforce simp: test_prop_invalid_chain_def assert_that_def)
  next
    case missing
    obtain chain upper d lower t' where chain:
      "test_chain_build E ca1 n (MissingIntermediateMutator seed) t2 = Ret (chain, Some d, t')"
      "tc_intermediates chain = upper @ lower" "linked (id_bytes d) (map id_cert lower)"
      "issuer_bytes (tc_leaf chain) = last_id (id_bytes d) (map id_cert lower)"
      "drawn E t2 (t2 + 3 * unat n + 1) (upper @ d # lower @ [tc_leaf chain])" "length lower < unat n"
      using missing_intermediate_issued [OF laws(1,2) root n'] by blast
    have T: "t2 + 3 * unat n + 1 \<le> T" "t2 \<le> T" "length lower < 6" using n chain(6) by simp_all
    show ?thesis
      using chain(1,2) missing missing_from_cache [OF laws ca rs chain(5) T(1,2) chain(3,4) T(3)]
      by (intro exI [of _ chain] exI [of _ "Some d"] exI [of _ t'])
        (fastforce simp: test_prop_invalid_chain_def assert_that_def)
  qed
qed

theorem broken_chains_rejected_witness:
  "\<exists>ca1 ca2 chain dropped t'. test_ca_root sample_env 0 = Ret (ca1, 2) \<and> test_ca_root sample_env 2 = Ret (ca2, 4)
    \<and> test_chain_build sample_env ca1 2 (SelfReferentialCertIds sample_env) 4 = Ret (chain, dropped, t')
    \<and> test_prop_invalid_chain sample_env sample_moka sample_webpki 0 Err ca1 (root_set_new [root_cert ca1, root_cert ca2])
        (\<lambda>e. e = Build ExcessivelyLongChain) chain = Ret ()"
proof -
  obtain ca1 ca2 where ca: "test_ca_root sample_env 0 = Ret (ca1, 2)" "test_ca_root sample_env 2 = Ret (ca2, 4)"
    using sample_cas by blast
  let ?rs = "root_set_new [root_cert ca1, root_cert ca2]" and ?ic = "hd (rejected_by_building sample_env 0)"
  have "?rs \<in> set (ordered_root_sets ca1 ca2)" by (simp add: ordered_root_sets_def)
  moreover have "?ic \<in> set (rejected_by_building sample_env 0)" "ic_mutator ?ic = SelfReferentialCertIds sample_env"
    "ic_assert_err ?ic = (\<lambda>e. e = Build ExcessivelyLongChain)"
    by (simp_all add: rejected_by_building_def)
  ultimately show ?thesis
    using ca sample_fits broken_chains_rejected [OF sample_issuer ca, of ?rs ?ic 0 2 sample_webpki 0 Err] by fastforce
qed

text \<open>
  Each mutator of a single certificate plants its defect and nothing else. Against the valid
  chain that the same randomness issues, the parameters of all certificates agree, except for one
  field of the chosen certificate: the end of the validity for the expired and the pre-epoch
  mutations, its start for the future one, the authority flag, or one more extension. The chosen
  intermediate is the seed modulo the number of intermediates.
\<close>

lemma mutators_plant_one_defect:
  assumes laws: "issuing_laws E" "issuing_succeeds E" "identity_ok E root" and n: "n \<noteq> 0" "n \<noteq> 255"
    and valid: "test_chain_build E root n ValidChain t = Ret (valid, d, t')"
  shows "let k = unat seed mod unat n; date = date_time_ymd (ie_issuing E);
      ends = (\<lambda>v p. p\<lparr>cp_not_after := v\<rparr>); starts = (\<lambda>v p. p\<lparr>cp_not_before := v\<rparr>);
      flag = (\<lambda>c p. p\<lparr>cp_is_ca := c\<rparr>);
      extend = (\<lambda>p. p\<lparr>cp_custom_extensions := cp_custom_extensions p @ [unknown_critical_extension]\<rparr>)
    in plants_at E root n t valid (ExpiredIntermediate E seed) k (ends (date 2020 1 1))
      \<and> plants_at E root n t valid (FutureValidIntermediate E seed) k (starts (date 4000 1 1))
      \<and> plants_at E root n t valid (PreEpochIntermediate E seed) k (ends (date 1969 7 20))
      \<and> plants_at E root n t valid (NonCaIntermediate seed) k (flag ExplicitNoCa)
      \<and> plants_at E root n t valid (CriticalExtensionIntermediate seed) k extend
      \<and> plants_leaf E root n t valid (ExpiredLeaf E) (ends (date 2020 1 1))
      \<and> plants_leaf E root n t valid (FutureValidLeaf E) (starts (date 4000 1 1))
      \<and> plants_leaf E root n t valid (PreEpochLeaf E) (ends (date 1969 7 20))
      \<and> plants_leaf E root n t valid CaSignerLeaf (flag (Ca Unconstrained))
      \<and> plants_leaf E root n t valid CriticalExtensionLeaf extend"
proof -
  note dates = succeeds_dates [OF laws(2)]
  note seeded = seeded_plants [OF laws n _ _ valid] and leaf = leaf_plants [OF laws n(2) _ _ valid]
  note mutators = ExpiredIntermediate_def FutureValidIntermediate_def PreEpochIntermediate_def NonCaIntermediate_def
    CriticalExtensionIntermediate_def ExpiredLeaf_def FutureValidLeaf_def PreEpochLeaf_def CaSignerLeaf_def
    CriticalExtensionLeaf_def
  show ?thesis
    unfolding Let_def mutators
    by (intro conjI seeded leaf acts_setters acts_leaf_setters gentle_setters gentle_leaf_setters dates) simp_all
qed

lemma mutators_plant_one_defect_witness:
  "\<exists>root valid t'. test_ca_root sample_env 0 = Ret (root, 2)
    \<and> test_chain_build sample_env root 3 ValidChain 2 = Ret (valid, None, t')
    \<and> plants_at sample_env root 3 2 valid (NonCaIntermediate 5) 2 (\<lambda>p. p\<lparr>cp_is_ca := ExplicitNoCa\<rparr>)"
proof -
  obtain root where root: "test_ca_root sample_env 0 = Ret (root, 2)" "identity_ok sample_env root"
    using sample_cas test_ca_root_Ret(2) [OF sample_laws sample_succeeds] by blast
  obtain valid t' where valid: "test_chain_build sample_env root 3 ValidChain 2 = Ret (valid, None, t')"
    using test_chain_build_issued [OF sample_laws sample_succeeds tame_ValidChain _ root(2), of 3 2]
    by (auto simp: ValidChain_def)
  show ?thesis
    using root(1) valid mutators_plant_one_defect [OF sample_laws sample_succeeds root(2) _ _ valid, of 5]
    by (auto simp: Let_def)
qed

text \<open>The assertions of the test of key usages say the same as the policy; the final arm is never reached.\<close>

lemma eku_assertions_match_policy:
  "eku_policy_assertions n cfg result = Ret () \<longleftrightarrow>
     (if code_signing_permitted (eku_leaf cfg) \<and> (n = 0 \<or> code_signing_permitted (eku_intermediates cfg)) then is_ok result
      else (case result of Inl e \<Rightarrow> is_RequiredEKU e | Inr _ \<Rightarrow> False))"
  by (cases cfg)
    (auto simp: eku_policy_assertions_def normalised_ekus_def assert_ok_def assert_required_eku_def assert_that_def Let_def
      code_signing_permitted_def list_ex_iff list_all_iff split: if_splits)

lemma eku_test_decided:
  assumes "test_chain_build E ca n (SetEKUs cfg) t = Ret (chain, d, t')"
    and "populate (test_cache E M) (tc_intermediates chain) (new_test_cache M) = Ret c"
    and "build_unverified_chain_for rs (test_cache E M) (UntrustedCert (id_cert (tc_leaf chain))) c = Ret (Ok (full_chain ca chain), c')"
  shows "test_prop_eku_policy E M W now parse ca rs cfg n t = Ret () \<longleftrightarrow>
    (\<exists>dns result. endpoint_hostname_try_from parse DEFAULT_LEAF_SAN = Ok dns
      \<and> verify_chain W now (root_cert ca) (UntrustedCert (id_cert (tc_leaf chain))) (full_chain ca chain)
          RequireCodeSigning dns = Ret result
      \<and> (if code_signing_permitted (eku_leaf cfg) \<and> (n = 0 \<or> code_signing_permitted (eku_intermediates cfg))
         then is_ok result else (case result of Inl e \<Rightarrow> is_RequiredEKU e | Inr _ \<Rightarrow> False)))"
  using assms
  by (simp add: test_prop_eku_policy_def Let_def expect_eq_Ret run_bind_eq_Ret eku_assertions_match_policy)

text \<open>
  C25. The test of key usages checks the policy that it documents. For every configuration and up to
  six intermediates the chain is issued and built in full, and the test passes exactly if the verifier accepts
  the chain when each certificate carries either no purposes or code signing, and rejects it for a
  missing purpose otherwise; without intermediates their purposes do not count.
\<close>

theorem eku_test_checks_policy:
  assumes laws: "issuing_laws E" "issuing_succeeds E" "fresh_ids E T" "moka_keeps M ct"
    and ca: "test_ca_root E t0 = Ret (ca1, t1)" "test_ca_root E t1 = Ret (ca2, t2)"
    and rs: "rs \<in> set (ordered_root_sets ca1 ca2)"
    and n: "unat n \<le> 6" "t2 + 3 * unat n + 20 \<le> T"
  shows "\<exists>chain t'. test_chain_build E ca1 n (SetEKUs cfg) t2 = Ret (chain, None, t')
    \<and> ((\<forall>x \<in> set (tc_intermediates chain). fits (ie_debug E) x) \<longrightarrow>
        (test_prop_eku_policy E M W now parse ca1 rs cfg n t2 = Ret () \<longleftrightarrow>
          (\<exists>dns result. endpoint_hostname_try_from parse DEFAULT_LEAF_SAN = Ok dns
            \<and> verify_chain W now (root_cert ca1) (UntrustedCert (id_cert (tc_leaf chain))) (full_chain ca1 chain)
                RequireCodeSigning dns = Ret result
            \<and> (if code_signing_permitted (eku_leaf cfg) \<and> (n = 0 \<or> code_signing_permitted (eku_intermediates cfg))
               then is_ok result else (case result of Inl e \<Rightarrow> is_RequiredEKU e | Inr _ \<Rightarrow> False)))))"
proof -
  have n': "n \<noteq> 255" using n(1) by auto
  have "builds_candidate E ca1 n t2 (SetEKUs cfg)"
    by (rule tame_builds_candidate [OF laws(1,2) test_ca_root_Ret(2) [OF laws(1,2) ca(1)] n' tame_SetEKUs])
      (simp add: SetEKUs_def)
  from built_from_cache [OF laws ca rs n' n this]
  obtain chain t' where chain: "test_chain_build E ca1 n (SetEKUs cfg) t2 = Ret (chain, None, t')"
    "(\<forall>x \<in> set (tc_intermediates chain). fits (ie_debug E) x) \<longrightarrow>
      (\<exists>c c'. populate (test_cache E M) (tc_intermediates chain) (new_test_cache M) = Ret c
        \<and> build_unverified_chain_for rs (test_cache E M) (UntrustedCert (id_cert (tc_leaf chain))) c =
            Ret (Ok (full_chain ca1 chain), c'))"
    by blast
  show ?thesis
    using chain(2) eku_test_decided [OF chain(1), of M _ rs _ W now parse]
    by (intro exI [of _ chain] exI [of _ t'] conjI chain(1)) blast
qed

theorem eku_test_checks_policy_witness:
  "\<exists>ca1 ca2 chain t'. test_ca_root sample_env 0 = Ret (ca1, 2) \<and> test_ca_root sample_env 2 = Ret (ca2, 4)
    \<and> test_chain_build sample_env ca1 2 (SetEKUs (LeafOnly [ServerAuth])) 4 = Ret (chain, None, t')
    \<and> (test_prop_eku_policy sample_env sample_moka sample_webpki 0 (\<lambda>_. Err ''no name'') ca1
         (root_set_new [root_cert ca1, root_cert ca2]) (LeafOnly [ServerAuth]) 2 4 = Ret () \<longleftrightarrow>
        (\<exists>dns result. endpoint_hostname_try_from (\<lambda>_. Err ''no name'') DEFAULT_LEAF_SAN = Ok dns
          \<and> verify_chain sample_webpki 0 (root_cert ca1) (UntrustedCert (id_cert (tc_leaf chain))) (full_chain ca1 chain)
              RequireCodeSigning dns = Ret result
          \<and> (case result of Inl e \<Rightarrow> is_RequiredEKU e | Inr _ \<Rightarrow> False)))"
proof -
  obtain ca1 ca2 where ca: "test_ca_root sample_env 0 = Ret (ca1, 2)" "test_ca_root sample_env 2 = Ret (ca2, 4)"
    using sample_cas by blast
  let ?rs = "root_set_new [root_cert ca1, root_cert ca2]"
  have "?rs \<in> set (ordered_root_sets ca1 ca2)" by (simp add: ordered_root_sets_def)
  moreover have "\<not> code_signing_permitted (eku_leaf (LeafOnly [ServerAuth]))" by (simp add: code_signing_permitted_def)
  ultimately show ?thesis
    using ca sample_fits eku_test_checks_policy [OF sample_issuer ca, of ?rs 2 "LeafOnly [ServerAuth]" sample_webpki 0
        "\<lambda>_. Err ''no name''"]
    by fastforce
qed

text \<open>
  C23. The limit on the walk is exact. A valid chain with more than six intermediates, up to the most
  that a test chain can have, is abandoned as excessively long, whatever the path validator would
  say; with at most six it is built in full, and the test of the limit passes exactly if the path validator accepts it.
\<close>

theorem chain_walk_limit_enforced:
  assumes laws: "issuing_laws E" "issuing_succeeds E" "fresh_ids E T" "moka_keeps M ct"
    and ca: "test_ca_root E t0 = Ret (ca1, t1)" "test_ca_root E t1 = Ret (ca2, t2)"
    and rs: "rs \<in> set (ordered_root_sets ca1 ca2)"
    and n: "n \<noteq> 255" "t2 + 3 * unat n + 20 \<le> T"
  shows "\<exists>chain t'. test_chain_build E ca1 n ValidChain t2 = Ret (chain, None, t')
    \<and> length (tc_intermediates chain) = unat n
    \<and> ((\<forall>x \<in> set (tc_intermediates chain). fits (ie_debug E) x) \<longrightarrow>
        (test_prop_chain_walk_limits E M W now parse ca1 rs chain = Ret () \<longleftrightarrow>
          unat n > 6 \<or>
          (\<exists>dns c. endpoint_hostname_try_from parse DEFAULT_LEAF_SAN = Ok dns
            \<and> verify_chain W now (root_cert ca1) (UntrustedCert (id_cert (tc_leaf chain))) (full_chain ca1 chain)
                RequireCodeSigning dns = Ret (Ok c))))"
proof -
  have ca_ok: "identity_ok E ca1" by (rule test_ca_root_Ret(2) [OF laws(1,2) ca(1)])
  obtain chain where chain: "test_chain_build E ca1 n ValidChain t2 = Ret (chain, None, t2 + 3 * unat n + 3)"
    "tc_root chain = ca1" "issued_chain E ValidChain n t2 chain"
    using test_chain_build_issued [OF laws(1,2) tame_ValidChain n(1) ca_ok, of t2] by (auto simp: ValidChain_def)
  let ?leaf = "UntrustedCert (id_cert (tc_leaf chain))"
  have len: "length (tc_intermediates chain) = unat n" using chain(3) by (simp add: issued_chain_def)
  have cand: "candidate E t2 (t2 + 3 * unat n) chain" by (rule issued_candidate [OF chain(3)])
  have T: "t2 + 3 * unat n \<le> T" "t2 \<le> T" using n(2) by simp_all
  have "\<exists>c c'. populate (test_cache E M) (tc_intermediates chain) (new_test_cache M) = Ret c
      \<and> build_unverified_chain_for rs (test_cache E M) ?leaf c =
          Ret (if 6 < length (tc_intermediates chain) then Err ExcessivelyLongChain else Ok (full_chain ca1 chain), c')"
    if fit: "\<forall>x \<in> set (tc_intermediates chain). fits (ie_debug E) x"
    by (rule walked_from_cache [OF laws ca rs cand chain(2) T fit])
  then show ?thesis
    using chain(1) len walk_limits_decided [of E M chain _ rs ca1 _ W now parse]
    by (intro exI [of _ chain] exI [of _ "t2 + 3 * unat n + 3"]) fastforce
qed

theorem chain_walk_limit_enforced_witness:
  "\<exists>ca1 ca2 chain t'. test_ca_root sample_env 0 = Ret (ca1, 2) \<and> test_ca_root sample_env 2 = Ret (ca2, 4)
    \<and> test_chain_build sample_env ca1 10 ValidChain 4 = Ret (chain, None, t')
    \<and> test_prop_chain_walk_limits sample_env sample_moka sample_webpki 0 (\<lambda>_. Err ''no name'') ca1
        (root_set_new [root_cert ca1, root_cert ca2]) chain = Ret ()"
proof -
  obtain ca1 ca2 where ca: "test_ca_root sample_env 0 = Ret (ca1, 2)" "test_ca_root sample_env 2 = Ret (ca2, 4)"
    using sample_cas by blast
  let ?rs = "root_set_new [root_cert ca1, root_cert ca2]"
  have "?rs \<in> set (ordered_root_sets ca1 ca2)" by (simp add: ordered_root_sets_def)
  then show ?thesis
    using ca sample_fits chain_walk_limit_enforced [OF sample_issuer ca, of ?rs 10 sample_webpki 0 "\<lambda>_. Err ''no name''"]
    by fastforce
qed

end
