(* ===== verification/Connection_Id.thy ===== *)
theory Connection_Id
  imports Hash_Sign
begin

text \<open>
  Connection identifiers and their nonces, \<open>rc-crypto/src/connection_id/\<close>. The UUIDv8 bit
  layout of the \<open>uuid\<close> crate is the parameter \<open>new_v8\<close>, from 16 bytes to the 16 bytes
  of the UUID; the outcome of the random fill is an argument of the nonce's constructor.
\<close>

section \<open>Nonces\<close>

datatype id_nonce = IdNonce bytes

fun nonce_as_bytes :: "id_nonce \<Rightarrow> bytes" where
  "nonce_as_bytes (IdNonce b) = b"

definition id_nonce_default :: "unit + bytes \<Rightarrow> id_nonce run" where
  "id_nonce_default fill =
     expect fill ''called `Result::unwrap()` on an `Err` value'' (\<lambda>buf.
       assert_that (buf \<noteq> replicate 16 0) ''assertion `left != right` failed'' (Ret (IdNonce buf)))"

section \<open>Connection identifiers\<close>

datatype connection_id = ConnectionId bytes

fun connection_id_as_bytes :: "connection_id \<Rightarrow> bytes" where
  "connection_id_as_bytes (ConnectionId uuid) = uuid"

definition connection_id_new ::
  "'h sha_lib \<Rightarrow> (bytes \<Rightarrow> bytes) \<Rightarrow> bytes \<Rightarrow> bytes \<Rightarrow> connection_id run" where
  "connection_id_new S new_v8 client_nonce server_nonce =
     (let h = sha256_incremental S;
          h = sha256_update S h server_nonce;
          h = sha256_update S h client_nonce
      in run_bind (sha256_finish S h) (\<lambda>d.
           Ret (ConnectionId (new_v8 (take 16 (digest_as_bytes d))))))"

definition from_unverified :: "bytes \<Rightarrow> connection_id" where
  "from_unverified i = ConnectionId i"

datatype connection_id_invalid = ConnectionIdInvalid

record untrusted_connection_id =
  uci_server_nonce :: bytes
  uci_id :: bytes

definition untrusted_connection_id_new :: "bytes \<Rightarrow> bytes \<Rightarrow> untrusted_connection_id" where
  "untrusted_connection_id_new server_nonce i = \<lparr>uci_server_nonce = server_nonce, uci_id = i\<rparr>"

definition verify_connection_id ::
  "'h sha_lib \<Rightarrow> (bytes \<Rightarrow> bytes) \<Rightarrow> untrusted_connection_id \<Rightarrow> id_nonce
     \<Rightarrow> (connection_id_invalid + connection_id) run" where
  "verify_connection_id S new_v8 self client_nonce =
     run_bind (connection_id_new S new_v8 (nonce_as_bytes client_nonce) (uci_server_nonce self))
       (\<lambda>derived.
          if connection_id_as_bytes derived \<noteq> uci_id self then Ret (Err ConnectionIdInvalid)
          else Ret (Ok derived))"

section \<open>Lemmas\<close>

text \<open>The identifier that a pair of nonces stands for.\<close>

definition derived_id :: "'h sha_lib \<Rightarrow> (bytes \<Rightarrow> bytes) \<Rightarrow> bytes \<Rightarrow> bytes \<Rightarrow> bytes" where
  "derived_id S new_v8 server_nonce client_nonce =
     new_v8 (take 16 (ctx_finish S (ctx_update S (ctx_new S) (server_nonce @ client_nonce))))"

lemma connection_id_new_derives:
  assumes "sha_digest_len S" "sha_incremental S"
  shows "connection_id_new S new_v8 cn sn = Ret (ConnectionId (derived_id S new_v8 sn cn))"
proof -
  have "connection_id_new S new_v8 cn sn =
      run_bind (hash_data S (sn @ cn)) (\<lambda>d. Ret (ConnectionId (new_v8 (take 16 (digest_as_bytes d)))))"
    using sha256_split_updates [OF assms(2), of sn cn] by (simp add: connection_id_new_def Let_def)
  then show ?thesis by (simp add: hash_data_returns [OF assms(1)] derived_id_def)
qed

lemma verify_connection_id_eq:
  assumes "sha_digest_len S" "sha_incremental S"
  shows "verify_connection_id S new_v8 u n =
    Ret (if derived_id S new_v8 (uci_server_nonce u) (nonce_as_bytes n) = uci_id u
         then Ok (ConnectionId (uci_id u)) else Err ConnectionIdInvalid)"
  by (auto simp: verify_connection_id_def connection_id_new_derives [OF assms])

lemma verify_connection_id_Ok_id:
  "verify_connection_id S new_v8 u n = Ret (Ok c) \<Longrightarrow> connection_id_as_bytes c = uci_id u"
  by (auto simp: verify_connection_id_def outcome_simps split: if_splits)

lemma id_nonce_default_iff:
  "id_nonce_default fill = Ret n \<longleftrightarrow> (\<exists>b. fill = Ok b \<and> b \<noteq> replicate 16 0 \<and> n = IdNonce b)"
  by (auto simp: id_nonce_default_def outcome_simps)

section \<open>Properties\<close>

text \<open>
  C30. Verification of a server's connection identifier accepts it exactly when it is the UUIDv8 of
  the first 16 bytes of the digest of the server nonce followed by the client nonce, and then
  returns that very identifier; it never panics. Two verifications of the same identifier under
  the same server nonce but different client nonces both succeed only where the derivation itself
  collides.
\<close>

theorem verify_connection_id_accepts_iff:
  assumes "sha_digest_len S" and "sha_incremental S"
  shows "(verify_connection_id S new_v8 u n = Ret (Ok c) \<longleftrightarrow>
      uci_id u = derived_id S new_v8 (uci_server_nonce u) (nonce_as_bytes n)
      \<and> c = from_unverified (uci_id u))
    \<and> returns (verify_connection_id S new_v8 u n)
    \<and> (verify_connection_id S new_v8 u n = Ret (Ok c) \<and>
       verify_connection_id S new_v8 u m = Ret (Ok c') \<longrightarrow>
       c = c' \<and> derived_id S new_v8 (uci_server_nonce u) (nonce_as_bytes n)
                 = derived_id S new_v8 (uci_server_nonce u) (nonce_as_bytes m))"
  by (auto simp: verify_connection_id_eq [OF assms] from_unverified_def)

theorem verify_connection_id_accepts_iff_witness:
  "verify_connection_id sample_sha id
     \<lparr>uci_server_nonce = [1], uci_id = 1 # replicate 15 2\<rparr> (IdNonce (replicate 16 2)) =
   Ret (Ok (ConnectionId (1 # replicate 15 2)))"
  using verify_connection_id_accepts_iff [OF sample_sha_laws, of id
      "\<lparr>uci_server_nonce = [1], uci_id = 1 # replicate 15 2\<rparr>" "IdNonce (replicate 16 2)"
      "ConnectionId (1 # replicate 15 2)"]
  by (simp add: from_unverified_def derived_id_def sample_sha_def)

end
