(* ===== verification/Client_Types.thy ===== *)
theory Client_Types
  imports Chain_Build Connection_Id
begin

text \<open>
  The small types of \<open>rc-x509-client\<close> that the codec and the connection share:
  \<open>host_runtime/correlation_id.rs\<close>, \<open>payload.rs\<close>, \<open>build_version.rs\<close>, \<open>app_info.rs\<close>,
  \<open>endpoint.rs\<close>, \<open>connection/reconnection.rs\<close>, \<open>metrics.rs\<close> and \<open>host_runtime/api.rs\<close>.
\<close>

section \<open>Identifiers and payloads\<close>

datatype correlation_id = CorrelationId u64

fun correlation_id_get :: "correlation_id \<Rightarrow> u64" where
  "correlation_id_get (CorrelationId v) = v"

datatype payload = Payload bytes

fun payload_as_bytes :: "payload \<Rightarrow> bytes" where
  "payload_as_bytes (Payload b) = b"

definition payload_len :: "payload \<Rightarrow> nat" where
  "payload_len p = length (payload_as_bytes p)"

definition payload_is_empty :: "payload \<Rightarrow> bool" where
  "payload_is_empty p = (payload_as_bytes p = [])"

section \<open>Build and application information\<close>

record build_version =
  bv_commit :: "string option"
  bv_major :: u32
  bv_minor :: u32
  bv_patch :: u32
  bv_pre :: "string option"

text \<open>
  The version the build system recorded: the three numbers parsed, an empty pre-release is none.
\<close>

definition build_version_from_build ::
  "u32 \<Rightarrow> u32 \<Rightarrow> u32 \<Rightarrow> string \<Rightarrow> string option \<Rightarrow> build_version" where
  "build_version_from_build major minor patch pre_env commit =
     \<lparr>bv_commit = commit, bv_major = major, bv_minor = minor, bv_patch = patch,
      bv_pre = (if pre_env = [] then None else Some pre_env)\<rparr>"

definition build_version_display :: "build_version \<Rightarrow> string" where
  "build_version_display v =
     decimal (unat (bv_major v)) @ ''.'' @ decimal (unat (bv_minor v)) @ ''.'' @ decimal (unat (bv_patch v))
     @ (case bv_pre v of None \<Rightarrow> [] | Some pre \<Rightarrow> ''-'' @ pre)
     @ (case bv_commit v of None \<Rightarrow> [] | Some hash \<Rightarrow> '' ('' @ hash @ '')'')"

datatype app_name = AppName string

fun app_name_to_string :: "app_name \<Rightarrow> string" where
  "app_name_to_string (AppName s) = s"

datatype app_version = AppVersion string

fun app_version_to_string :: "app_version \<Rightarrow> string" where
  "app_version_to_string (AppVersion s) = s"

record app_info =
  ai_name :: app_name
  ai_version :: app_version

definition app_info_new :: "string \<Rightarrow> string \<Rightarrow> app_info" where
  "app_info_new name version = \<lparr>ai_name = AppName name, ai_version = AppVersion version\<rparr>"

text \<open>The endpoint name as the host reports it, not yet parsed.\<close>

datatype client_endpoint_hostname = ClientEndpointHostname string

section \<open>Reconnection information\<close>

datatype graceful_disconnection_count = GracefulDisconnectionCount u64

fun graceful_as_raw :: "graceful_disconnection_count \<Rightarrow> u64" where
  "graceful_as_raw (GracefulDisconnectionCount v) = v"

datatype ungraceful_disconnection_count = UngracefulDisconnectionCount u64

fun ungraceful_as_raw :: "ungraceful_disconnection_count \<Rightarrow> u64" where
  "ungraceful_as_raw (UngracefulDisconnectionCount v) = v"

datatype last_connected_duration = LastConnectedDuration u64

text \<open>A duration is its whole seconds and nanoseconds; \<open>as_secs\<close> drops the latter.\<close>

record duration =
  dur_secs :: u64
  dur_nanos :: u32

definition last_connected_duration_new :: "duration \<Rightarrow> last_connected_duration" where
  "last_connected_duration_new v = LastConnectedDuration (dur_secs v)"

fun duration_as_seconds :: "last_connected_duration \<Rightarrow> u64" where
  "duration_as_seconds (LastConnectedDuration v) = v"

datatype reconnection_data = ReconnectionData bytes

fun reconnection_as_bytes :: "reconnection_data \<Rightarrow> bytes" where
  "reconnection_as_bytes (ReconnectionData b) = b"

section \<open>Metrics\<close>

record instance_metrics =
  im_version :: build_version
  im_graceful_disconnect :: graceful_disconnection_count
  im_ungraceful_disconnect :: ungraceful_disconnection_count
  im_last_conn_duration :: u64

definition metrics_last_conn_duration :: "instance_metrics \<Rightarrow> last_connected_duration" where
  "metrics_last_conn_duration self =
     last_connected_duration_new \<lparr>dur_secs = im_last_conn_duration self, dur_nanos = 0\<rparr>"

definition set_last_conn_duration :: "duration \<Rightarrow> instance_metrics \<Rightarrow> instance_metrics" where
  "set_last_conn_duration v self = self\<lparr>im_last_conn_duration := dur_secs v\<rparr>"

definition instance_metrics_default :: "build_version \<Rightarrow> instance_metrics" where
  "instance_metrics_default version = \<lparr>
     im_version = version,
     im_graceful_disconnect = GracefulDisconnectionCount 0,
     im_ungraceful_disconnect = UngracefulDisconnectionCount 0,
     im_last_conn_duration = 0\<rparr>"

section \<open>The host connection\<close>

datatype connection_err = ConnUnknown | ConnClosed | ConnQueueFull

end
