(* ===== verification/Codec.thy ===== *)
theory Codec
  imports Client_Types
begin

text \<open>
  The messages of a connection and their conversion to and from the wire types:
  \<open>codec/client_to_server.rs\<close> and \<open>codec/server_to_client.rs\<close> of \<open>rc-x509-client\<close>, and
  \<open>encode\<close>, \<open>decode\<close> of \<open>rc-x509-proto/src/lib.rs\<close>. The wire types have the fields of the
  protobuf definitions under \<open>rc-x509-proto/protos\<close>; their byte encoding, generated at build
  time, is a parameter.
\<close>

section \<open>Wire types\<close>

datatype magic_tunnel_result = MagicTunnelResponseBytes bytes | MagicTunnelHandlerError string

text \<open>A response payload holds at most one magic tunnel response, which holds at most one result.\<close>

datatype dispatch_response_payload =
  DispatchResponsePayload "magic_tunnel_result option option"

datatype wire_dispatch_error =
    WireUnspecified
  | WireUnknownPayload
  | WireNoDispatchHandler
  | WireHandlerQueueFull
  | WireClientReturnedUnknown
  | WireDispatchQueueFull
  | WireClosed
  | WireReplyDeserialisation
  | WireHandlerExecTimeout

text \<open>The numbers of the enumeration, as written by \<open>as i32\<close>.\<close>

fun wire_dispatch_error_number :: "wire_dispatch_error \<Rightarrow> int" where
  "wire_dispatch_error_number WireUnspecified = 0"
| "wire_dispatch_error_number WireUnknownPayload = 1"
| "wire_dispatch_error_number WireNoDispatchHandler = 2"
| "wire_dispatch_error_number WireHandlerQueueFull = 3"
| "wire_dispatch_error_number WireClientReturnedUnknown = 4"
| "wire_dispatch_error_number WireDispatchQueueFull = 5"
| "wire_dispatch_error_number WireClosed = 6"
| "wire_dispatch_error_number WireReplyDeserialisation = 7"
| "wire_dispatch_error_number WireHandlerExecTimeout = 8"

datatype wire_dispatch_result =
    WireResultError int
  | WireResultPayload dispatch_response_payload

record wire_client_hello =
  wh_nonce :: bytes
  wh_graceful_disconnection_count :: u64
  wh_ungraceful_disconnection_count :: u64
  wh_reconnection_data :: bytes
  wh_version_major :: u32
  wh_version_minor :: u32
  wh_version_patch :: u32
  wh_version_pre :: "string option"
  wh_version_commit :: "string option"
  wh_app_name :: string
  wh_app_version :: string
  wh_last_closed_connection_duration_seconds :: u64

datatype wire_protocol_error =
    WireHandshakeAckBeforeHello
  | WireHandshakeDuplicateAck
  | WireHandshakeConnectionIdRejected
  | WireDeserialisationFailed string
  | WireCertIdInvalidLength u64
  | WireDispatchBeforeHandshake u64
  | WireDispatchMissingSignature u64

datatype wire_client_to_server =
    WirePong
  | WireClientHello wire_client_hello
  | WireDispatchResponse u64 "wire_dispatch_result option"
  | WireClientProtocolError bool "wire_protocol_error option"

record wire_detached_signature =
  ws_cert_id :: bytes
  ws_signature :: bytes

datatype wire_server_to_client =
    WirePing
  | WireCertificatePush "bytes list"
  | WireDispatchRequest u64 "wire_detached_signature option" bytes
  | WireClientHelloAck "bytes option" bytes
  | WireSetReconnectionData bytes

text \<open>
  The generated codec: the outer message is optional in both directions, and a failed decoding is
  reported with a text.
\<close>

record proto_codec =
  proto_encode :: "wire_client_to_server option \<Rightarrow> bytes"
  proto_decode :: "bytes \<Rightarrow> string + wire_server_to_client option"
  proto_decode_response :: "bytes \<Rightarrow> string + dispatch_response_payload"

section \<open>Messages to the server\<close>

datatype protocol_error =
    HandshakeAckBeforeHello
  | HandshakeDuplicateAck
  | HandshakeConnectionIdRejected
  | DeserialisationFailed string
  | CertIdLengthRejected usize
  | DispatchBeforeHandshake correlation_id
  | DispatchMissingSignature correlation_id

record client_hello =
  ch_client_nonce :: bytes
  ch_graceful :: graceful_disconnection_count
  ch_ungraceful :: ungraceful_disconnection_count
  ch_last_closed_connection_duration :: last_connected_duration
  ch_reconnection_data :: "reconnection_data option"
  ch_version_info :: build_version
  ch_app_name :: app_name
  ch_app_version :: app_version

datatype client_to_server =
    Pong
  | ClientHello client_hello
  | DispatchResponse correlation_id wire_dispatch_result
  | ProtocolError protocol_error bool

fun protocol_error_to_wire :: "protocol_error \<Rightarrow> wire_protocol_error" where
  "protocol_error_to_wire HandshakeAckBeforeHello = WireHandshakeAckBeforeHello"
| "protocol_error_to_wire HandshakeDuplicateAck = WireHandshakeDuplicateAck"
| "protocol_error_to_wire HandshakeConnectionIdRejected = WireHandshakeConnectionIdRejected"
| "protocol_error_to_wire (DeserialisationFailed msg) = WireDeserialisationFailed msg"
| "protocol_error_to_wire (CertIdLengthRejected v) = WireCertIdInvalidLength v"
| "protocol_error_to_wire (DispatchBeforeHandshake i) = WireDispatchBeforeHandshake (correlation_id_get i)"
| "protocol_error_to_wire (DispatchMissingSignature i) = WireDispatchMissingSignature (correlation_id_get i)"

fun client_to_server_to_wire :: "client_to_server \<Rightarrow> wire_client_to_server" where
  "client_to_server_to_wire (ClientHello h) = WireClientHello \<lparr>
     wh_nonce = ch_client_nonce h,
     wh_graceful_disconnection_count = graceful_as_raw (ch_graceful h),
     wh_ungraceful_disconnection_count = ungraceful_as_raw (ch_ungraceful h),
     wh_reconnection_data =
       (case ch_reconnection_data h of None \<Rightarrow> [] | Some v \<Rightarrow> reconnection_as_bytes v),
     wh_version_major = bv_major (ch_version_info h),
     wh_version_minor = bv_minor (ch_version_info h),
     wh_version_patch = bv_patch (ch_version_info h),
     wh_version_pre = bv_pre (ch_version_info h),
     wh_version_commit = bv_commit (ch_version_info h),
     wh_app_name = app_name_to_string (ch_app_name h),
     wh_app_version = app_version_to_string (ch_app_version h),
     wh_last_closed_connection_duration_seconds =
       duration_as_seconds (ch_last_closed_connection_duration h)\<rparr>"
| "client_to_server_to_wire Pong = WirePong"
| "client_to_server_to_wire (DispatchResponse i result) =
     WireDispatchResponse (correlation_id_get i) (Some result)"
| "client_to_server_to_wire (ProtocolError reason is_handshake_complete) =
     WireClientProtocolError is_handshake_complete (Some (protocol_error_to_wire reason))"

definition client_to_server_bytes :: "proto_codec \<Rightarrow> client_to_server \<Rightarrow> bytes" where
  "client_to_server_bytes P value = proto_encode P (Some (client_to_server_to_wire value))"

section \<open>Messages from the server\<close>

datatype decoding_error = Wire string | NoMessage

fun decoding_error_to_string :: "decoding_error \<Rightarrow> string" where
  "decoding_error_to_string (Wire e) = ''deserialisation error: '' @ e"
| "decoding_error_to_string NoMessage = ''no message''"

record detached_signature =
  ds_cert_id :: bytes
  ds_signature :: bytes

datatype server_to_client =
    Ping
  | CertificatePush "untrusted_cert_bytes list"
  | Dispatch correlation_id payload "detached_signature option"
  | ClientHelloAck untrusted_connection_id
  | SetReconnectionData reconnection_data

fun server_to_client_from_wire :: "wire_server_to_client \<Rightarrow> server_to_client" where
  "server_to_client_from_wire WirePing = Ping"
| "server_to_client_from_wire (WireDispatchRequest i sig request) =
     Dispatch (CorrelationId i) (Payload request)
       (map_option (\<lambda>v. \<lparr>ds_cert_id = ws_cert_id v, ds_signature = ws_signature v\<rparr>) sig)"
| "server_to_client_from_wire (WireCertificatePush certs) =
     CertificatePush (map UntrustedCertBytes certs)"
| "server_to_client_from_wire (WireClientHelloAck connection_id server_nonce) =
     ClientHelloAck (untrusted_connection_id_new server_nonce
       (case connection_id of None \<Rightarrow> [] | Some uuid_v8 \<Rightarrow> uuid_v8))"
| "server_to_client_from_wire (WireSetReconnectionData opaque) =
     SetReconnectionData (ReconnectionData opaque)"

definition server_to_client_try_from ::
  "proto_codec \<Rightarrow> bytes \<Rightarrow> decoding_error + server_to_client" where
  "server_to_client_try_from P value =
     try_op (proto_decode P value) Wire (\<lambda>got.
       case got of None \<Rightarrow> Err NoMessage | Some m \<Rightarrow> Ok (server_to_client_from_wire m))"

text \<open>What the stream of a connection yields: a message, or why there is none.\<close>

type_synonym incoming = "decoding_error + server_to_client"

section \<open>Lemmas\<close>

text \<open>
  The outgoing conversion drops only the difference between absent and empty reconnection data.
\<close>

fun drop_empty_reconnection :: "client_to_server \<Rightarrow> client_to_server" where
  "drop_empty_reconnection (ClientHello h) =
     ClientHello (if ch_reconnection_data h = Some (ReconnectionData [])
       then h\<lparr>ch_reconnection_data := None\<rparr> else h)"
| "drop_empty_reconnection m = m"

fun wire_to_protocol_error :: "wire_protocol_error \<Rightarrow> protocol_error" where
  "wire_to_protocol_error WireHandshakeAckBeforeHello = HandshakeAckBeforeHello"
| "wire_to_protocol_error WireHandshakeDuplicateAck = HandshakeDuplicateAck"
| "wire_to_protocol_error WireHandshakeConnectionIdRejected = HandshakeConnectionIdRejected"
| "wire_to_protocol_error (WireDeserialisationFailed msg) = DeserialisationFailed msg"
| "wire_to_protocol_error (WireCertIdInvalidLength v) = CertIdLengthRejected v"
| "wire_to_protocol_error (WireDispatchBeforeHandshake i) = DispatchBeforeHandshake (CorrelationId i)"
| "wire_to_protocol_error (WireDispatchMissingSignature i) = DispatchMissingSignature (CorrelationId i)"

fun wire_to_client_to_server :: "wire_client_to_server \<Rightarrow> client_to_server option" where
  "wire_to_client_to_server WirePong = Some Pong"
| "wire_to_client_to_server (WireClientHello w) = Some (ClientHello \<lparr>
     ch_client_nonce = wh_nonce w,
     ch_graceful = GracefulDisconnectionCount (wh_graceful_disconnection_count w),
     ch_ungraceful = UngracefulDisconnectionCount (wh_ungraceful_disconnection_count w),
     ch_last_closed_connection_duration =
       LastConnectedDuration (wh_last_closed_connection_duration_seconds w),
     ch_reconnection_data =
       (if wh_reconnection_data w = [] then None else Some (ReconnectionData (wh_reconnection_data w))),
     ch_version_info = \<lparr>bv_commit = wh_version_commit w, bv_major = wh_version_major w,
       bv_minor = wh_version_minor w, bv_patch = wh_version_patch w, bv_pre = wh_version_pre w\<rparr>,
     ch_app_name = AppName (wh_app_name w),
     ch_app_version = AppVersion (wh_app_version w)\<rparr>)"
| "wire_to_client_to_server (WireDispatchResponse i r) = map_option (DispatchResponse (CorrelationId i)) r"
| "wire_to_client_to_server (WireClientProtocolError b e) =
     map_option (\<lambda>e. ProtocolError (wire_to_protocol_error e) b) e"

lemma newtype_inverses [simp]:
  "CorrelationId (correlation_id_get i) = i"
  "GracefulDisconnectionCount (graceful_as_raw g) = g"
  "UngracefulDisconnectionCount (ungraceful_as_raw u) = u"
  "LastConnectedDuration (duration_as_seconds l) = l"
  "ReconnectionData (reconnection_as_bytes r) = r"
  "AppName (app_name_to_string n) = n"
  "AppVersion (app_version_to_string v) = v"
  by (cases i; cases g; cases u; cases l; cases r; cases n; cases v; simp)+

lemma wire_protocol_error_inverse [simp]:
  "wire_to_protocol_error (protocol_error_to_wire e) = e"
  by (cases e) simp_all

lemma reconnection_as_bytes_empty [simp]:
  "reconnection_as_bytes r = [] \<longleftrightarrow> r = ReconnectionData []"
  by (cases r) simp

lemma wire_roundtrip:
  "wire_to_client_to_server (client_to_server_to_wire m) = Some (drop_empty_reconnection m)"
proof (cases m)
  case (ClientHello h)
  show ?thesis
    by (cases h; cases "ch_version_info h"; cases "ch_reconnection_data h")
      (auto simp: ClientHello)
qed simp_all

lemma to_wire_drop_empty:
  "client_to_server_to_wire (drop_empty_reconnection m) = client_to_server_to_wire m"
  by (cases m) auto

section \<open>Properties\<close>

text \<open>
  C39. The conversion of an outgoing message to its wire form loses nothing but the difference
  between absent and empty reconnection data: a reader of the wire form recovers every field, and
  two messages share a wire form exactly when they agree up to that difference.
\<close>

theorem outgoing_wire_faithful:
  "wire_to_client_to_server (client_to_server_to_wire m) = Some (drop_empty_reconnection m)
   \<and> (client_to_server_to_wire m = client_to_server_to_wire n \<longleftrightarrow>
        drop_empty_reconnection m = drop_empty_reconnection n)"
proof -
  have "drop_empty_reconnection m = drop_empty_reconnection n"
    if "client_to_server_to_wire m = client_to_server_to_wire n"
    using that wire_roundtrip by (metis option.inject)
  moreover have "client_to_server_to_wire m = client_to_server_to_wire n"
    if "drop_empty_reconnection m = drop_empty_reconnection n"
    using that to_wire_drop_empty by metis
  ultimately show ?thesis using wire_roundtrip by blast
qed

text \<open>
  An incoming message is accepted exactly when its bytes decode and name a message. Two wire
  messages are read as the same message only if they are equal or are handshake acknowledgements
  with the same nonce of which one lacks the connection identifier that the other gives as empty;
  an absent detached signature is never read as a present one.
\<close>

lemma incoming_wire_faithful:
  "(server_to_client_try_from P b = Ok m \<longleftrightarrow>
      (\<exists>w. proto_decode P b = Ok (Some w) \<and> server_to_client_from_wire w = m))
   \<and> (server_to_client_try_from P b = Err NoMessage \<longleftrightarrow> proto_decode P b = Ok None)
   \<and> (server_to_client_from_wire v = server_to_client_from_wire w \<longleftrightarrow>
        v = w \<or> (\<exists>n. {v, w} = {WireClientHelloAck None n, WireClientHelloAck (Some []) n}))"
proof -
  have ack: "(case a of None \<Rightarrow> [] | Some u \<Rightarrow> u) = (case b of None \<Rightarrow> [] | Some u \<Rightarrow> u) \<longleftrightarrow>
      a = b \<or> (a = None \<and> b = Some []) \<or> (a = Some [] \<and> b = None)" for a b :: "bytes option"
    by (auto split: option.splits)
  have sig: "map_option (\<lambda>v. \<lparr>ds_cert_id = ws_cert_id v, ds_signature = ws_signature v\<rparr>) a =
      map_option (\<lambda>v. \<lparr>ds_cert_id = ws_cert_id v, ds_signature = ws_signature v\<rparr>) b \<longleftrightarrow> a = b"
    for a b :: "wire_detached_signature option"
    by (cases a; cases b) (auto intro: wire_detached_signature.equality)
  have certs: "map UntrustedCertBytes a = map UntrustedCertBytes b \<longleftrightarrow> a = b" for a b
    by (simp add: inj_on_def inj_map_eq_map)
  have "server_to_client_from_wire v = server_to_client_from_wire w \<longleftrightarrow>
        v = w \<or> (\<exists>n. {v, w} = {WireClientHelloAck None n, WireClientHelloAck (Some []) n})"
    by (cases v; cases w)
      (auto simp: sig certs ack untrusted_connection_id_new_def doubleton_eq_iff)
  then show ?thesis
    by (auto simp: server_to_client_try_from_def outcome_simps split: option.splits)
qed

end
