(* ===== verification/Dispatch.thy ===== *)
theory Dispatch
  imports Codec
begin

text \<open>
  The hand-over of requests to the host application and of its results back:
  \<open>dispatch.rs\<close> of \<open>rc-x509-client\<close>.

  What the client calls of the asynchronous runtime and of the host is the parameter
  \<open>'w env\<close>, a record of operations over a world \<open>'w\<close>: the channels (named by numbers), the
  host's send, the wait for a stop signal or a second, the random fill and the metrics shared
  between connections. An operation that may wait for ever returns None then. The environment
  \<open>logged E\<close> runs \<open>E\<close> and records each call with its outcome, so that statements about the
  calls a component makes are statements about its run in \<open>logged E\<close>, for every \<open>E\<close>. The
  last five kinds of event are what the connection actor observes of its inputs.
\<close>

section \<open>Requests and results\<close>

definition DISPATCH_QUEUE_LEN :: nat where
  "DISPATCH_QUEUE_LEN = 255"

record dispatch_request =
  dr_correlation_id :: correlation_id
  dr_payload :: payload

datatype dispatch_error =
    UnknownPayload
  | NoDispatchHandler
  | HandlerQueueFull
  | DispatchRequestQueueFull
  | DispatchClosed
  | ReplyDeserialisation string
  | UnknownHostDispatchError
  | HandlerExecTimeout

record dispatch_result =
  res_correlation_id :: correlation_id
  res_result :: "dispatch_error + dispatch_response_payload"

fun dispatch_error_to_wire :: "dispatch_error \<Rightarrow> wire_dispatch_error" where
  "dispatch_error_to_wire UnknownPayload = WireUnknownPayload"
| "dispatch_error_to_wire NoDispatchHandler = WireNoDispatchHandler"
| "dispatch_error_to_wire HandlerQueueFull = WireHandlerQueueFull"
| "dispatch_error_to_wire DispatchRequestQueueFull = WireDispatchQueueFull"
| "dispatch_error_to_wire DispatchClosed = WireClosed"
| "dispatch_error_to_wire (ReplyDeserialisation _) = WireReplyDeserialisation"
| "dispatch_error_to_wire UnknownHostDispatchError = WireClientReturnedUnknown"
| "dispatch_error_to_wire HandlerExecTimeout = WireHandlerExecTimeout"

section \<open>Channels\<close>

type_synonym chan = nat

datatype try_send_outcome = TrySent | TrySendClosed | TrySendFull

type_synonym token = nat

record 'w env =
  chan_new :: "nat \<Rightarrow> 'w \<Rightarrow> chan \<times> 'w"
  try_send :: "chan \<Rightarrow> dispatch_request \<Rightarrow> 'w \<Rightarrow> try_send_outcome \<times> 'w"
  weak_upgrade :: "chan \<Rightarrow> 'w \<Rightarrow> bool \<times> 'w"
  send_result :: "chan \<Rightarrow> dispatch_result \<Rightarrow> 'w \<Rightarrow> ((unit + unit) \<times> 'w) option"
  io_send :: "client_to_server \<Rightarrow> 'w \<Rightarrow> ((connection_err + unit) \<times> 'w) option"
  stop_or_sleep :: "token \<Rightarrow> 'w \<Rightarrow> bool \<times> 'w"
  rand_fill :: "'w \<Rightarrow> (unit + bytes) \<times> 'w"
  load_metrics :: "'w \<Rightarrow> instance_metrics"
  store_metrics :: "instance_metrics \<Rightarrow> 'w \<Rightarrow> 'w"

datatype event =
    EvTrySend chan dispatch_request try_send_outcome
  | EvUpgrade chan bool
  | EvSendResult chan dispatch_result "unit + unit"
  | EvIoSend client_to_server "connection_err + unit"
  | EvStopOrSleep token bool
  | EvRandFill "unit + bytes"
  | EvResult dispatch_result
  | EvMessage incoming
  | EvStopSeen token
  | EvResultsEnded chan
  | EvMessagesEnded

definition logged :: "'w env \<Rightarrow> ('w \<times> event list) env" where
  "logged E = \<lparr>
     chan_new = (\<lambda>cap (w, l). let (c, w') = chan_new E cap w in (c, w', l)),
     try_send = (\<lambda>c d (w, l). let (r, w') = try_send E c d w in (r, w', l @ [EvTrySend c d r])),
     weak_upgrade = (\<lambda>c (w, l). let (r, w') = weak_upgrade E c w in (r, w', l @ [EvUpgrade c r])),
     send_result = (\<lambda>c d (w, l). map_option (\<lambda>(r, w'). (r, w', l @ [EvSendResult c d r])) (send_result E c d w)),
     io_send = (\<lambda>m (w, l). map_option (\<lambda>(r, w'). (r, w', l @ [EvIoSend m r])) (io_send E m w)),
     stop_or_sleep = (\<lambda>t (w, l). let (r, w') = stop_or_sleep E t w in (r, w', l @ [EvStopOrSleep t r])),
     rand_fill = (\<lambda>(w, l). let (r, w') = rand_fill E w in (r, w', l @ [EvRandFill r])),
     load_metrics = (\<lambda>(w, l). load_metrics E w),
     store_metrics = (\<lambda>m (w, l). (store_metrics E m w, l))\<rparr>"

section \<open>The publisher, the stream and the responder\<close>

record dispatch_publisher =
  pub_tx :: chan
  pub_rx :: "chan option"
  pub_errors :: chan

datatype dispatch_stream = DispatchStream chan

datatype dispatch_responder = DispatchResponder chan

datatype dispatch_response_queue_closed = DispatchResponseQueueClosed

definition publisher_dispatch ::
  "'w env \<Rightarrow> dispatch_publisher \<Rightarrow> dispatch_request \<Rightarrow> 'w
     \<Rightarrow> ((dispatch_error + unit) \<times> 'w) option" where
  "publisher_dispatch E self request w =
     (let correlation_id = dr_correlation_id request;
          fail = (\<lambda>err w.
            case weak_upgrade E (pub_errors self) w of
              (True, w') \<Rightarrow>
                (case send_result E (pub_errors self)
                    \<lparr>res_correlation_id = correlation_id, res_result = Err err\<rparr> w' of
                   None \<Rightarrow> None
                 | Some (_, w'') \<Rightarrow> Some (Err err, w''))
            | (False, w') \<Rightarrow> Some (Err err, w'))
      in case try_send E (pub_tx self) request w of
           (TrySent, w') \<Rightarrow> Some (Ok (), w')
         | (TrySendClosed, w') \<Rightarrow> fail DispatchClosed w'
         | (TrySendFull, w') \<Rightarrow> fail DispatchRequestQueueFull w')"

definition take_recv_stream :: "dispatch_publisher \<Rightarrow> chan option \<times> dispatch_publisher" where
  "take_recv_stream self = (pub_rx self, self\<lparr>pub_rx := None\<rparr>)"

fun send_response ::
  "'w env \<Rightarrow> dispatch_responder \<Rightarrow> dispatch_result \<Rightarrow> 'w
     \<Rightarrow> ((dispatch_response_queue_closed + unit) \<times> 'w) option" where
  "send_response E (DispatchResponder tx) result w =
     (case send_result E tx result w of
        None \<Rightarrow> None
      | Some (Inr _, w') \<Rightarrow> Some (Ok (), w')
      | Some (Inl _, w') \<Rightarrow> Some (Err DispatchResponseQueueClosed, w'))"

definition new_dispatcher_interconnect ::
  "'w env \<Rightarrow> 'w
     \<Rightarrow> (dispatch_publisher \<times> dispatch_stream \<times> dispatch_responder) \<times> 'w" where
  "new_dispatcher_interconnect E w =
     (let (c1, w1) = chan_new E DISPATCH_QUEUE_LEN w;
          (c2, w2) = chan_new E (DISPATCH_QUEUE_LEN + 1) w1
      in ((\<lparr>pub_tx = c1, pub_rx = Some c2, pub_errors = c2\<rparr>, DispatchStream c1,
           DispatchResponder c2), w2))"

section \<open>A bounded-queue instance\<close>

text \<open>
  The documented behaviour of a bounded channel, as an instance: a world is two queues with
  capacities, whether the reader of the first is alive, and whether a strong sender of the second
  is. A send to a full second queue waits; nothing drains it while the sender waits.
\<close>

record queues =
  q_requests :: "dispatch_request list"
  q_requests_cap :: nat
  q_reader_alive :: bool
  q_responses :: "dispatch_result list"
  q_responses_cap :: nat
  q_sender_alive :: bool

definition queue_env :: "'a queues_scheme env" where
  "queue_env = \<lparr>
     chan_new = (\<lambda>cap w. if cap = DISPATCH_QUEUE_LEN then (1, w\<lparr>q_requests_cap := cap\<rparr>)
                         else (2, w\<lparr>q_responses_cap := cap\<rparr>)),
     try_send = (\<lambda>c d w. if \<not> q_reader_alive w then (TrySendClosed, w)
                 else if length (q_requests w) < q_requests_cap w
                 then (TrySent, w\<lparr>q_requests := q_requests w @ [d]\<rparr>)
                 else (TrySendFull, w)),
     weak_upgrade = (\<lambda>c w. (q_sender_alive w, w)),
     send_result = (\<lambda>c r w. if length (q_responses w) < q_responses_cap w
                 then Some (Ok (), w\<lparr>q_responses := q_responses w @ [r]\<rparr>)
                 else None),
     io_send = (\<lambda>m w. Some (Ok (), w)),
     stop_or_sleep = (\<lambda>t w. (False, w)),
     rand_fill = (\<lambda>w. (Ok (replicate 16 1), w)),
     load_metrics = (\<lambda>w. instance_metrics_default (build_version_from_build 1 0 0 [] None)),
     store_metrics = (\<lambda>m w. w)\<rparr>"

section \<open>Lemmas\<close>

lemma logged_simps [simp]:
  "try_send (logged E) c d (w, l) = (case try_send E c d w of (r, w') \<Rightarrow> (r, w', l @ [EvTrySend c d r]))"
  "weak_upgrade (logged E) c (w, l) = (case weak_upgrade E c w of (b, w') \<Rightarrow> (b, w', l @ [EvUpgrade c b]))"
  "send_result (logged E) c x (w, l) =
     map_option (\<lambda>(r, w'). (r, w', l @ [EvSendResult c x r])) (send_result E c x w)"
  "io_send (logged E) m (w, l) = map_option (\<lambda>(r, w'). (r, w', l @ [EvIoSend m r])) (io_send E m w)"
  "stop_or_sleep (logged E) t (w, l) =
     (case stop_or_sleep E t w of (b, w') \<Rightarrow> (b, w', l @ [EvStopOrSleep t b]))"
  "rand_fill (logged E) (w, l) = (case rand_fill E w of (r, w') \<Rightarrow> (r, w', l @ [EvRandFill r]))"
  "load_metrics (logged E) (w, l) = load_metrics E w"
  "store_metrics (logged E) im (w, l) = (store_metrics E im w, l)"
  by (simp_all add: logged_def)

lemma publisher_dispatch_sent:
  "try_send E (pub_tx p) d w = (TrySent, w') \<Longrightarrow> publisher_dispatch E p d w = Some (Ok (), w')"
  by (simp add: publisher_dispatch_def Let_def)

lemma publisher_dispatch_failed:
  assumes "try_send E (pub_tx p) d w = (t, w')"
    and "t = TrySendClosed \<and> err = DispatchClosed \<or> t = TrySendFull \<and> err = DispatchRequestQueueFull"
  shows "publisher_dispatch E p d w =
    (case weak_upgrade E (pub_errors p) w' of
       (True, w1) \<Rightarrow> map_option (\<lambda>(_, w2). (Err err, w2))
         (send_result E (pub_errors p) \<lparr>res_correlation_id = dr_correlation_id d, res_result = Err err\<rparr> w1)
     | (False, w1) \<Rightarrow> Some (Err err, w1))"
  using assms
  by (auto simp: publisher_dispatch_def Let_def split: prod.splits bool.splits option.splits)

lemma take_recv_stream_once:
  "take_recv_stream p = (r, p') \<Longrightarrow> fst (take_recv_stream p') = None"
  by (auto simp: take_recv_stream_def)

lemma dispatch_error_wire_specified: "dispatch_error_to_wire e \<noteq> WireUnspecified"
  by (cases e) simp_all

lemma dispatch_error_wire_inj:
  "dispatch_error_to_wire e = dispatch_error_to_wire f \<longleftrightarrow>
     e = f \<or> (\<exists>s t. e = ReplyDeserialisation s \<and> f = ReplyDeserialisation t)"
  by (cases e; cases f) simp_all

lemma wire_number_inj: "wire_dispatch_error_number a = wire_dispatch_error_number b \<longleftrightarrow> a = b"
  by (cases a; cases b) simp_all

lemma wire_number_range: "wire_dispatch_error_number a \<in> {0..8}"
  by (cases a) simp_all

section \<open>Properties\<close>

text \<open>
  Every dispatch failure reaches the server as its own specified error number, 1 to 8, and two
  failures share a number only when both are undecodable replies.
\<close>

lemma dispatch_error_numbers:
  "wire_dispatch_error_number (dispatch_error_to_wire e) \<in> {1..8}
   \<and> (wire_dispatch_error_number (dispatch_error_to_wire e) =
        wire_dispatch_error_number (dispatch_error_to_wire f) \<longleftrightarrow>
      e = f \<or> (\<exists>s t. e = ReplyDeserialisation s \<and> f = ReplyDeserialisation t))"
proof -
  have "wire_dispatch_error_number (dispatch_error_to_wire e) \<in> {1..8}"
    by (cases e) simp_all
  then show ?thesis by (simp add: wire_number_inj dispatch_error_wire_inj)
qed

text \<open>The failures of a queue that the publisher reports.\<close>

fun reported_as :: "try_send_outcome \<Rightarrow> dispatch_error option" where
  "reported_as TrySent = None"
| "reported_as TrySendClosed = Some DispatchClosed"
| "reported_as TrySendFull = Some DispatchRequestQueueFull"

text \<open>The calls of one dispatch with its result: offered once, and a failure reported once.\<close>

definition offer_log ::
  "dispatch_publisher \<Rightarrow> dispatch_request \<Rightarrow> dispatch_error + unit \<Rightarrow> event list \<Rightarrow> bool" where
  "offer_log p d r l \<longleftrightarrow> (\<exists>t. case reported_as t of
      None \<Rightarrow> r = Ok () \<and> l = [EvTrySend (pub_tx p) d t]
    | Some err \<Rightarrow> r = Err err \<and>
        (l = [EvTrySend (pub_tx p) d t, EvUpgrade (pub_errors p) False]
         \<or> (\<exists>b. l = [EvTrySend (pub_tx p) d t, EvUpgrade (pub_errors p) True,
              EvSendResult (pub_errors p)
                \<lparr>res_correlation_id = dr_correlation_id d, res_result = Err err\<rparr> b])))"

lemma dispatch_log:
  assumes "publisher_dispatch (logged E) p d (w, l) = Some (r, w', l')"
  shows "\<exists>l1. l' = l @ l1 \<and> offer_log p d r l1"
proof -
  obtain t w1 where t: "try_send E (pub_tx p) d w = (t, w1)" by fastforce
  show ?thesis
  proof (cases "reported_as t")
    case None
    then have "t = TrySent" by (cases t) simp_all
    then show ?thesis
      using assms t None unfolding offer_log_def
      by (intro exI [of _ "[EvTrySend (pub_tx p) d t]"] conjI exI [of _ t])
        (simp_all add: publisher_dispatch_sent)
  next
    case (Some err)
    have run: "publisher_dispatch (logged E) p d (w, l) =
      (case weak_upgrade (logged E) (pub_errors p) (w1, l @ [EvTrySend (pub_tx p) d t]) of
       (True, w1) \<Rightarrow> map_option (\<lambda>(_, w2). (Err err, w2))
         (send_result (logged E) (pub_errors p)
            \<lparr>res_correlation_id = dr_correlation_id d, res_result = Err err\<rparr> w1)
     | (False, w1) \<Rightarrow> Some (Err err, w1))"
      by (rule publisher_dispatch_failed [where t = t]) (use t Some in \<open>cases t; simp\<close>)+
    have "r = Err err \<and> (l' = l @ [EvTrySend (pub_tx p) d t, EvUpgrade (pub_errors p) False]
         \<or> (\<exists>b. l' = l @ [EvTrySend (pub_tx p) d t, EvUpgrade (pub_errors p) True,
              EvSendResult (pub_errors p)
                \<lparr>res_correlation_id = dr_correlation_id d, res_result = Err err\<rparr> b]))"
      using assms unfolding run by (auto simp: map_option_eq_Some split: prod.splits bool.splits)
    then show ?thesis
      using Some unfolding offer_log_def by (auto intro!: exI [of _ t])
  qed
qed

text \<open>
  Whatever the channels do: a dispatch offers the request to the queue once; if it is taken the
  call succeeds and does nothing else; if the queue is full or closed the call fails with the
  matching error, and exactly one result with the request's correlation identifier and that error
  is sent to the responses if the host still holds a responder, and none otherwise.
\<close>

lemma dispatch_reports_failure:
  assumes "publisher_dispatch (logged E) p d (w, []) = Some (r, w', l)"
  shows "(l = [EvTrySend (pub_tx p) d TrySent] \<and> r = Ok ())
    \<or> (\<exists>t err. reported_as t = Some err \<and> r = Err err \<and>
        (l = [EvTrySend (pub_tx p) d t, EvUpgrade (pub_errors p) False]
         \<or> (\<exists>b. l = [EvTrySend (pub_tx p) d t, EvUpgrade (pub_errors p) True,
              EvSendResult (pub_errors p)
                \<lparr>res_correlation_id = dr_correlation_id d, res_result = Err err\<rparr> b])))"
proof -
  obtain t where t: "case reported_as t of
      None \<Rightarrow> r = Ok () \<and> l = [EvTrySend (pub_tx p) d t]
    | Some err \<Rightarrow> r = Err err \<and>
        (l = [EvTrySend (pub_tx p) d t, EvUpgrade (pub_errors p) False]
         \<or> (\<exists>b. l = [EvTrySend (pub_tx p) d t, EvUpgrade (pub_errors p) True,
              EvSendResult (pub_errors p)
                \<lparr>res_correlation_id = dr_correlation_id d, res_result = Err err\<rparr> b]))"
    using dispatch_log [OF assms] unfolding offer_log_def by auto
  show ?thesis
  proof (cases "reported_as t")
    case None
    then have "t = TrySent" by (cases t) simp_all
    then show ?thesis using t by simp
  next
    case (Some err)
    then show ?thesis using t by auto
  qed
qed

lemma dispatch_reports_failure_witness:
  "\<exists>l. l = [EvTrySend 1 \<lparr>dr_correlation_id = CorrelationId 7, dr_payload = Payload []\<rparr> TrySendClosed,
       EvUpgrade 2 True,
       EvSendResult 2 \<lparr>res_correlation_id = CorrelationId 7, res_result = Err DispatchClosed\<rparr> (Ok ())]
     \<and> publisher_dispatch (logged queue_env) \<lparr>pub_tx = 1, pub_rx = Some 2, pub_errors = 2\<rparr>
         \<lparr>dr_correlation_id = CorrelationId 7, dr_payload = Payload []\<rparr>
         (\<lparr>q_requests = [], q_requests_cap = 255, q_reader_alive = False, q_responses = [],
           q_responses_cap = 256, q_sender_alive = True\<rparr>, []) =
       Some (Err DispatchClosed, \<lparr>q_requests = [], q_requests_cap = 255, q_reader_alive = False,
          q_responses = [\<lparr>res_correlation_id = CorrelationId 7, res_result = Err DispatchClosed\<rparr>],
          q_responses_cap = 256, q_sender_alive = True\<rparr>, l)"
proof -
  let ?d = "\<lparr>dr_correlation_id = CorrelationId 7, dr_payload = Payload []\<rparr>"
  let ?p = "\<lparr>pub_tx = 1, pub_rx = Some 2, pub_errors = 2\<rparr>"
  have run: "publisher_dispatch (logged queue_env) ?p ?d
      (\<lparr>q_requests = [], q_requests_cap = 255, q_reader_alive = False, q_responses = [],
           q_responses_cap = 256, q_sender_alive = True\<rparr>, []) =
      Some (Err DispatchClosed, \<lparr>q_requests = [], q_requests_cap = 255, q_reader_alive = False,
          q_responses = [\<lparr>res_correlation_id = CorrelationId 7, res_result = Err DispatchClosed\<rparr>],
          q_responses_cap = 256, q_sender_alive = True\<rparr>,
        [EvTrySend 1 ?d TrySendClosed, EvUpgrade 2 True,
         EvSendResult 2 \<lparr>res_correlation_id = CorrelationId 7, res_result = Err DispatchClosed\<rparr> (Ok ())])"
    by (simp add: publisher_dispatch_def queue_env_def Let_def)
  from dispatch_reports_failure [OF run] run show ?thesis by simp
qed

end
