(* ===== verification/Delegate.thy ===== *)
theory Delegate
  imports Dispatch
begin

text \<open>
  The connection state machine: \<open>connection/handler/hello.rs\<close> and the directory
  \<open>connection/handler/delegate/\<close> of \<open>rc-x509-client\<close> (\<open>retry.rs\<close>, \<open>fsm/fsm.rs\<close>, the four
  phases under \<open>fsm/\<close>, \<open>state.rs\<close> and \<open>message_delegate.rs\<close>). Effects go through the
  environment of \<open>Dispatch\<close>; an asynchronous function returns \<open>'a comp\<close>, so a phase may
  panic and may never return.
\<close>

section \<open>Sending with retries\<close>

partial_function (option) retry_send ::
  "'w env \<Rightarrow> client_to_server \<Rightarrow> token \<Rightarrow> 'w \<Rightarrow> 'w option" where
  "retry_send E value stop w =
     (case io_send E value w of
        None \<Rightarrow> None
      | Some (r, w1) \<Rightarrow>
          (case r of
             Inr _ \<Rightarrow> Some w1
           | Inl e \<Rightarrow>
               if e = ConnClosed then Some w1
               else
                 (case stop_or_sleep E stop w1 of
                    (stopped, w2) \<Rightarrow> if stopped then Some w2 else retry_send E value stop w2)))"

section \<open>Phases\<close>

text \<open>
  The data that every phase keeps. The metrics, which the source shares between connections by a
  counted reference, are part of the world.
\<close>

record ('s, 'v) fsm =
  fsm_stop :: token
  fsm_dispatch :: dispatch_publisher
  fsm_verifier :: 'v
  fsm_state :: 's

datatype pre_handshake = PreHandshakePhase app_info

datatype handshaking = HandshakingPhase id_nonce

datatype active = ActivePhase connection_id

datatype error_phase = ErrorPhase

datatype 'v conn_state =
    PreHandshake "(pre_handshake, 'v) fsm"
  | Handshaking "(handshaking, 'v) fsm"
  | Active "(active, 'v) fsm"
  | ErrorState "(error_phase, 'v) fsm"

definition into_state :: "('s, 'v) fsm \<Rightarrow> 'u \<Rightarrow> ('u, 'v) fsm" where
  "into_state self st = \<lparr>fsm_stop = fsm_stop self, fsm_dispatch = fsm_dispatch self,
     fsm_verifier = fsm_verifier self, fsm_state = st\<rparr>"

definition fsm_protocol_error ::
  "'w env \<Rightarrow> ('s, 'v) fsm \<Rightarrow> bool \<Rightarrow> protocol_error \<Rightarrow> 'w \<Rightarrow> ('v conn_state \<times> 'w) comp" where
  "fsm_protocol_error E self is_handshake_complete reason w =
     (case retry_send E (ProtocolError reason is_handshake_complete) (fsm_stop self) w of
        None \<Rightarrow> None
      | Some w' \<Rightarrow> done_with (ErrorState (into_state self ErrorPhase), w'))"

text \<open>A reply sent with retries, after which the phase is kept.\<close>

definition reply_and_stay ::
  "'w env \<Rightarrow> client_to_server \<Rightarrow> token \<Rightarrow> 'v conn_state \<Rightarrow> 'w \<Rightarrow> ('v conn_state \<times> 'w) comp" where
  "reply_and_stay E value stop st w =
     (case retry_send E value stop w of None \<Rightarrow> None | Some w' \<Rightarrow> done_with (st, w'))"

definition build_hello ::
  "'w env \<Rightarrow> app_info \<Rightarrow> 'w \<Rightarrow> ((id_nonce \<times> client_to_server) \<times> 'w) run" where
  "build_hello E info w =
     (case rand_fill E w of
        (fill, w') \<Rightarrow> run_bind (id_nonce_default fill) (\<lambda>nonce.
          let metrics = load_metrics E w' in
          Ret ((nonce, ClientHello \<lparr>
              ch_client_nonce = nonce_as_bytes nonce,
              ch_graceful = im_graceful_disconnect metrics,
              ch_ungraceful = im_ungraceful_disconnect metrics,
              ch_last_closed_connection_duration = metrics_last_conn_duration metrics,
              ch_reconnection_data = None,
              ch_version_info = im_version metrics,
              ch_app_name = ai_name info,
              ch_app_version = ai_version info\<rparr>), w')))"

section \<open>Before the handshake\<close>

definition fsm_new ::
  "token \<Rightarrow> dispatch_publisher \<Rightarrow> app_info \<Rightarrow> 'v \<Rightarrow> (pre_handshake, 'v) fsm" where
  "fsm_new stop dispatch info verifier = \<lparr>fsm_stop = stop, fsm_dispatch = dispatch,
     fsm_verifier = verifier, fsm_state = PreHandshakePhase info\<rparr>"

definition PRE_HANDSHAKE_COMPLETE :: bool where "PRE_HANDSHAKE_COMPLETE = False"
definition HANDSHAKING_COMPLETE :: bool where "HANDSHAKING_COMPLETE = False"
definition ACTIVE_COMPLETE :: bool where "ACTIVE_COMPLETE = True"
definition ERROR_COMPLETE :: bool where "ERROR_COMPLETE = True"

definition pre_handshake_send_hello ::
  "'w env \<Rightarrow> (pre_handshake, 'v) fsm \<Rightarrow> 'w \<Rightarrow> ('v conn_state \<times> 'w) comp" where
  "pre_handshake_send_hello E self w =
     (case fsm_state self of
        PreHandshakePhase info \<Rightarrow>
          comp_bind (Some (build_hello E info w)) (\<lambda>((nonce, hello), w1).
            case retry_send E hello (fsm_stop self) w1 of
              None \<Rightarrow> None
            | Some w2 \<Rightarrow> done_with (Handshaking (into_state self (HandshakingPhase nonce)), w2)))"

fun pre_handshake_process ::
  "'w env \<Rightarrow> (pre_handshake, 'v) fsm \<Rightarrow> server_to_client \<Rightarrow> 'w \<Rightarrow> ('v conn_state \<times> 'w) comp" where
  "pre_handshake_process E self Ping w =
     reply_and_stay E Pong (fsm_stop self) (PreHandshake self) w"
| "pre_handshake_process E self (CertificatePush _) w = done_with (PreHandshake self, w)"
| "pre_handshake_process E self (SetReconnectionData _) w = done_with (PreHandshake self, w)"
| "pre_handshake_process E self (ClientHelloAck _) w =
     fsm_protocol_error E self PRE_HANDSHAKE_COMPLETE HandshakeAckBeforeHello w"
| "pre_handshake_process E self (Dispatch correlation_id _ _) w =
     fsm_protocol_error E self PRE_HANDSHAKE_COMPLETE (DispatchBeforeHandshake correlation_id) w"

section \<open>During the handshake\<close>

text \<open>What the derivation of connection identifiers takes from other crates.\<close>

record 'h id_lib =
  id_sha :: "'h sha_lib"
  id_new_v8 :: "bytes \<Rightarrow> bytes"

text \<open>
  Taking the nonce leaves a freshly generated one behind, so the random source is read, and may
  panic, before the identifier is verified.
\<close>

fun handshaking_process ::
  "'w env \<Rightarrow> 'h id_lib \<Rightarrow> (handshaking, 'v) fsm \<Rightarrow> server_to_client \<Rightarrow> 'w
     \<Rightarrow> ('v conn_state \<times> 'w) comp" where
  "handshaking_process E I self Ping w =
     reply_and_stay E Pong (fsm_stop self) (Handshaking self) w"
| "handshaking_process E I self (CertificatePush _) w = done_with (Handshaking self, w)"
| "handshaking_process E I self (SetReconnectionData _) w = done_with (Handshaking self, w)"
| "handshaking_process E I self (ClientHelloAck proposed_id) w =
     (case fsm_state self of
        HandshakingPhase id_nonce \<Rightarrow>
          (case rand_fill E w of
             (fill, w1) \<Rightarrow>
               comp_bind (Some (id_nonce_default fill)) (\<lambda>placeholder.
               comp_bind (Some (verify_connection_id (id_sha I) (id_new_v8 I) proposed_id id_nonce)) (\<lambda>r.
                 case r of
                   Inr connection_id \<Rightarrow>
                     done_with (Active (into_state self (ActivePhase connection_id)), w1)
                 | Inl e \<Rightarrow>
                     fsm_protocol_error E self HANDSHAKING_COMPLETE HandshakeConnectionIdRejected w1))))"
| "handshaking_process E I self (Dispatch correlation_id _ _) w =
     fsm_protocol_error E self HANDSHAKING_COMPLETE (DispatchBeforeHandshake correlation_id) w"

definition outside_pre_handshake :: "('v conn_state \<times> 'w) comp" where
  "outside_pre_handshake = Some (Panic (''internal error: entered unreachable code: ''
     @ ''send_hello called outside the pre-handshake phase''))"

section \<open>After the handshake\<close>

definition handle_dispatch ::
  "'w env \<Rightarrow> (active, 'v) fsm \<Rightarrow> correlation_id \<Rightarrow> payload \<Rightarrow> detached_signature option \<Rightarrow> 'w
     \<Rightarrow> ('v conn_state \<times> 'w) comp" where
  "handle_dispatch E self correlation_id request sig w =
     (let parts = (case sig of
            Some s \<Rightarrow> if ds_signature s \<noteq> [] then Some (ds_cert_id s, ds_signature s) else None
          | None \<Rightarrow> None)
      in case parts of
           None \<Rightarrow> fsm_protocol_error E self ACTIVE_COMPLETE (DispatchMissingSignature correlation_id) w
         | Some (signing_cert_id, signature) \<Rightarrow>
             (case cert_id_try_from_vec signing_cert_id of
                Inl e \<Rightarrow> fsm_protocol_error E self ACTIVE_COMPLETE (CertIdLengthRejected (of_nat (got_len e))) w
              | Inr signing_cert_id \<Rightarrow>
                  (case publisher_dispatch E (fsm_dispatch self)
                      \<lparr>dr_correlation_id = correlation_id, dr_payload = request\<rparr> w of
                     None \<Rightarrow> None
                   | Some (_, w') \<Rightarrow> done_with (Active self, w'))))"

fun active_process ::
  "'w env \<Rightarrow> (active, 'v) fsm \<Rightarrow> server_to_client \<Rightarrow> 'w \<Rightarrow> ('v conn_state \<times> 'w) comp" where
  "active_process E self Ping w = reply_and_stay E Pong (fsm_stop self) (Active self) w"
| "active_process E self (CertificatePush _) w = done_with (Active self, w)"
| "active_process E self (SetReconnectionData _) w = done_with (Active self, w)"
| "active_process E self (Dispatch correlation_id request sig) w =
     handle_dispatch E self correlation_id request sig w"
| "active_process E self (ClientHelloAck _) w =
     fsm_protocol_error E self ACTIVE_COMPLETE HandshakeDuplicateAck w"

definition error_process ::
  "'w env \<Rightarrow> (error_phase, 'v) fsm \<Rightarrow> server_to_client \<Rightarrow> 'w \<Rightarrow> ('v conn_state \<times> 'w) comp" where
  "error_process E self msg w = done_with (ErrorState self, w)"

section \<open>The state and the delegate\<close>

fun state_send_hello :: "'w env \<Rightarrow> 'v conn_state \<Rightarrow> 'w \<Rightarrow> ('v conn_state \<times> 'w) comp" where
  "state_send_hello E (PreHandshake s) w = pre_handshake_send_hello E s w"
| "state_send_hello E (Handshaking s) w = outside_pre_handshake"
| "state_send_hello E (Active s) w = outside_pre_handshake"
| "state_send_hello E (ErrorState s) w = outside_pre_handshake"

fun state_process ::
  "'w env \<Rightarrow> 'h id_lib \<Rightarrow> 'v conn_state \<Rightarrow> server_to_client \<Rightarrow> 'w \<Rightarrow> ('v conn_state \<times> 'w) comp" where
  "state_process E I (PreHandshake s) msg w = pre_handshake_process E s msg w"
| "state_process E I (Handshaking s) msg w = handshaking_process E I s msg w"
| "state_process E I (Active s) msg w = active_process E s msg w"
| "state_process E I (ErrorState s) msg w = error_process E s msg w"

fun state_protocol_error ::
  "'w env \<Rightarrow> 'v conn_state \<Rightarrow> protocol_error \<Rightarrow> 'w \<Rightarrow> ('v conn_state \<times> 'w) comp" where
  "state_protocol_error E (PreHandshake s) reason w = fsm_protocol_error E s PRE_HANDSHAKE_COMPLETE reason w"
| "state_protocol_error E (Handshaking s) reason w = fsm_protocol_error E s HANDSHAKING_COMPLETE reason w"
| "state_protocol_error E (Active s) reason w = fsm_protocol_error E s ACTIVE_COMPLETE reason w"
| "state_protocol_error E (ErrorState s) reason w = fsm_protocol_error E s ERROR_COMPLETE reason w"

definition process_impl ::
  "'w env \<Rightarrow> 'h id_lib \<Rightarrow> 'v conn_state \<Rightarrow> incoming \<Rightarrow> 'w \<Rightarrow> ('v conn_state \<times> 'w) comp" where
  "process_impl E I st msg w =
     (case st of
        ErrorState s \<Rightarrow> done_with (ErrorState s, w)
      | _ \<Rightarrow>
          (case msg of
             Inl e \<Rightarrow> state_protocol_error E st (DeserialisationFailed (decoding_error_to_string e)) w
           | Inr m \<Rightarrow> state_process E I st m w))"

datatype 'v message_delegate = MessageDelegate "'v conn_state"

definition message_delegate_new ::
  "token \<Rightarrow> dispatch_publisher \<Rightarrow> app_info \<Rightarrow> 'v \<Rightarrow> 'v message_delegate" where
  "message_delegate_new stop dispatch info verifier =
     MessageDelegate (PreHandshake (fsm_new stop dispatch info verifier))"

fun delegate_send_hello ::
  "'w env \<Rightarrow> 'v message_delegate \<Rightarrow> 'w \<Rightarrow> ('v message_delegate \<times> 'w) comp" where
  "delegate_send_hello E (MessageDelegate st) w =
     comp_bind (state_send_hello E st w) (\<lambda>(st', w'). done_with (MessageDelegate st', w'))"

fun delegate_process ::
  "'w env \<Rightarrow> 'h id_lib \<Rightarrow> 'v message_delegate \<Rightarrow> incoming \<Rightarrow> 'w \<Rightarrow> ('v message_delegate \<times> 'w) comp" where
  "delegate_process E I (MessageDelegate st) msg w =
     comp_bind (process_impl E I st msg w) (\<lambda>(st', w'). done_with (MessageDelegate st', w'))"

section \<open>Retries\<close>

text \<open>
  The trace of one call: the same message is offered again after each failure that leaves the
  connection open, until it is accepted, the connection is closed, or the stop signal is seen.
\<close>

inductive retry_log :: "client_to_server \<Rightarrow> token \<Rightarrow> event list \<Rightarrow> bool" for m t where
  accepted: "retry_log m t [EvIoSend m (Ok ())]"
| closed: "retry_log m t [EvIoSend m (Err ConnClosed)]"
| stopped: "e \<noteq> ConnClosed \<Longrightarrow> retry_log m t [EvIoSend m (Err e), EvStopOrSleep t True]"
| again: "e \<noteq> ConnClosed \<Longrightarrow> retry_log m t l \<Longrightarrow>
    retry_log m t (EvIoSend m (Err e) # EvStopOrSleep t False # l)"

lemmas retry_send_induct = retry_send.raw_induct [rotated, consumes 1, case_names 1]

lemma retry_send_log_aux:
  fixes E :: "'w env"
  shows "retry_send F m t x = Some y \<Longrightarrow>
     F = logged E \<Longrightarrow> \<exists>l. snd y = snd x @ l \<and> retry_log m t l"
proof (induction F m t x y rule: retry_send_induct)
  case (1 retry F m t x y)
  note F = "1.prems"
  obtain w l where x: "x = (w, l)" by (cases x)
  obtain r w1 where io: "io_send E m w = Some (r, w1)"
    using "1.hyps" F x by (auto split: option.splits)
  show ?case
  proof (cases r)
    case (Inr u)
    then show ?thesis using "1.hyps" F x io by (auto intro: retry_log.intros)
  next
    case (Inl e)
    obtain b w2 where st: "stop_or_sleep E t w1 = (b, w2)" by fastforce
    consider "e = ConnClosed" | "e \<noteq> ConnClosed" b | "e \<noteq> ConnClosed" "\<not> b" by blast
    then show ?thesis
    proof cases
      case 3
      then have "retry F m t (w2, l @ [EvIoSend m (Err e), EvStopOrSleep t False]) = Some y"
        using "1.hyps" F x io Inl st by simp
      from "1.IH" [OF this F] obtain l2 where
        "snd y = (l @ [EvIoSend m (Err e), EvStopOrSleep t False]) @ l2" "retry_log m t l2"
        by auto
      then show ?thesis
        using 3 x by (intro exI [of _ "EvIoSend m (Err e) # EvStopOrSleep t False # l2"])
          (simp add: retry_log.again)
    qed (use "1.hyps" F x io Inl st in \<open>auto intro: retry_log.intros\<close>)
  qed
qed

lemma retry_send_log:
  assumes "retry_send (logged E) m t (w, l) = Some (w', l')"
  shows "\<exists>l1. l' = l @ l1 \<and> retry_log m t l1"
  using retry_send_log_aux [OF assms refl] by simp

lemma retry_log_sends: "retry_log m t l \<Longrightarrow> EvIoSend n r \<in> set l \<Longrightarrow> n = m"
  by (induction rule: retry_log.induct) auto

lemma retry_log_no_dispatch: "retry_log m t l \<Longrightarrow> EvTrySend c d r \<notin> set l"
  by (induction rule: retry_log.induct) auto

lemma retry_log_accepted_last:
  "retry_log m t l \<Longrightarrow> EvIoSend n (Ok ()) \<in> set l \<Longrightarrow>
     \<exists>l1. l = l1 @ [EvIoSend m (Ok ())] \<and> EvIoSend n (Ok ()) \<notin> set l1"
proof (induction rule: retry_log.induct)
  case (again e l)
  then obtain l1 where "l = l1 @ [EvIoSend m (Ok ())]" "EvIoSend n (Ok ()) \<notin> set l1" by auto
  then show ?case
    by (intro exI [of _ "EvIoSend m (Err e) # EvStopOrSleep t False # l1"]) simp
qed auto

text \<open>
  The rounds of a call: the world after \<open>n\<close> rounds that all failed without ending it, and
  whether the round that starts in a world ends it.
\<close>

definition retry_round :: "'w env \<Rightarrow> client_to_server \<Rightarrow> token \<Rightarrow> 'w \<Rightarrow> ('w + 'w) option" where
  "retry_round E m t w =
     (case io_send E m w of
        None \<Rightarrow> None
      | Some (Inr _, w1) \<Rightarrow> Some (Inr w1)
      | Some (Inl e, w1) \<Rightarrow>
          if e = ConnClosed then Some (Inr w1)
          else (case stop_or_sleep E t w1 of (b, w2) \<Rightarrow> Some (if b then Inr w2 else Inl w2)))"

fun retry_rounds :: "'w env \<Rightarrow> client_to_server \<Rightarrow> token \<Rightarrow> nat \<Rightarrow> 'w \<Rightarrow> 'w option" where
  "retry_rounds E m t 0 w = Some w"
| "retry_rounds E m t (Suc n) w =
     (case retry_round E m t w of Some (Inl w') \<Rightarrow> retry_rounds E m t n w' | _ \<Rightarrow> None)"

lemma retry_send_round:
  "retry_send E m t w =
     (case retry_round E m t w of
        None \<Rightarrow> None | Some (Inr w') \<Rightarrow> Some w' | Some (Inl w') \<Rightarrow> retry_send E m t w')"
  by (subst retry_send.simps)
    (auto simp: retry_round_def split: option.splits sum.splits prod.splits)

lemma retry_send_ends:
  "retry_rounds E m t n w = Some wn \<Longrightarrow> retry_round E m t wn = Some (Inr w') \<Longrightarrow>
     retry_send E m t w = Some w'"
proof (induction n arbitrary: w)
  case 0
  then show ?case by (simp add: retry_send_round)
next
  case (Suc n)
  then show ?case
    by (subst retry_send_round) (auto split: option.splits sum.splits)
qed

lemma retry_send_rounds_aux:
  "retry_send E m t w = Some w' \<Longrightarrow>
     \<exists>n wn. retry_rounds E m t n w = Some wn \<and> retry_round E m t wn = Some (Inr w')"
proof (induction E m t w w' rule: retry_send_induct)
  case (1 retry E m t w w')
  obtain r w1 where io: "io_send E m w = Some (r, w1)"
    using "1.hyps" by (auto split: option.splits)
  obtain b w2 where st: "stop_or_sleep E t w1 = (b, w2)" by fastforce
  consider (fin) "retry_round E m t w = Some (Inr w')"
    | (more) w2 where "retry_round E m t w = Some (Inl w2)" "retry E m t w2 = Some w'"
    using "1.hyps" io st
    by (cases r; cases b) (auto simp: retry_round_def split: if_splits)
  then show ?case
  proof cases
    case fin
    then show ?thesis by (intro exI [of _ 0]) auto
  next
    case more
    from "1.IH" [OF more(2)] obtain n wn where
      "retry_rounds E m t n w2 = Some wn" "retry_round E m t wn = Some (Inr w')" by blast
    then show ?thesis using more(1) by (intro exI [of _ "Suc n"]) auto
  qed
qed

lemma retry_log_first: "retry_log m t l \<Longrightarrow> \<exists>r l1. l = EvIoSend m r # l1"
  by (erule retry_log.cases) auto

section \<open>Properties\<close>


end
