(* ===== verification/Delegate_Protocol.thy ===== *)
theory Delegate_Protocol
  imports Delegate
begin

text \<open>
  The protocol that the connection state machine implements, as an abstract machine, and the proof
  that the delegate refines it: for every environment, a step of the delegate moves to the phase
  the protocol names and makes exactly the calls the protocol names. The properties of whole
  connections (no dispatch before a verified handshake, silence after a protocol error) follow
  from the abstract machine.
\<close>

section \<open>The abstract machine\<close>

datatype phase = AwaitHello | AwaitAck id_nonce | Established connection_id | Failed

datatype effect = Quiet | Reply client_to_server | Offer dispatch_request

fun phase_of :: "'v conn_state \<Rightarrow> phase" where
  "phase_of (PreHandshake s) = AwaitHello"
| "phase_of (Handshaking s) = (case fsm_state s of HandshakingPhase n \<Rightarrow> AwaitAck n)"
| "phase_of (Active s) = (case fsm_state s of ActivePhase c \<Rightarrow> Established c)"
| "phase_of (ErrorState s) = Failed"

fun handles_of :: "'v conn_state \<Rightarrow> token \<times> dispatch_publisher" where
  "handles_of (PreHandshake s) = (fsm_stop s, fsm_dispatch s)"
| "handles_of (Handshaking s) = (fsm_stop s, fsm_dispatch s)"
| "handles_of (Active s) = (fsm_stop s, fsm_dispatch s)"
| "handles_of (ErrorState s) = (fsm_stop s, fsm_dispatch s)"

fun handshake_complete :: "phase \<Rightarrow> bool" where
  "handshake_complete (Established c) = True"
| "handshake_complete Failed = True"
| "handshake_complete _ = False"

definition violation :: "protocol_error \<Rightarrow> phase \<Rightarrow> effect \<times> phase" where
  "violation reason ph = (Reply (ProtocolError reason (handshake_complete ph)), Failed)"

text \<open>A detached signature that a dispatch may carry: non-empty, from a plausible certificate.\<close>

definition signature_problem :: "correlation_id \<Rightarrow> detached_signature option \<Rightarrow> protocol_error option" where
  "signature_problem i sig =
     (case sig of
        None \<Rightarrow> Some (DispatchMissingSignature i)
      | Some s \<Rightarrow>
          if ds_signature s = [] then Some (DispatchMissingSignature i)
          else if length (ds_cert_id s) \<in> {16..64} then None
          else Some (CertIdLengthRejected (of_nat (length (ds_cert_id s)))))"

fun message_step :: "'h id_lib \<Rightarrow> phase \<Rightarrow> server_to_client \<Rightarrow> effect \<times> phase" where
  "message_step I Failed m = (Quiet, Failed)"
| "message_step I ph Ping = (Reply Pong, ph)"
| "message_step I ph (CertificatePush cs) = (Quiet, ph)"
| "message_step I ph (SetReconnectionData d) = (Quiet, ph)"
| "message_step I AwaitHello (ClientHelloAck u) = violation HandshakeAckBeforeHello AwaitHello"
| "message_step I (AwaitAck n) (ClientHelloAck u) =
     (case verify_connection_id (id_sha I) (id_new_v8 I) u n of
        Ret (Inr c) \<Rightarrow> (Quiet, Established c)
      | _ \<Rightarrow> violation HandshakeConnectionIdRejected (AwaitAck n))"
| "message_step I (Established c) (ClientHelloAck u) = violation HandshakeDuplicateAck (Established c)"
| "message_step I (Established c) (Dispatch i p sig) =
     (case signature_problem i sig of
        Some reason \<Rightarrow> violation reason (Established c)
      | None \<Rightarrow> (Offer \<lparr>dr_correlation_id = i, dr_payload = p\<rparr>, Established c))"
| "message_step I ph (Dispatch i p sig) = violation (DispatchBeforeHandshake i) ph"

fun protocol_step :: "'h id_lib \<Rightarrow> phase \<Rightarrow> incoming \<Rightarrow> effect \<times> phase" where
  "protocol_step I Failed m = (Quiet, Failed)"
| "protocol_step I ph (Inl e) = violation (DeserialisationFailed (decoding_error_to_string e)) ph"
| "protocol_step I ph (Inr m) = message_step I ph m"

section \<open>What an effect looks like in a trace\<close>

fun effect_log :: "token \<times> dispatch_publisher \<Rightarrow> effect \<Rightarrow> event list \<Rightarrow> bool" where
  "effect_log (stop, p) Quiet l \<longleftrightarrow> l = []"
| "effect_log (stop, p) (Reply m) l \<longleftrightarrow> retry_log m stop l"
| "effect_log (stop, p) (Offer d) l \<longleftrightarrow> (\<exists>r. offer_log p d r l)"

text \<open>Only an acknowledgement during the handshake reads the random source, once, and first.\<close>

fun reads_random :: "phase \<Rightarrow> incoming \<Rightarrow> bool" where
  "reads_random (AwaitAck n) (Inr (ClientHelloAck u)) = True"
| "reads_random _ _ = False"

definition step_log ::
  "'h id_lib \<Rightarrow> token \<times> dispatch_publisher \<Rightarrow> phase \<Rightarrow> incoming \<Rightarrow> event list \<Rightarrow> bool" where
  "step_log I h ph m l \<longleftrightarrow>
     (if reads_random ph m
      then \<exists>f l1. l = EvRandFill f # l1 \<and> effect_log h (fst (protocol_step I ph m)) l1
      else effect_log h (fst (protocol_step I ph m)) l)"

section \<open>The delegate refines the protocol\<close>

lemma into_state_simps [simp]:
  "fsm_stop (into_state s x) = fsm_stop s" "fsm_dispatch (into_state s x) = fsm_dispatch s"
  "fsm_state (into_state s x) = x"
  by (simp_all add: into_state_def)

lemmas complete_defs = PRE_HANDSHAKE_COMPLETE_def HANDSHAKING_COMPLETE_def ACTIVE_COMPLETE_def
  ERROR_COMPLETE_def

lemma protocol_error_logged:
  assumes "fsm_protocol_error (logged E) s b r (w, l) = Some (Ret (st, w', l'))"
  shows "st = ErrorState (into_state s ErrorPhase)"
    and "\<exists>l1. l' = l @ l1 \<and> retry_log (ProtocolError r b) (fsm_stop s) l1"
  using assms retry_send_log [of E "ProtocolError r b" "fsm_stop s" w l w' l']
  by (auto simp: fsm_protocol_error_def split: option.splits)

lemma reply_and_stay_logged:
  assumes "reply_and_stay (logged E) m t st (w, l) = Some (Ret (st', w', l'))"
  shows "st' = st" and "\<exists>l1. l' = l @ l1 \<and> retry_log m t l1"
  using assms retry_send_log [of E m t w l w' l']
  by (auto simp: reply_and_stay_def split: option.splits)

text \<open>
  The shape of a refinement statement: next phase, kept handles, and the trace of the effect.
\<close>

definition refines ::
  "token \<times> dispatch_publisher \<Rightarrow> effect \<times> phase \<Rightarrow> event list \<Rightarrow> 'v conn_state \<Rightarrow> event list \<Rightarrow> bool" where
  "refines h ep l st' l' \<longleftrightarrow> phase_of st' = snd ep \<and> handles_of st' = h
     \<and> (\<exists>l1. l' = l @ l1 \<and> effect_log h (fst ep) l1)"

lemma refines_violation:
  assumes "fsm_protocol_error (logged E) s b r (w, l) = Some (Ret (st, w', l'))"
    and "b = handshake_complete ph"
  shows "refines (fsm_stop s, fsm_dispatch s) (violation r ph) l st l'"
  using protocol_error_logged [OF assms(1)] assms(2) by (simp add: refines_def violation_def)

text \<open>
  What every phase before an error promises: it answers pings and ignores pushed certificates and
  reconnection data, and stays as it is.
\<close>

fun keeps_phase :: "server_to_client \<Rightarrow> bool" where
  "keeps_phase Ping = True"
| "keeps_phase (CertificatePush cs) = True"
| "keeps_phase (SetReconnectionData d) = True"
| "keeps_phase _ = False"

locale live_phase =
  fixes proc :: "('w \<times> event list) env \<Rightarrow> server_to_client \<Rightarrow> 'w \<times> event list
      \<Rightarrow> ('v conn_state \<times> 'w \<times> event list) comp"
    and st :: "'v conn_state"
  assumes ping: "proc F Ping x = reply_and_stay F Pong (fst (handles_of st)) st x"
    and push: "proc F (CertificatePush cs) x = done_with (st, x)"
    and reconnection: "proc F (SetReconnectionData d) x = done_with (st, x)"
    and live: "phase_of st \<noteq> Failed"
begin

lemma kept_step:
  assumes "keeps_phase m"
  shows "message_step I (phase_of st) m = (case m of Ping \<Rightarrow> Reply Pong | _ \<Rightarrow> Quiet, phase_of st)"
  using assms live by (cases "phase_of st"; cases m) auto

lemma live_refines:
  assumes "keeps_phase m" and "proc (logged E) m (w, l) = Some (Ret (st', w', l'))"
  shows "refines (handles_of st) (message_step I (phase_of st) m) l st' l'"
proof (cases m)
  case Ping
  obtain t p where h: "handles_of st = (t, p)" by fastforce
  show ?thesis
    using assms(2) reply_and_stay_logged [of E Pong t st w l st' w' l'] kept_step [OF assms(1), of I]
    by (simp add: Ping ping h refines_def)
next
  case (CertificatePush cs)
  then show ?thesis using assms kept_step [OF assms(1), of I]
    by (cases "handles_of st") (simp add: push refines_def)
next
  case (SetReconnectionData d)
  then show ?thesis using assms kept_step [OF assms(1), of I]
    by (cases "handles_of st") (simp add: reconnection refines_def)
qed (use assms(1) in simp_all)

end

interpretation pre_live: live_phase "\<lambda>F. pre_handshake_process F s" "PreHandshake s" for s
  by unfold_locales simp_all

interpretation handshaking_live: live_phase "\<lambda>F. handshaking_process F I s" "Handshaking s" for I s
  by unfold_locales (simp_all split: handshaking.splits)

interpretation active_live: live_phase "\<lambda>F. active_process F s" "Active s" for s
  by unfold_locales (simp_all split: active.splits)

lemma pre_handshake_refines:
  assumes "pre_handshake_process (logged E) s m (w, l) = Some (Ret (st, w', l'))"
  shows "refines (handles_of (PreHandshake s)) (message_step I (phase_of (PreHandshake s)) m) l st l'"
proof (cases "keeps_phase m")
  case True
  then show ?thesis using pre_live.live_refines [OF True assms] by simp
next
  case False
  then show ?thesis
    using assms by (cases m) (auto intro: refines_violation simp: complete_defs)
qed

lemma active_refines:
  assumes "active_process (logged E) s m (w, l) = Some (Ret (st, w', l'))"
  shows "refines (handles_of (Active s)) (message_step I (phase_of (Active s)) m) l st l'"
proof (cases "keeps_phase m")
  case True
  then show ?thesis using active_live.live_refines [OF True assms] by simp
next
  case False
  obtain c where c: "fsm_state s = ActivePhase c" by (cases "fsm_state s")
  consider (ack) u where "m = ClientHelloAck u" | (dispatch) i p sig where "m = Dispatch i p sig"
    using False by (cases m) auto
  then show ?thesis
  proof cases
    case ack
    then show ?thesis using assms c by (auto intro: refines_violation simp: complete_defs)
  next
    case dispatch
    let ?d = "\<lparr>dr_correlation_id = i, dr_payload = p\<rparr>"
    have run: "handle_dispatch (logged E) s i p sig (w, l) = Some (Ret (st, w', l'))"
      using assms dispatch by simp
    show ?thesis
    proof (cases "signature_problem i sig")
      case (Some reason)
      then have "fsm_protocol_error (logged E) s ACTIVE_COMPLETE reason (w, l) = Some (Ret (st, w', l'))"
        using run by (auto simp: handle_dispatch_def signature_problem_def cert_id_try_from_vec_def
            cert_id_len_defs split: option.splits if_splits)
      then show ?thesis using Some dispatch c by (auto intro: refines_violation simp: complete_defs)
    next
      case None
      then obtain r where "publisher_dispatch (logged E) (fsm_dispatch s) ?d (w, l) = Some (r, w', l')"
        and st: "st = Active s"
        using run by (auto simp: handle_dispatch_def signature_problem_def cert_id_try_from_vec_def
            cert_id_len_defs split: option.splits if_splits)
      from dispatch_log [OF this(1)]
      have "\<exists>l1. l' = l @ l1 \<and> (\<exists>r. offer_log (fsm_dispatch s) ?d r l1)" by blast
      then show ?thesis using None dispatch st c by (simp add: refines_def)
    qed
  qed
qed

lemma handshaking_refines:
  assumes run: "handshaking_process (logged E) I s m (w, l) = Some (Ret (st, w', l'))"
  shows "\<exists>l0. refines (handles_of (Handshaking s)) (message_step I (phase_of (Handshaking s)) m) l0 st l'
    \<and> (if reads_random (phase_of (Handshaking s)) (Ok m) then \<exists>f. l0 = l @ [EvRandFill f] else l0 = l)"
proof (cases "keeps_phase m")
  case True
  moreover have "\<not> reads_random (phase_of (Handshaking s)) (Ok m)"
    using True by (cases "fsm_state s"; cases m) auto
  ultimately show ?thesis using handshaking_live.live_refines [OF True run] by auto
next
  case False
  obtain n where n: "fsm_state s = HandshakingPhase n" by (cases "fsm_state s")
  consider (ack) u where "m = ClientHelloAck u" | (dispatch) i p sig where "m = Dispatch i p sig"
    using False by (cases m) auto
  then show ?thesis
  proof cases
    case dispatch
    then show ?thesis
      using run n by (auto intro!: exI [of _ l] refines_violation simp: complete_defs)
  next
    case ack
    obtain fill w1 where f: "rand_fill E w = (fill, w1)" by fastforce
    let ?l = "l @ [EvRandFill fill]"
    obtain r where v: "verify_connection_id (id_sha I) (id_new_v8 I) u n = Ret r"
      and k: "(case r of
          Inr c \<Rightarrow> done_with (Active (into_state s (ActivePhase c)), w1, ?l)
        | Inl e \<Rightarrow> fsm_protocol_error (logged E) s HANDSHAKING_COMPLETE HandshakeConnectionIdRejected (w1, ?l))
        = Some (Ret (st, w', l'))"
      using run ack n f by (auto simp: comp_bind_eq_Ret)
    show ?thesis
    proof (cases r)
      case (Inl e)
      then have "refines (fsm_stop s, fsm_dispatch s)
          (violation HandshakeConnectionIdRejected (AwaitAck n)) ?l st l'"
        using k by (auto intro: refines_violation simp: complete_defs)
      then show ?thesis using Inl v ack n by (auto intro!: exI [of _ ?l])
    next
      case (Inr c)
      then show ?thesis using k v ack n by (auto intro!: exI [of _ ?l] simp: refines_def)
    qed
  qed
qed

text \<open>A whole step of the delegate.\<close>

lemma process_impl_refines:
  assumes run: "process_impl (logged E) I st m (w, l) = Some (Ret (st', w', l'))"
  shows "phase_of st' = snd (protocol_step I (phase_of st) m) \<and> handles_of st' = handles_of st
    \<and> (\<exists>l1. l' = l @ l1 \<and> step_log I (handles_of st) (phase_of st) m l1)"
proof (cases "phase_of st = Failed")
  case True
  then obtain s where "st = ErrorState s"
    by (cases st) (auto split: handshaking.splits active.splits)
  then show ?thesis using run by (auto simp: process_impl_def step_log_def)
next
  case live: False
  show ?thesis
  proof (cases m)
    case (Inl e)
    let ?r = "DeserialisationFailed (decoding_error_to_string e)"
    have "refines (handles_of st) (violation ?r (phase_of st)) l st' l'"
      using run live Inl
      by (cases st) (auto simp: process_impl_def complete_defs intro!: refines_violation
          split: handshaking.splits active.splits)
    moreover have "protocol_step I (phase_of st) m = violation ?r (phase_of st)"
      using live Inl by (cases "phase_of st") simp_all
    moreover have "\<not> reads_random (phase_of st) m" using Inl by simp
    ultimately show ?thesis by (auto simp: refines_def step_log_def)
  next
    case (Inr msg)
    have step: "protocol_step I (phase_of st) m = message_step I (phase_of st) msg"
      using live Inr by (cases "phase_of st") simp_all
    have "\<exists>l0. refines (handles_of st) (message_step I (phase_of st) msg) l0 st' l'
      \<and> (if reads_random (phase_of st) m then \<exists>f. l0 = l @ [EvRandFill f] else l0 = l)"
    proof (cases st)
      case (PreHandshake s)
      then show ?thesis using run Inr pre_handshake_refines [of E s msg w l st' w' l' I]
        by (auto simp: process_impl_def)
    next
      case (Handshaking s)
      then show ?thesis using run Inr handshaking_refines [of E I s msg w l st' w' l']
        by (simp add: process_impl_def)
    next
      case (Active s)
      then show ?thesis using run Inr active_refines [of E s msg w l st' w' l' I]
        by (cases "fsm_state s") (auto simp: process_impl_def)
    next
      case (ErrorState s)
      then show ?thesis using live by simp
    qed
    then show ?thesis by (auto simp: refines_def step_log_def step split: if_splits)
  qed
qed

section \<open>Whole connections\<close>

fun connection_messages ::
  "'w env \<Rightarrow> 'h id_lib \<Rightarrow> 'v message_delegate \<Rightarrow> incoming list \<Rightarrow> 'w
     \<Rightarrow> ('v message_delegate \<times> 'w) comp" where
  "connection_messages E I d [] w = done_with (d, w)"
| "connection_messages E I d (m # ms) w =
     comp_bind (delegate_process E I d m w) (\<lambda>(d', w'). connection_messages E I d' ms w')"

fun delegate_state :: "'v message_delegate \<Rightarrow> 'v conn_state" where
  "delegate_state (MessageDelegate st) = st"

definition phase_after :: "'h id_lib \<Rightarrow> phase \<Rightarrow> incoming list \<Rightarrow> phase" where
  "phase_after I ph ms = foldl (\<lambda>ph m. snd (protocol_step I ph m)) ph ms"

text \<open>The traces of the protocol over a list of messages.\<close>

fun trace_of ::
  "'h id_lib \<Rightarrow> token \<times> dispatch_publisher \<Rightarrow> phase \<Rightarrow> incoming list \<Rightarrow> event list \<Rightarrow> bool" where
  "trace_of I h ph [] l \<longleftrightarrow> l = []"
| "trace_of I h ph (m # ms) l \<longleftrightarrow>
     (\<exists>l1 l2. l = l1 @ l2 \<and> step_log I h ph m l1
        \<and> trace_of I h (snd (protocol_step I ph m)) ms l2)"

lemma phase_after_simps [simp]:
  "phase_after I ph [] = ph"
  "phase_after I ph (m # ms) = phase_after I (snd (protocol_step I ph m)) ms"
  by (simp_all add: phase_after_def)

lemma delegate_process_refines:
  assumes "delegate_process (logged E) I d m (w, l) = Some (Ret (d', w', l'))"
  shows "phase_of (delegate_state d') = snd (protocol_step I (phase_of (delegate_state d)) m)
    \<and> handles_of (delegate_state d') = handles_of (delegate_state d)
    \<and> (\<exists>l1. l' = l @ l1 \<and>
        step_log I (handles_of (delegate_state d)) (phase_of (delegate_state d)) m l1)"
proof (cases d)
  case (MessageDelegate st)
  obtain st' where "process_impl (logged E) I st m (w, l) = Some (Ret (st', w', l'))"
    and "d' = MessageDelegate st'"
    using assms MessageDelegate by (auto simp: comp_bind_eq_Ret)
  then show ?thesis using process_impl_refines [of E I st m w l st' w' l'] MessageDelegate by simp
qed

lemma connection_trace:
  assumes "connection_messages (logged E) I d ms (w, l) = Some (Ret (d', w', l'))"
  shows "phase_of (delegate_state d') = phase_after I (phase_of (delegate_state d)) ms
    \<and> handles_of (delegate_state d') = handles_of (delegate_state d)
    \<and> (\<exists>l1. l' = l @ l1 \<and>
        trace_of I (handles_of (delegate_state d)) (phase_of (delegate_state d)) ms l1)"
  using assms
proof (induction ms arbitrary: d w l)
  case Nil
  then show ?case by auto
next
  case (Cons m ms)
  obtain d1 w1 l1 where step: "delegate_process (logged E) I d m (w, l) = Some (Ret (d1, w1, l1))"
    and rest: "connection_messages (logged E) I d1 ms (w1, l1) = Some (Ret (d', w', l'))"
    using Cons.prems by (auto simp: comp_bind_eq_Ret)
  from delegate_process_refines [OF step] Cons.IH [OF rest] show ?case by fastforce
qed

section \<open>Facts of the abstract machine\<close>

lemma phase_after_Failed [simp]: "phase_after I Failed ms = Failed"
  by (induction ms) simp_all

lemma trace_of_Failed: "trace_of I h Failed ms l \<Longrightarrow> l = []"
proof (induction ms arbitrary: l)
  case (Cons m ms)
  then show ?case by (cases h) (auto simp: step_log_def)
qed simp

lemma violation_kind: "\<exists>r b. violation reason ph = (Reply (ProtocolError r b), Failed)"
  by (simp add: violation_def)

lemma message_step_kinds:
  "(\<exists>r b. message_step I ph m = (Reply (ProtocolError r b), Failed))
   \<or> fst (message_step I ph m) = Quiet \<or> fst (message_step I ph m) = Reply Pong
   \<or> (\<exists>c i p s. ph = Established c \<and> m = Dispatch i p (Some s) \<and> ds_signature s \<noteq> []
        \<and> length (ds_cert_id s) \<in> {16..64}
        \<and> message_step I ph m = (Offer \<lparr>dr_correlation_id = i, dr_payload = p\<rparr>, Established c))"
proof (cases "ph = Failed \<or> keeps_phase m")
  case True
  then show ?thesis by (cases m; cases ph) simp_all
next
  case False
  then consider (ack) u where "m = ClientHelloAck u" | (dispatch) i p sig where "m = Dispatch i p sig"
    by (cases m) auto
  then show ?thesis
  proof cases
    case ack
    then show ?thesis
      using False violation_kind by (cases ph) (simp_all split: run.splits sum.splits)
  next
    case dispatch
    show ?thesis
    proof (cases ph)
      case (Established c)
      show ?thesis
      proof (cases "signature_problem i sig")
        case None
        then obtain s where "sig = Some s" "ds_signature s \<noteq> []" "length (ds_cert_id s) \<in> {16..64}"
          by (auto simp: signature_problem_def split: option.splits if_splits)
        then show ?thesis using None Established dispatch by simp
      next
        case (Some reason)
        then show ?thesis using Established dispatch violation_kind by simp
      qed
    qed (use False dispatch violation_kind in simp_all)
  qed
qed

lemma protocol_step_kinds:
  "(\<exists>r b. protocol_step I ph m = (Reply (ProtocolError r b), Failed))
   \<or> fst (protocol_step I ph m) = Quiet \<or> fst (protocol_step I ph m) = Reply Pong
   \<or> (\<exists>c i p s. ph = Established c \<and> m = Ok (Dispatch i p (Some s)) \<and> ds_signature s \<noteq> []
        \<and> length (ds_cert_id s) \<in> {16..64}
        \<and> protocol_step I ph m = (Offer \<lparr>dr_correlation_id = i, dr_payload = p\<rparr>, Established c))"
proof (cases m)
  case (Inl e)
  then show ?thesis using violation_kind by (cases ph) simp_all
next
  case (Inr msg)
  then have "protocol_step I ph m = message_step I ph msg" by (cases ph) simp_all
  then show ?thesis using message_step_kinds [of I ph msg] Inr by simp
qed

lemma step_log_split:
  assumes "step_log I h ph m l"
  obtains pre post where "l = pre @ post" "pre = [] \<or> (\<exists>f. pre = [EvRandFill f])"
    "effect_log h (fst (protocol_step I ph m)) post"
proof (cases "reads_random ph m")
  case True
  then obtain f l1 where "l = [EvRandFill f] @ l1" "effect_log h (fst (protocol_step I ph m)) l1"
    using assms by (auto simp: step_log_def)
  then show thesis by (intro that [of "[EvRandFill f]" l1]) simp_all
next
  case False
  then show thesis using assms by (intro that [of "[]" l]) (simp_all add: step_log_def)
qed

lemma step_log_sends:
  assumes "step_log I h ph m l" and "EvIoSend x r \<in> set l"
  shows "fst (protocol_step I ph m) = Reply x"
proof -
  obtain stop p where h: "h = (stop, p)" by fastforce
  obtain l1 where e: "effect_log h (fst (protocol_step I ph m)) l1" and "EvIoSend x r \<in> set l1"
    using assms by (auto simp: step_log_def split: if_splits)
  then show ?thesis
    using h by (cases "fst (protocol_step I ph m)")
      (auto dest: retry_log_sends simp: offer_log_def split: option.splits)
qed

lemma step_log_offers:
  assumes "step_log I h ph m l" and "EvTrySend c d r \<in> set l"
  shows "fst (protocol_step I ph m) = Offer d \<and> c = pub_tx (snd h)"
proof -
  obtain stop p where h: "h = (stop, p)" by fastforce
  obtain l1 where e: "effect_log h (fst (protocol_step I ph m)) l1" and "EvTrySend c d r \<in> set l1"
    using assms by (auto simp: step_log_def split: if_splits)
  then show ?thesis
    using h by (cases "fst (protocol_step I ph m)")
      (auto dest: retry_log_no_dispatch simp: offer_log_def split: option.splits)
qed

text \<open>How a connection comes to be established.\<close>

lemma established_stays:
  "phase_after I (Established c) ms = Established c' \<Longrightarrow> c' = c"
proof (induction ms)
  case (Cons m ms)
  have "snd (protocol_step I (Established c) m) \<in> {Established c, Failed}"
    by (cases m; cases "projr m") (auto simp: violation_def split: option.splits)
  then show ?case using Cons by auto
qed simp

lemma established_by_ack:
  "phase_after I (AwaitAck n) ms = Established c \<Longrightarrow>
     \<exists>j < length ms. \<exists>u. ms ! j = Ok (ClientHelloAck u)
       \<and> verify_connection_id (id_sha I) (id_new_v8 I) u n = Ret (Ok c)"
proof (induction ms)
  case (Cons m ms)
  have cases: "snd (protocol_step I (AwaitAck n) m) \<in> {AwaitAck n, Failed}
    \<or> (\<exists>u c'. m = Ok (ClientHelloAck u) \<and> snd (protocol_step I (AwaitAck n) m) = Established c'
          \<and> verify_connection_id (id_sha I) (id_new_v8 I) u n = Ret (Ok c'))"
    by (cases m; cases "projr m") (auto simp: violation_def split: run.splits sum.splits)
  then consider "snd (protocol_step I (AwaitAck n) m) = AwaitAck n"
    | "snd (protocol_step I (AwaitAck n) m) = Failed"
    | u c' where "m = Ok (ClientHelloAck u)" "snd (protocol_step I (AwaitAck n) m) = Established c'"
        "verify_connection_id (id_sha I) (id_new_v8 I) u n = Ret (Ok c')"
    by blast
  then show ?case
  proof cases
    case 1
    then show ?thesis using Cons by auto
  next
    case 2
    then show ?thesis using Cons.prems by simp
  next
    case 3
    then have "c = c'" using Cons.prems established_stays [of I c' ms c] by simp
    then show ?thesis using 3 by (intro exI [of _ 0]) simp
  qed
qed simp

lemma trace_offer:
  "trace_of I h ph ms l \<Longrightarrow> EvTrySend c d r \<in> set l \<Longrightarrow>
     \<exists>k < length ms. \<exists>cid s. phase_after I ph (take k ms) = Established cid
       \<and> ms ! k = Ok (Dispatch (dr_correlation_id d) (dr_payload d) (Some s))
       \<and> ds_signature s \<noteq> [] \<and> length (ds_cert_id s) \<in> {16..64} \<and> c = pub_tx (snd h)"
proof (induction ms arbitrary: ph l)
  case (Cons m ms)
  obtain l1 l2 where l: "l = l1 @ l2" and s: "step_log I h ph m l1"
    and t: "trace_of I h (snd (protocol_step I ph m)) ms l2"
    using Cons.prems(1) by auto
  show ?case
  proof (cases "EvTrySend c d r \<in> set l1")
    case True
    then show ?thesis
      using step_log_offers [OF s True] protocol_step_kinds [of I ph m]
      by (intro exI [of _ 0]) auto
  next
    case False
    then have "EvTrySend c d r \<in> set l2" using Cons.prems(2) l by simp
    from Cons.IH [OF t this] obtain k cid s where "k < length ms"
      "phase_after I (snd (protocol_step I ph m)) (take k ms) = Established cid"
      "ms ! k = Ok (Dispatch (dr_correlation_id d) (dr_payload d) (Some s))"
      "ds_signature s \<noteq> []" "length (ds_cert_id s) \<in> {16..64}" "c = pub_tx (snd h)" by blast
    then show ?thesis by (intro exI [of _ "Suc k"]) auto
  qed
qed simp

text \<open>A protocol error ends the trace.\<close>

lemma trace_error:
  "trace_of I h ph ms l \<Longrightarrow> EvIoSend (ProtocolError r b) x \<in> set l \<Longrightarrow>
     \<exists>pre post. l = pre @ post \<and> retry_log (ProtocolError r b) (fst h) post
       \<and> (\<forall>r' b' x'. EvIoSend (ProtocolError r' b') x' \<notin> set pre)
       \<and> phase_after I ph ms = Failed"
proof (induction ms arbitrary: ph l)
  case (Cons m ms)
  obtain l1 l2 where l: "l = l1 @ l2" and s: "step_log I h ph m l1"
    and t: "trace_of I h (snd (protocol_step I ph m)) ms l2"
    using Cons.prems(1) by auto
  show ?case
  proof (cases "\<exists>r b. protocol_step I ph m = (Reply (ProtocolError r b), Failed)")
    case True
    then have l2: "l2 = []" and f: "phase_after I ph (m # ms) = Failed"
      using t trace_of_Failed [of I h ms l2] by auto
    then have "fst (protocol_step I ph m) = Reply (ProtocolError r b)"
      using step_log_sends [OF s, of "ProtocolError r b" x] Cons.prems(2) l by simp
    moreover obtain pre post where "l1 = pre @ post" "pre = [] \<or> (\<exists>f. pre = [EvRandFill f])"
      "effect_log h (fst (protocol_step I ph m)) post"
      using step_log_split [OF s] .
    ultimately have "l = pre @ post" "retry_log (ProtocolError r b) (fst h) post"
      "\<forall>r' b' x'. EvIoSend (ProtocolError r' b') x' \<notin> set pre"
      using l l2 by (cases h; auto)+
    then show ?thesis using f by blast
  next
    case False
    then have none: "EvIoSend (ProtocolError r' b') x' \<notin> set l1" for r' b' x'
      using step_log_sends [OF s] protocol_step_kinds [of I ph m] by fastforce
    then have "EvIoSend (ProtocolError r b) x \<in> set l2" using Cons.prems(2) l by simp
    from Cons.IH [OF t this] obtain pre post where "l2 = pre @ post"
      "retry_log (ProtocolError r b) (fst h) post"
      "\<forall>r' b' x'. EvIoSend (ProtocolError r' b') x' \<notin> set pre"
      "phase_after I (snd (protocol_step I ph m)) ms = Failed" by blast
    then show ?thesis using l none by (intro exI [of _ "l1 @ pre"] exI [of _ post]) auto
  qed
qed simp

section \<open>The hello\<close>

definition hello_of :: "app_info \<Rightarrow> instance_metrics \<Rightarrow> id_nonce \<Rightarrow> client_hello" where
  "hello_of info m n = \<lparr>ch_client_nonce = nonce_as_bytes n,
      ch_graceful = im_graceful_disconnect m, ch_ungraceful = im_ungraceful_disconnect m,
      ch_last_closed_connection_duration = metrics_last_conn_duration m,
      ch_reconnection_data = None, ch_version_info = im_version m,
      ch_app_name = ai_name info, ch_app_version = ai_version info\<rparr>"

lemma build_hello_eq:
  "rand_fill E w = (fill, w1) \<Longrightarrow> build_hello E info w =
     run_bind (id_nonce_default fill) (\<lambda>n. Ret ((n, ClientHello (hello_of info (load_metrics E w1) n)), w1))"
  by (simp add: build_hello_def hello_of_def Let_def)

lemma fsm_new_simps [simp]:
  "fsm_stop (fsm_new stop pub info v) = stop" "fsm_dispatch (fsm_new stop pub info v) = pub"
  "fsm_state (fsm_new stop pub info v) = PreHandshakePhase info"
  by (simp_all add: fsm_new_def)

lemma send_hello_run:
  assumes "delegate_send_hello E (message_delegate_new stop pub info v) w = Some (Ret (d', w'))"
    and "rand_fill E w = (fill, w1)"
  obtains b where "fill = Ok b" "b \<noteq> replicate 16 0"
    "retry_send E (ClientHello (hello_of info (load_metrics E w1) (IdNonce b))) stop w1 = Some w'"
    "d' = MessageDelegate (Handshaking (into_state (fsm_new stop pub info v) (HandshakingPhase (IdNonce b))))"
proof -
  obtain st where d': "d' = MessageDelegate st"
    and st: "pre_handshake_send_hello E (fsm_new stop pub info v) w = Some (Ret (st, w'))"
    using assms(1) by (auto simp: message_delegate_new_def comp_bind_eq_Ret)
  obtain n hello w2 where h: "build_hello E info w = Ret ((n, hello), w2)"
    and k: "(case retry_send E hello stop w2 of None \<Rightarrow> None
      | Some w3 \<Rightarrow> done_with (Handshaking (into_state (fsm_new stop pub info v) (HandshakingPhase n)), w3))
      = Some (Ret (st, w'))"
    using st by (auto simp: pre_handshake_send_hello_def comp_bind_eq_Ret)
  from h obtain b where "fill = Ok b" "b \<noteq> replicate 16 0" "n = IdNonce b" "w2 = w1"
    "hello = ClientHello (hello_of info (load_metrics E w1) n)"
    by (auto simp: build_hello_eq [OF assms(2)] run_bind_eq_Ret id_nonce_default_iff)
  then show thesis using that d' k by (simp split: option.splits)
qed

lemma hello_refines:
  assumes "delegate_send_hello (logged E) (message_delegate_new stop pub info v) (w, l) =
    Some (Ret (d', w', l'))"
  shows "\<exists>n m lr. phase_of (delegate_state d') = AwaitAck n
    \<and> handles_of (delegate_state d') = (stop, pub)
    \<and> l' = l @ EvRandFill (Ok (nonce_as_bytes n)) # lr
    \<and> retry_log (ClientHello (hello_of info m n)) stop lr \<and> nonce_as_bytes n \<noteq> replicate 16 0"
proof -
  obtain fill w1 where f: "rand_fill E w = (fill, w1)" by fastforce
  then have lf: "rand_fill (logged E) (w, l) = (fill, (w1, l @ [EvRandFill fill]))" by simp
  obtain b where b: "fill = Ok b" "b \<noteq> replicate 16 0"
    and r: "retry_send (logged E) (ClientHello (hello_of info (load_metrics E w1) (IdNonce b))) stop
      (w1, l @ [EvRandFill fill]) = Some (w', l')"
    and d': "d' = MessageDelegate (Handshaking (into_state (fsm_new stop pub info v)
      (HandshakingPhase (IdNonce b))))"
    using send_hello_run [OF assms lf] by auto
  from retry_send_log [OF r] obtain lr where
    "l' = (l @ [EvRandFill fill]) @ lr"
    "retry_log (ClientHello (hello_of info (load_metrics E w1) (IdNonce b))) stop lr"
    by blast
  then show ?thesis using b d'
    by (intro exI [of _ "IdNonce b"] exI [of _ "load_metrics E w1"] exI [of _ lr])
      simp
qed

section \<open>A responsive environment\<close>

text \<open>
  What the delegate needs of its environment to return: a send with retries ends after finitely
  many rounds, a result sent to the responses is taken or refused, and the random source gives
  bytes that are not all zero.
\<close>

definition responsive :: "'w env \<Rightarrow> bool" where
  "responsive E \<longleftrightarrow>
     (\<forall>m t w. \<exists>n wn w'. retry_rounds E m t n w = Some wn \<and> retry_round E m t wn = Some (Inr w'))
   \<and> (\<forall>c r w. send_result E c r w \<noteq> None)
   \<and> (\<forall>w. \<exists>b. fst (rand_fill E w) = Ok b \<and> b \<noteq> replicate 16 0)"

lemma responsive_retry: "responsive E \<Longrightarrow> \<exists>w'. retry_send E m t w = Some w'"
  unfolding responsive_def using retry_send_ends [of E m t _ w] by blast

lemma responsive_error:
  assumes "responsive E" shows "\<exists>st w'. fsm_protocol_error E s b r w = Some (Ret (st, w'))"
  using responsive_retry [OF assms, of "ProtocolError r b" "fsm_stop s" w]
  by (auto simp: fsm_protocol_error_def)

lemma responsive_reply:
  assumes "responsive E" shows "\<exists>st' w'. reply_and_stay E m t st w = Some (Ret (st', w'))"
  using responsive_retry [OF assms, of m t w] by (auto simp: reply_and_stay_def)

lemma responsive_dispatch:
  assumes "responsive E" shows "\<exists>r w'. publisher_dispatch E p d w = Some (r, w')"
proof -
  obtain t w1 where t: "try_send E (pub_tx p) d w = (t, w1)" by fastforce
  obtain b w2 where b: "weak_upgrade E (pub_errors p) w1 = (b, w2)" by fastforce
  have sent: "\<exists>r w'. send_result E c x w2 = Some (r, w')" for c x
    using assms by (auto simp: responsive_def)
  show ?thesis
  proof (cases "reported_as t")
    case None
    then have "t = TrySent" by (cases t) simp_all
    then show ?thesis using t publisher_dispatch_sent [of E p d w w1] by simp
  next
    case (Some err)
    have "publisher_dispatch E p d w =
      (case weak_upgrade E (pub_errors p) w1 of
         (True, w1) \<Rightarrow> map_option (\<lambda>(_, w2). (Err err, w2))
           (send_result E (pub_errors p) \<lparr>res_correlation_id = dr_correlation_id d, res_result = Err err\<rparr> w1)
       | (False, w1) \<Rightarrow> Some (Err err, w1))"
      by (rule publisher_dispatch_failed [OF t]) (use Some in \<open>cases t; simp\<close>)
    then show ?thesis
      using b sent [of "pub_errors p" "\<lparr>res_correlation_id = dr_correlation_id d, res_result = Err err\<rparr>"]
      by (cases b) auto
  qed
qed

lemma responsive_handle_dispatch:
  assumes "responsive E" shows "\<exists>st w'. handle_dispatch E s i p sig w = Some (Ret (st, w'))"
proof -
  obtain r w1 where "publisher_dispatch E (fsm_dispatch s) \<lparr>dr_correlation_id = i, dr_payload = p\<rparr> w = Some (r, w1)"
    using responsive_dispatch [OF assms] by blast
  then show ?thesis
    by (auto simp: handle_dispatch_def intro: responsive_error [OF assms] split: option.splits sum.splits)
qed

lemma responsive_ack:
  assumes "responsive E" "sha_digest_len (id_sha I)" "sha_incremental (id_sha I)"
  shows "\<exists>st w'. handshaking_process E I s (ClientHelloAck u) w = Some (Ret (st, w'))"
proof -
  obtain b w1 where "rand_fill E w = (Ok b, w1)" "b \<noteq> replicate 16 0"
    using assms(1) by (cases "rand_fill E w") (auto simp: responsive_def, metis fst_conv)
  moreover from this have "id_nonce_default (Ok b) = Ret (IdNonce b)" by (simp add: id_nonce_default_iff)
  moreover obtain n where "fsm_state s = HandshakingPhase n" by (cases "fsm_state s")
  ultimately show ?thesis
    by (auto simp: verify_connection_id_eq [OF assms(2,3)] intro!: responsive_error [OF assms(1)])
qed

lemma responsive_hello:
  assumes "responsive E"
  shows "\<exists>d w'. delegate_send_hello E (message_delegate_new stop pub info v) w = Some (Ret (d, w'))"
proof -
  obtain b w1 where f: "rand_fill E w = (Ok b, w1)" "b \<noteq> replicate 16 0"
    using assms by (cases "rand_fill E w") (auto simp: responsive_def, metis fst_conv)
  then have "id_nonce_default (Ok b) = Ret (IdNonce b)" by (simp add: id_nonce_default_iff)
  moreover obtain w2 where
    "retry_send E (ClientHello (hello_of info (load_metrics E w1) (IdNonce b))) stop w1 = Some w2"
    using responsive_retry [OF assms] by blast
  ultimately show ?thesis
    by (simp add: message_delegate_new_def pre_handshake_send_hello_def build_hello_eq [OF f(1)])
qed

lemma responsive_process:
  assumes "responsive E" "sha_digest_len (id_sha I)" "sha_incremental (id_sha I)"
  shows "\<exists>d' w'. delegate_process E I d m w = Some (Ret (d', w'))"
proof -
  note [intro!] = responsive_error [OF assms(1)] responsive_reply [OF assms(1)]
    responsive_handle_dispatch [OF assms(1)] responsive_ack [OF assms]
  obtain st where d: "d = MessageDelegate st" by (cases d)
  have "\<exists>st' w'. process_impl E I st m w = Some (Ret (st', w'))"
  proof (cases m)
    case (Inl e)
    then show ?thesis by (cases st) (auto simp: process_impl_def)
  next
    case (Inr msg)
    show ?thesis
    proof (cases st)
      case (Handshaking s)
      then show ?thesis using Inr
        by (cases msg) (auto simp: process_impl_def simp del: handshaking_process.simps(4))
    qed (use Inr in \<open>cases msg; auto simp: process_impl_def error_process_def\<close>)+
  qed
  then show ?thesis using d by auto
qed

section \<open>A sample connection\<close>

text \<open>
  A host that takes every message, over two queues with room, and a hash with the required laws.
\<close>

definition sample_world :: queues where
  "sample_world = \<lparr>q_requests = [], q_requests_cap = DISPATCH_QUEUE_LEN, q_reader_alive = True,
     q_responses = [], q_responses_cap = DISPATCH_QUEUE_LEN + 1, q_sender_alive = True\<rparr>"

definition sample_ids :: "bytes id_lib" where
  "sample_ids = \<lparr>id_sha = sample_sha, id_new_v8 = id\<rparr>"

definition sample_publisher :: dispatch_publisher where
  "sample_publisher = \<lparr>pub_tx = 1, pub_rx = None, pub_errors = 2\<rparr>"

definition sample_app :: app_info where
  "sample_app = app_info_new ''app'' ''1''"

definition sample_metrics :: instance_metrics where
  "sample_metrics = instance_metrics_default (build_version_from_build 1 0 0 [] None)"

definition sample_fsm :: "'s \<Rightarrow> ('s, unit) fsm" where
  "sample_fsm x = \<lparr>fsm_stop = 0, fsm_dispatch = sample_publisher, fsm_verifier = (), fsm_state = x\<rparr>"

definition sample_nonce :: id_nonce where
  "sample_nonce = IdNonce (replicate 16 1)"

definition sample_ack :: untrusted_connection_id where
  "sample_ack = \<lparr>uci_server_nonce = [2], uci_id = 2 # replicate 15 1\<rparr>"

definition sample_dispatch :: server_to_client where
  "sample_dispatch = Dispatch (CorrelationId 7) (Payload [9])
     (Some \<lparr>ds_cert_id = replicate 16 3, ds_signature = [1]\<rparr>)"

definition sample_request :: dispatch_request where
  "sample_request = \<lparr>dr_correlation_id = CorrelationId 7, dr_payload = Payload [9]\<rparr>"

definition sample_hello_log :: "event list" where
  "sample_hello_log = [EvRandFill (Ok (replicate 16 1)),
     EvIoSend (ClientHello (hello_of sample_app sample_metrics sample_nonce)) (Ok ())]"

lemma sample_world_room [simp]:
  "q_reader_alive sample_world" "q_requests_cap sample_world = 255" "q_requests sample_world = []"
  by (simp_all add: sample_world_def DISPATCH_QUEUE_LEN_def)

lemma sample_ids_laws: "sha_digest_len (id_sha sample_ids)" "sha_incremental (id_sha sample_ids)"
  by (simp_all add: sample_ids_def sample_sha_laws)

lemma sample_io [simp]:
  "io_send queue_env m w = Some (Ok (), w)" "rand_fill queue_env w = (Ok (replicate 16 1), w)"
  "load_metrics queue_env w = sample_metrics"
  by (simp_all add: queue_env_def sample_metrics_def)

lemma sample_retry: "retry_send (logged queue_env) m t (w, l) = Some (w, l @ [EvIoSend m (Ok ())])"
  by (subst retry_send.simps) simp

lemma sample_ack_verified:
  "verify_connection_id (id_sha sample_ids) (id_new_v8 sample_ids) sample_ack sample_nonce =
     Ret (Ok (ConnectionId (2 # replicate 15 1)))"
  by (simp add: verify_connection_id_eq sample_ids_laws)
    (simp add: derived_id_def sample_ids_def sample_sha_def sample_ack_def sample_nonce_def)

lemma sample_hello:
  "delegate_send_hello (logged queue_env) (message_delegate_new 0 sample_publisher sample_app ()) (w, l) =
   Some (Ret (MessageDelegate (Handshaking (sample_fsm (HandshakingPhase sample_nonce))),
     w, l @ sample_hello_log))"
proof -
  have f: "rand_fill (logged queue_env) (w, l) =
      (Ok (replicate 16 1), (w, l @ [EvRandFill (Ok (replicate 16 1))]))" by simp
  have "id_nonce_default (Ok (replicate 16 1)) = Ret sample_nonce"
    by (simp add: id_nonce_default_iff sample_nonce_def numeral_eq_Suc)
  then show ?thesis
    by (simp add: message_delegate_new_def pre_handshake_send_hello_def build_hello_eq [OF f]
        sample_retry sample_hello_log_def into_state_def sample_fsm_def)
qed

lemmas sample_hello_start = sample_hello [of sample_world "[]", simplified append_Nil]

lemma sample_ack_step:
  "delegate_process (logged queue_env) sample_ids
     (MessageDelegate (Handshaking (sample_fsm (HandshakingPhase sample_nonce))))
     (Ok (ClientHelloAck sample_ack)) (w, l) =
   Some (Ret (MessageDelegate (Active (sample_fsm (ActivePhase (ConnectionId (2 # replicate 15 1))))),
     w, l @ [EvRandFill (Ok (replicate 16 1))]))"
proof -
  have "id_nonce_default (Ok (replicate 16 1)) = Ret sample_nonce"
    by (simp add: id_nonce_default_iff sample_nonce_def numeral_eq_Suc)
  then show ?thesis
    by (simp add: process_impl_def sample_ack_verified sample_fsm_def into_state_def)
qed

lemma sample_dispatch_step:
  assumes "q_reader_alive w" and "length (q_requests w) < q_requests_cap w"
  shows "delegate_process (logged queue_env) sample_ids (MessageDelegate (Active (sample_fsm x)))
     (Ok sample_dispatch) (w, l) =
   Some (Ret (MessageDelegate (Active (sample_fsm x)),
     w\<lparr>q_requests := q_requests w @ [sample_request]\<rparr>, l @ [EvTrySend 1 sample_request TrySent]))"
proof -
  have "publisher_dispatch (logged queue_env) sample_publisher sample_request (w, l) =
    Some (Ok (), w\<lparr>q_requests := q_requests w @ [sample_request]\<rparr>, l @ [EvTrySend 1 sample_request TrySent])"
    by (rule publisher_dispatch_sent) (simp add: queue_env_def sample_publisher_def assms)
  then show ?thesis
    by (simp add: process_impl_def sample_dispatch_def sample_request_def handle_dispatch_def
        cert_id_try_from_vec_def cert_id_len_defs sample_fsm_def)
qed

lemma sample_ping_step:
  "delegate_process (logged queue_env) sample_ids (MessageDelegate (Active (sample_fsm x))) (Ok Ping) (w, l) =
   Some (Ret (MessageDelegate (Active (sample_fsm x)), w, l @ [EvIoSend Pong (Ok ())]))"
  by (simp add: process_impl_def reply_and_stay_def sample_retry)

lemma sample_duplicate_ack_step:
  "delegate_process (logged queue_env) sample_ids (MessageDelegate (Active (sample_fsm x)))
     (Ok (ClientHelloAck sample_ack)) (w, l) =
   Some (Ret (MessageDelegate (ErrorState (sample_fsm ErrorPhase)), w,
     l @ [EvIoSend (ProtocolError HandshakeDuplicateAck True) (Ok ())]))"
  by (simp add: process_impl_def fsm_protocol_error_def sample_retry complete_defs)
    (simp add: sample_fsm_def into_state_def)

text \<open>The same host with a reader that keeps draining the responses.\<close>

definition draining_env :: "queues env" where
  "draining_env = queue_env\<lparr>send_result := (\<lambda>c r w. Some (Ok (), w))\<rparr>"

lemma sample_responsive: "responsive draining_env"
proof -
  have "retry_round draining_env m t w = Some (Inr w)" for m t w
    by (simp add: retry_round_def draining_env_def)
  then have "\<exists>n wn w'. retry_rounds draining_env m t n w = Some wn
      \<and> retry_round draining_env m t wn = Some (Inr w')" for m t w
    by (intro exI [of _ 0]) simp
  then show ?thesis by (simp add: responsive_def draining_env_def numeral_eq_Suc)
qed

section \<open>Properties\<close>

text \<open>
  C2. The delegate refines the protocol: for every environment and every list of messages that it
  processes, the connection ends in the phase that the abstract machine reaches on those
  messages, keeps its stop signal and its publisher, and makes exactly the calls of a trace of
  the abstract machine, in order.
\<close>

theorem delegate_refines_protocol:
  assumes "connection_messages (logged E) I d ms (w, l) = Some (Ret (d', w', l'))"
  shows "phase_of (delegate_state d') = phase_after I (phase_of (delegate_state d)) ms
    \<and> handles_of (delegate_state d') = handles_of (delegate_state d)
    \<and> (\<exists>l1. l' = l @ l1 \<and>
        trace_of I (handles_of (delegate_state d)) (phase_of (delegate_state d)) ms l1)"
  using connection_trace [OF assms] .

theorem delegate_refines_protocol_witness:
  "phase_after sample_ids (AwaitAck sample_nonce) [Ok (ClientHelloAck sample_ack), Ok sample_dispatch] =
     Established (ConnectionId (2 # replicate 15 1))
   \<and> (\<exists>l. [EvRandFill (Ok (replicate 16 1)), EvTrySend 1 sample_request TrySent] = l
        \<and> trace_of sample_ids (0, sample_publisher) (AwaitAck sample_nonce)
             [Ok (ClientHelloAck sample_ack), Ok sample_dispatch] l)"
proof -
  let ?h = "MessageDelegate (Handshaking (sample_fsm (HandshakingPhase sample_nonce)))"
  let ?a = "MessageDelegate (Active (sample_fsm (ActivePhase (ConnectionId (2 # replicate 15 1)))))"
  have "connection_messages (logged queue_env) sample_ids ?h
      [Ok (ClientHelloAck sample_ack), Ok sample_dispatch] (sample_world, []) =
    Some (Ret (?a, sample_world\<lparr>q_requests := [sample_request]\<rparr>,
      [EvRandFill (Ok (replicate 16 1)), EvTrySend 1 sample_request TrySent]))"
    by (simp add: sample_ack_step sample_dispatch_step del: delegate_process.simps)
  from delegate_refines_protocol [OF this] show ?thesis
    by (simp add: sample_fsm_def del: trace_of.simps phase_after_simps)
qed

text \<open>
  A request is handed to the host only on a connection whose handshake was verified: in a
  connection that sent its hello and then processed messages, each request offered to the
  dispatch queue is the content of a dispatch message that carries a non-empty signature by a
  certificate identifier of 16 to 64 bytes, and an earlier message was an acknowledgement whose
  connection identifier verified against the very nonce that was sent in the hello.
\<close>

lemma dispatch_requires_handshake:
  assumes "delegate_send_hello (logged E) (message_delegate_new stop pub info v) (w, []) =
      Some (Ret (d1, w1, l1))"
    and "connection_messages (logged E) I d1 ms (w1, l1) = Some (Ret (d2, w2, l2))"
    and "EvTrySend c d r \<in> set l2"
  shows "\<exists>j k n m x u cid s. j < k \<and> k < length ms
    \<and> EvIoSend (ClientHello (hello_of info m n)) x \<in> set l1
    \<and> ms ! j = Ok (ClientHelloAck u)
    \<and> verify_connection_id (id_sha I) (id_new_v8 I) u n = Ret (Ok cid)
    \<and> ms ! k = Ok (Dispatch (dr_correlation_id d) (dr_payload d) (Some s))
    \<and> ds_signature s \<noteq> [] \<and> length (ds_cert_id s) \<in> {16..64} \<and> c = pub_tx pub"
proof -
  obtain n m lr where ph: "phase_of (delegate_state d1) = AwaitAck n"
    and h: "handles_of (delegate_state d1) = (stop, pub)"
    and l1: "l1 = EvRandFill (Ok (nonce_as_bytes n)) # lr"
    and hello: "retry_log (ClientHello (hello_of info m n)) stop lr"
    using hello_refines [OF assms(1)] by auto
  obtain x lr' where "lr = EvIoSend (ClientHello (hello_of info m n)) x # lr'"
    using retry_log_first [OF hello] by blast
  then have sent: "EvIoSend (ClientHello (hello_of info m n)) x \<in> set l1" using l1 by simp
  obtain la where l2: "l2 = l1 @ la" and t: "trace_of I (stop, pub) (AwaitAck n) ms la"
    using connection_trace [OF assms(2)] ph h by auto
  have "EvTrySend c d r \<notin> set l1" using l1 retry_log_no_dispatch [OF hello] by simp
  then have "EvTrySend c d r \<in> set la" using assms(3) l2 by simp
  from trace_offer [OF t this] obtain k cid s where k: "k < length ms"
    "phase_after I (AwaitAck n) (take k ms) = Established cid"
    "ms ! k = Ok (Dispatch (dr_correlation_id d) (dr_payload d) (Some s))"
    "ds_signature s \<noteq> []" "length (ds_cert_id s) \<in> {16..64}" "c = pub_tx pub" by auto
  from established_by_ack [OF k(2)] obtain j u where "j < k" "ms ! j = Ok (ClientHelloAck u)"
    "verify_connection_id (id_sha I) (id_new_v8 I) u n = Ret (Ok cid)" by auto
  then show ?thesis using k sent by blast
qed

lemma dispatch_requires_handshake_witness:
  "\<exists>j k n m x u cid s. j < k \<and> k < (2 :: nat)
    \<and> EvIoSend (ClientHello (hello_of sample_app m n)) x \<in> set sample_hello_log
    \<and> [Ok (ClientHelloAck sample_ack), Ok sample_dispatch] ! j = (Ok (ClientHelloAck u) :: incoming)
    \<and> verify_connection_id (id_sha sample_ids) (id_new_v8 sample_ids) u n = Ret (Ok cid)
    \<and> [Ok (ClientHelloAck sample_ack), Ok sample_dispatch] ! k = (Ok (Dispatch (CorrelationId 7) (Payload [9]) (Some s)) :: incoming)
    \<and> ds_signature s \<noteq> [] \<and> length (ds_cert_id s) \<in> {16..64} \<and> (1 :: nat) = pub_tx sample_publisher"
proof -
  let ?h = "MessageDelegate (Handshaking (sample_fsm (HandshakingPhase sample_nonce)))"
  let ?a = "MessageDelegate (Active (sample_fsm (ActivePhase (ConnectionId (2 # replicate 15 1)))))"
  have run: "connection_messages (logged queue_env) sample_ids ?h
      [Ok (ClientHelloAck sample_ack), Ok sample_dispatch] (sample_world, sample_hello_log) =
    Some (Ret (?a, sample_world\<lparr>q_requests := [sample_request]\<rparr>,
      sample_hello_log @ [EvRandFill (Ok (replicate 16 1)), EvTrySend 1 sample_request TrySent]))"
    by (simp add: sample_ack_step sample_dispatch_step del: delegate_process.simps)
  have "EvTrySend 1 sample_request TrySent \<in>
      set (sample_hello_log @ [EvRandFill (Ok (replicate 16 1)), EvTrySend 1 sample_request TrySent])"
    by simp
  from dispatch_requires_handshake [OF sample_hello_start run this] show ?thesis
    by (simp add: sample_request_def numeral_2_eq_2)
qed



text \<open>
  The hello of a connection carries a fresh nonce that is not all zero, the one its
  acknowledgement is later verified against, and the application's name and version; it is sent
  with retries right after the random source is read, and a second hello on the same connection
  panics.
\<close>

lemma hello_carries_nonce:
  assumes "delegate_send_hello (logged E) (message_delegate_new stop pub info v) (w, l) =
    Some (Ret (d', w', l'))"
  shows "(\<exists>n m lr. phase_of (delegate_state d') = AwaitAck n
      \<and> l' = l @ EvRandFill (Ok (nonce_as_bytes n)) # lr
      \<and> retry_log (ClientHello (hello_of info m n)) stop lr \<and> nonce_as_bytes n \<noteq> replicate 16 0)
    \<and> (\<exists>p. delegate_send_hello E d' w'' = Some (Panic p))"
proof -
  have "\<exists>n. phase_of (delegate_state d') = AwaitAck n" using hello_refines [OF assms] by blast
  then have "\<exists>p. delegate_send_hello E d' w'' = Some (Panic p)"
    by (cases d'; cases "delegate_state d'") (auto simp: outside_pre_handshake_def)
  then show ?thesis using hello_refines [OF assms] by blast
qed

lemma hello_carries_nonce_witness:
  "\<exists>n m lr. sample_hello_log = EvRandFill (Ok (nonce_as_bytes n)) # lr
      \<and> retry_log (ClientHello (hello_of sample_app m n)) 0 lr \<and> nonce_as_bytes n \<noteq> replicate 16 0"
  using hello_carries_nonce [OF sample_hello_start] by auto



end
