(* ===== verification/Actor.thy ===== *)
theory Actor
  imports Delegate_Protocol "HOL-Library.Sublist"
begin

text \<open>
  The control loop of a connection: \<open>connection/handler/actor.rs\<close> of \<open>rc-x509-client\<close>. The
  loop waits, in a fixed order of preference, for its stop signal, for a result of the host and
  for a message of the server. What it polls is the parameter \<open>'w polls\<close>: a poll is pending or
  ready, and \<open>park\<close> is the wait of the task until one of them may have changed, None if that
  never happens. The processing of messages is a parameter too, as the trait
  \<open>ServerMessageDelegate\<close> of \<open>connection/handler/traits.rs\<close>.
\<close>

section \<open>Polls\<close>

datatype 'a poll = Pending | Ready 'a

type_synonym instant = nat

record 'w polls =
  take_messages :: "'w \<Rightarrow> bool \<times> 'w"
  poll_stop :: "token \<Rightarrow> 'w \<Rightarrow> bool \<times> 'w"
  poll_result :: "chan \<Rightarrow> 'w \<Rightarrow> dispatch_result option poll \<times> 'w"
  poll_message :: "'w \<Rightarrow> incoming option poll \<times> 'w"
  park :: "'w \<Rightarrow> 'w option"
  instant_now :: "'w \<Rightarrow> instant \<times> 'w"
  instant_elapsed :: "instant \<Rightarrow> 'w \<Rightarrow> duration \<times> 'w"

text \<open>The trait of a message processor.\<close>

record ('d, 'w) server_message_delegate =
  smd_send_hello :: "'d \<Rightarrow> 'w \<Rightarrow> ('d \<times> 'w) comp"
  smd_process :: "'d \<Rightarrow> incoming \<Rightarrow> 'w \<Rightarrow> ('d \<times> 'w) comp"

definition message_delegate_impl ::
  "'w env \<Rightarrow> 'h id_lib \<Rightarrow> ('v message_delegate, 'w) server_message_delegate" where
  "message_delegate_impl E I = \<lparr>smd_send_hello = delegate_send_hello E, smd_process = delegate_process E I\<rparr>"

section \<open>The actor\<close>

record 'd connection_actor =
  ca_stop :: token
  ca_dispatch_stream :: "chan option"
  ca_delegate :: 'd

definition connection_actor_new :: "token \<Rightarrow> 'd \<Rightarrow> chan \<Rightarrow> 'd connection_actor" where
  "connection_actor_new stop delegate dispatch_stream =
     \<lparr>ca_stop = stop, ca_dispatch_stream = Some dispatch_stream, ca_delegate = delegate\<rparr>"

definition dispatch_response_message :: "dispatch_result \<Rightarrow> client_to_server" where
  "dispatch_response_message v =
     DispatchResponse (res_correlation_id v)
       (case res_result v of
          Inr payload \<Rightarrow> WireResultPayload payload
        | Inl err \<Rightarrow> WireResultError (wire_dispatch_error_number (dispatch_error_to_wire err)))"

definition actor_dispatch_response ::
  "'w env \<Rightarrow> 'd connection_actor \<Rightarrow> dispatch_result \<Rightarrow> 'w \<Rightarrow> 'w option" where
  "actor_dispatch_response E self v w = retry_send E (dispatch_response_message v) (ca_stop self) w"

definition server_message ::
  "('d, 'w) server_message_delegate \<Rightarrow> 'd connection_actor \<Rightarrow> incoming \<Rightarrow> 'w
     \<Rightarrow> ('d connection_actor \<times> 'w) comp" where
  "server_message D self msg w =
     comp_bind (smd_process D (ca_delegate self) msg w)
       (\<lambda>(d, w'). done_with (self\<lparr>ca_delegate := d\<rparr>, w'))"

text \<open>One pass of the biased select over its three branches.\<close>

datatype selected =
    SelStop
  | SelResult "dispatch_result option"
  | SelMessage "incoming option"
  | SelNone

definition select_pass :: "'w polls \<Rightarrow> token \<Rightarrow> chan \<Rightarrow> 'w \<Rightarrow> selected \<times> 'w" where
  "select_pass S stop dispatch_ack w =
     (case poll_stop S stop w of
        (True, w1) \<Rightarrow> (SelStop, w1)
      | (False, w1) \<Rightarrow>
          (case poll_result S dispatch_ack w1 of
             (Ready v, w2) \<Rightarrow> (SelResult v, w2)
           | (Pending, w2) \<Rightarrow>
               (case poll_message S w2 of
                  (Ready v, w3) \<Rightarrow> (SelMessage v, w3)
                | (Pending, w3) \<Rightarrow> (SelNone, w3))))"

text \<open>The body of the loop, and the loop.\<close>

definition actor_round ::
  "'w env \<Rightarrow> 'w polls \<Rightarrow> ('d, 'w) server_message_delegate \<Rightarrow> chan \<Rightarrow> 'd connection_actor \<times> 'w
     \<Rightarrow> (('d connection_actor \<times> 'w) + 'w) comp" where
  "actor_round E S D dispatch_ack = (\<lambda>(self, w).
     (case select_pass S (ca_stop self) dispatch_ack w of
        (SelStop, w1) \<Rightarrow> done_with (Inr w1)
      | (SelResult (Some v), w1) \<Rightarrow>
          Option.bind (actor_dispatch_response E self v w1) (\<lambda>w2. done_with (Inl (self, w2)))
      | (SelResult None, w1) \<Rightarrow> done_with (Inr w1)
      | (SelMessage (Some v), w1) \<Rightarrow> comp_bind (server_message D self v w1) (\<lambda>x. done_with (Inl x))
      | (SelMessage None, w1) \<Rightarrow> done_with (Inr w1)
      | (SelNone, w1) \<Rightarrow> Option.bind (park S w1) (\<lambda>w2. done_with (Inl (self, w2)))))"

definition actor_loop ::
  "'w env \<Rightarrow> 'w polls \<Rightarrow> ('d, 'w) server_message_delegate \<Rightarrow> chan \<Rightarrow> 'd connection_actor \<Rightarrow> 'w
     \<Rightarrow> 'w comp" where
  "actor_loop E S D dispatch_ack self w = rust_loop (actor_round E S D dispatch_ack) (self, w)"

definition run_loop ::
  "'w env \<Rightarrow> 'w polls \<Rightarrow> ('d, 'w) server_message_delegate \<Rightarrow> 'd connection_actor \<Rightarrow> 'w \<Rightarrow> 'w comp" where
  "run_loop E S D self w =
     (case ca_dispatch_stream self of
        None \<Rightarrow> Some (Panic ''first call'')
      | Some dispatch_ack \<Rightarrow>
          (case take_messages S w of
             (False, w1) \<Rightarrow> Some (Panic ''first call'')
           | (True, w1) \<Rightarrow>
               comp_bind (smd_send_hello D (ca_delegate self) w1) (\<lambda>(d, w2).
                 actor_loop E S D dispatch_ack
                   (self\<lparr>ca_dispatch_stream := None, ca_delegate := d\<rparr>) w2)))"

definition actor_run ::
  "'w env \<Rightarrow> 'w polls \<Rightarrow> ('d, 'w) server_message_delegate \<Rightarrow> 'd connection_actor \<Rightarrow> 'w \<Rightarrow> 'w comp" where
  "actor_run E S D self w =
     (case instant_now S w of
        (start, w1) \<Rightarrow>
          comp_bind (run_loop E S D self w1) (\<lambda>w2.
            case instant_elapsed S start w2 of
              (d, w3) \<Rightarrow> done_with (store_metrics E (set_last_conn_duration d (load_metrics E w3)) w3)))"

section \<open>Observed inputs\<close>

definition logged_polls :: "'w polls \<Rightarrow> ('w \<times> event list) polls" where
  "logged_polls S = \<lparr>
     take_messages = (\<lambda>(w, l). let (b, w') = take_messages S w in (b, w', l)),
     poll_stop = (\<lambda>t (w, l). let (b, w') = poll_stop S t w in
       (b, w', if b then l @ [EvStopSeen t] else l)),
     poll_result = (\<lambda>c (w, l). let (r, w') = poll_result S c w in
       (r, w', case r of Pending \<Rightarrow> l | Ready None \<Rightarrow> l @ [EvResultsEnded c] | Ready (Some v) \<Rightarrow> l @ [EvResult v])),
     poll_message = (\<lambda>(w, l). let (r, w') = poll_message S w in
       (r, w', case r of Pending \<Rightarrow> l | Ready None \<Rightarrow> l @ [EvMessagesEnded] | Ready (Some m) \<Rightarrow> l @ [EvMessage m])),
     park = (\<lambda>(w, l). map_option (\<lambda>w'. (w', l)) (park S w)),
     instant_now = (\<lambda>(w, l). let (i, w') = instant_now S w in (i, w', l)),
     instant_elapsed = (\<lambda>i (w, l). let (d, w') = instant_elapsed S i w in (d, w', l))\<rparr>"

text \<open>What one pass adds to the log.\<close>

fun selected_log :: "token \<Rightarrow> chan \<Rightarrow> selected \<Rightarrow> event list" where
  "selected_log t c SelStop = [EvStopSeen t]"
| "selected_log t c (SelResult None) = [EvResultsEnded c]"
| "selected_log t c (SelResult (Some v)) = [EvResult v]"
| "selected_log t c (SelMessage None) = [EvMessagesEnded]"
| "selected_log t c (SelMessage (Some m)) = [EvMessage m]"
| "selected_log t c SelNone = []"

lemma select_pass_logged:
  "select_pass (logged_polls S) t c (w, l) =
     (case select_pass S t c w of (sel, w') \<Rightarrow> (sel, w', l @ selected_log t c sel))"
proof -
  obtain b w1 where b: "poll_stop S t w = (b, w1)" by fastforce
  obtain r w2 where r: "poll_result S c w1 = (r, w2)" by fastforce
  obtain m w3 where m: "poll_message S w2 = (m, w3)" by fastforce
  show ?thesis
  proof (cases b)
    case True
    then show ?thesis using b by (simp add: select_pass_def logged_polls_def)
  next
    case stop: False
    show ?thesis
    proof (cases r)
      case (Ready v)
      then show ?thesis using b r stop by (cases v) (simp_all add: select_pass_def logged_polls_def)
    next
      case Pending
      show ?thesis
      proof (cases m)
        case (Ready v)
        then show ?thesis using b r m stop Pending
          by (cases v) (simp_all add: select_pass_def logged_polls_def)
      qed (use b r m stop Pending in \<open>simp add: select_pass_def logged_polls_def\<close>)
    qed
  qed
qed

lemma logged_polls_simps [simp]:
  "park (logged_polls S) (w, l) = map_option (\<lambda>w'. (w', l)) (park S w)"
  "take_messages (logged_polls S) (w, l) = (case take_messages S w of (b, w') \<Rightarrow> (b, w', l))"
  "instant_now (logged_polls S) (w, l) = (case instant_now S w of (i, w') \<Rightarrow> (i, w', l))"
  "instant_elapsed (logged_polls S) i (w, l) = (case instant_elapsed S i w of (d, w') \<Rightarrow> (d, w', l))"
  by (simp_all add: logged_polls_def)

section \<open>The contract of a message processor\<close>

text \<open>
  The traces of the loop over a list of inputs, for a processor whose steps leave the traces that
  \<open>step\<close> names: each result is answered under the stop signal, each message is processed.
\<close>

datatype input = InResult dispatch_result | InMessage incoming

fun run_trace ::
  "('d \<Rightarrow> incoming \<Rightarrow> 'd \<Rightarrow> event list \<Rightarrow> bool) \<Rightarrow> token \<Rightarrow> 'd \<Rightarrow> input list \<Rightarrow> event list \<Rightarrow> bool" where
  "run_trace step t d [] l \<longleftrightarrow> l = []"
| "run_trace step t d (InResult v # ins) l \<longleftrightarrow>
     (\<exists>l1 l2. l = EvResult v # l1 @ l2 \<and> retry_log (dispatch_response_message v) t l1
        \<and> run_trace step t d ins l2)"
| "run_trace step t d (InMessage m # ins) l \<longleftrightarrow>
     (\<exists>d' l1 l2. l = EvMessage m # l1 @ l2 \<and> step d m d' l1 \<and> run_trace step t d' ins l2)"

definition final_event :: "token \<Rightarrow> chan \<Rightarrow> event \<Rightarrow> bool" where
  "final_event t c e \<longleftrightarrow> e \<in> {EvStopSeen t, EvResultsEnded c, EvMessagesEnded}"

lemma selected_exhaust [case_names stop results messages none result message]:
  obtains "sel = SelStop" | "sel = SelResult None" | "sel = SelMessage None" | "sel = SelNone"
    | v where "sel = SelResult (Some v)" | m where "sel = SelMessage (Some m)"
proof (cases sel)
  case (SelResult v)
  then show thesis using that by (cases v) simp_all
next
  case (SelMessage v)
  then show thesis using that by (cases v) simp_all
qed (use that in simp_all)

locale message_processor =
  fixes D :: "('d, 'w \<times> event list) server_message_delegate"
    and hello :: "'d \<Rightarrow> 'd \<Rightarrow> event list \<Rightarrow> bool"
    and step :: "'d \<Rightarrow> incoming \<Rightarrow> 'd \<Rightarrow> event list \<Rightarrow> bool"
  assumes hello_log: "smd_send_hello D d (w, l) = Some (Ret (d', w', l')) \<Longrightarrow>
      \<exists>l1. l' = l @ l1 \<and> hello d d' l1"
    and process_log: "smd_process D d m (w, l) = Some (Ret (d', w', l')) \<Longrightarrow>
      \<exists>l1. l' = l @ l1 \<and> step d m d' l1"
begin

lemma round_trace:
  assumes "actor_round (logged E) (logged_polls S) D c (self, w, l) = Some (Ret x)"
  shows "(\<exists>w' e. x = Inr (w', l @ [e]) \<and> final_event (ca_stop self) c e)
    \<or> (\<exists>self' w' l1. x = Inl (self', w', l @ l1) \<and> ca_stop self' = ca_stop self \<and>
        (\<forall>ins l2. run_trace step (ca_stop self) (ca_delegate self') ins l2 \<longrightarrow>
          (\<exists>ins'. run_trace step (ca_stop self) (ca_delegate self) ins' (l1 @ l2))))"
proof -
  let ?t = "ca_stop self"
  obtain sel w1 where sel: "select_pass S ?t c w = (sel, w1)" by fastforce
  then have pass: "select_pass (logged_polls S) ?t c (w, l) = (sel, w1, l @ selected_log ?t c sel)"
    by (simp add: select_pass_logged)
  note round = assms [unfolded actor_round_def, simplified pass prod.case]
  show ?thesis
  proof (cases sel rule: selected_exhaust)
    case none
    then show ?thesis using round by (auto simp: bind_eq_Some_conv)
  next
    case (result v)
    obtain w2 l2 where r: "retry_send (logged E) (dispatch_response_message v) ?t (w1, l @ [EvResult v]) = Some (w2, l2)"
      and x: "x = Inl (self, w2, l2)"
      using round result by (auto simp: bind_eq_Some_conv actor_dispatch_response_def)
    from retry_send_log [OF r] obtain l1 where
      l1: "l2 = (l @ [EvResult v]) @ l1" "retry_log (dispatch_response_message v) ?t l1" by blast
    have "\<exists>ins'. run_trace step ?t (ca_delegate self) ins' ((EvResult v # l1) @ l3)"
      if "run_trace step ?t (ca_delegate self) ins l3" for ins l3
      using that l1(2) by (intro exI [of _ "InResult v # ins"]) auto
    then show ?thesis using x l1(1) by auto
  next
    case (message m)
    obtain d' w2 l2 where p: "smd_process D (ca_delegate self) m (w1, l @ [EvMessage m]) = Some (Ret (d', w2, l2))"
      and x: "x = Inl (self\<lparr>ca_delegate := d'\<rparr>, w2, l2)"
      using round message by (auto simp: comp_bind_eq_Ret server_message_def)
    from process_log [OF p] obtain l1 where l1: "l2 = (l @ [EvMessage m]) @ l1"
      "step (ca_delegate self) m d' l1" by blast
    have "\<exists>ins'. run_trace step ?t (ca_delegate self) ins' ((EvMessage m # l1) @ l3)"
      if "run_trace step ?t d' ins l3" for ins l3
      using that l1(2) by (intro exI [of _ "InMessage m # ins"]) auto
    then show ?thesis using x l1(1) by auto
  qed (use round in \<open>auto simp: final_event_def\<close>)
qed

lemma loop_trace:
  assumes "actor_loop (logged E) (logged_polls S) D c self (w, l) = Some (Ret y)"
  shows "\<exists>ins l1 e. snd y = l @ l1 @ [e] \<and> run_trace step (ca_stop self) (ca_delegate self) ins l1
      \<and> final_event (ca_stop self) c e"
proof -
  have "case (self, w, l) of (self, w, l) \<Rightarrow>
    \<exists>ins l1 e. snd y = l @ l1 @ [e] \<and> run_trace step (ca_stop self) (ca_delegate self) ins l1
      \<and> final_event (ca_stop self) c e"
    using assms [unfolded actor_loop_def]
  proof (induction rule: rust_loop_fold)
    case (leave s r)
    obtain self w l where s: "s = (self, w, l)" by (cases s)
    from round_trace [OF leave [unfolded s]] show ?case
      using s by (auto intro!: exI [of _ "[]"])
  next
    case (continue s s' r)
    obtain self w l where s: "s = (self, w, l)" by (cases s)
    from round_trace [OF continue(1) [unfolded s]] obtain self' w' l1 where
      s': "s' = (self', w', l @ l1)" and t: "ca_stop self' = ca_stop self"
      and k: "\<And>ins l2. run_trace step (ca_stop self) (ca_delegate self') ins l2 \<Longrightarrow>
        \<exists>ins'. run_trace step (ca_stop self) (ca_delegate self) ins' (l1 @ l2)"
      by auto
    from continue(2) obtain ins l2 e where "snd r = (l @ l1) @ l2 @ [e]"
      "run_trace step (ca_stop self) (ca_delegate self') ins l2" "final_event (ca_stop self) c e"
      unfolding s' t [symmetric] by auto
    moreover from k [OF this(2)] obtain ins' where
      "run_trace step (ca_stop self) (ca_delegate self) ins' (l1 @ l2)" by blast
    ultimately show ?case unfolding s prod.case
      by (intro exI [of _ ins'] exI [of _ "l1 @ l2"] exI [of _ e]) simp
  qed
  then show ?thesis by simp
qed

lemma run_loop_trace:
  assumes "run_loop (logged E) (logged_polls S) D self (w, l) = Some (Ret (w', l'))"
  shows "\<exists>c d ins l1 l2 e. ca_dispatch_stream self = Some c \<and> hello (ca_delegate self) d l1
    \<and> run_trace step (ca_stop self) d ins l2 \<and> final_event (ca_stop self) c e
    \<and> l' = l @ l1 @ l2 @ [e]"
proof -
  obtain c w1 d w2 l2 where c: "ca_dispatch_stream self = Some c"
    and h: "smd_send_hello D (ca_delegate self) (w1, l) = Some (Ret (d, w2, l2))"
    and k: "actor_loop (logged E) (logged_polls S) D c
      (self\<lparr>ca_dispatch_stream := None, ca_delegate := d\<rparr>) (w2, l2) = Some (Ret (w', l'))"
    using assms by (auto simp: run_loop_def comp_bind_eq_Ret split: option.splits prod.splits bool.splits)
  from hello_log [OF h] loop_trace [OF k] c show ?thesis
    by (fastforce simp del: run_trace.simps)
qed

lemma actor_run_trace:
  assumes "actor_run (logged E) (logged_polls S) D self (w, l) = Some (Ret (w', l'))"
  shows "\<exists>c d ins l1 l2 e. ca_dispatch_stream self = Some c \<and> hello (ca_delegate self) d l1
    \<and> run_trace step (ca_stop self) d ins l2 \<and> final_event (ca_stop self) c e
    \<and> l' = l @ l1 @ l2 @ [e]"
proof -
  obtain w1 w2 where "run_loop (logged E) (logged_polls S) D self (w1, l) = Some (Ret (w2, l'))"
    using assms by (auto simp: actor_run_def comp_bind_eq_Ret split: prod.splits)
  from run_loop_trace [OF this] show ?thesis .
qed

end

text \<open>The delegate of a connection keeps the contract, with the traces of the protocol.\<close>

definition hello_step :: "'v message_delegate \<Rightarrow> 'v message_delegate \<Rightarrow> event list \<Rightarrow> bool" where
  "hello_step d d' l \<longleftrightarrow>
     (\<exists>s info n m lr. d = MessageDelegate (PreHandshake s) \<and> fsm_state s = PreHandshakePhase info
        \<and> phase_of (delegate_state d') = AwaitAck n
        \<and> handles_of (delegate_state d') = handles_of (delegate_state d)
        \<and> l = EvRandFill (Ok (nonce_as_bytes n)) # lr
        \<and> retry_log (ClientHello (hello_of info m n)) (fsm_stop s) lr)"

definition protocol_trace_step ::
  "'h id_lib \<Rightarrow> 'v message_delegate \<Rightarrow> incoming \<Rightarrow> 'v message_delegate \<Rightarrow> event list \<Rightarrow> bool" where
  "protocol_trace_step I d m d' l \<longleftrightarrow>
     phase_of (delegate_state d') = snd (protocol_step I (phase_of (delegate_state d)) m)
     \<and> handles_of (delegate_state d') = handles_of (delegate_state d)
     \<and> step_log I (handles_of (delegate_state d)) (phase_of (delegate_state d)) m l"

lemma pre_handshake_as_new:
  "fsm_state s = PreHandshakePhase info \<Longrightarrow>
     MessageDelegate (PreHandshake s) = message_delegate_new (fsm_stop s) (fsm_dispatch s) info (fsm_verifier s)"
  by (cases s) (simp add: message_delegate_new_def fsm_new_def)

lemma delegate_hello_log:
  assumes "delegate_send_hello (logged E) d (w, l) = Some (Ret (d', w', l'))"
  shows "\<exists>l1. l' = l @ l1 \<and> hello_step d d' l1"
proof -
  obtain st where "d = MessageDelegate st" by (cases d)
  moreover from this obtain s where "st = PreHandshake s"
    using assms by (cases st) (auto simp: outside_pre_handshake_def)
  moreover obtain info where info: "fsm_state s = PreHandshakePhase info" by (cases "fsm_state s")
  ultimately have d: "d = MessageDelegate (PreHandshake s)" by simp
  show ?thesis
    using hello_refines [of E "fsm_stop s" "fsm_dispatch s" info "fsm_verifier s" w l d' w' l'] assms info
    unfolding hello_step_def d pre_handshake_as_new [OF info, symmetric] by fastforce
qed

interpretation delegate_processor:
  message_processor "message_delegate_impl (logged E) I" hello_step "protocol_trace_step I" for E I
proof unfold_locales
  fix d w l d' w' l'
  assume "smd_send_hello (message_delegate_impl (logged E) I) d (w, l) = Some (Ret (d', w', l'))"
  then show "\<exists>l1. l' = l @ l1 \<and> hello_step d d' l1"
    by (intro delegate_hello_log) (simp add: message_delegate_impl_def)
next
  fix d m w l d' w' l'
  assume "smd_process (message_delegate_impl (logged E) I) d m (w, l) = Some (Ret (d', w', l'))"
  then show "\<exists>l1. l' = l @ l1 \<and> protocol_trace_step I d m d' l1"
    using delegate_process_refines [of E I d m w l d' w' l']
    by (auto simp: message_delegate_impl_def protocol_trace_step_def)
qed

section \<open>Facts of whole runs\<close>

text \<open>The results a run took from the host and the responses that the connection accepted.\<close>

fun received_results :: "event list \<Rightarrow> dispatch_result list" where
  "received_results [] = []"
| "received_results (EvResult v # l) = v # received_results l"
| "received_results (_ # l) = received_results l"

fun accepted_responses :: "event list \<Rightarrow> client_to_server list" where
  "accepted_responses [] = []"
| "accepted_responses (EvIoSend (DispatchResponse i r) (Inr u) # l) =
     DispatchResponse i r # accepted_responses l"
| "accepted_responses (_ # l) = accepted_responses l"

lemma received_results_append [simp]:
  "received_results (l @ l') = received_results l @ received_results l'"
  by (induction l rule: received_results.induct) simp_all

lemma accepted_responses_append [simp]:
  "accepted_responses (l @ l') = accepted_responses l @ accepted_responses l'"
  by (induction l rule: accepted_responses.induct) simp_all

lemma retry_log_received: "retry_log m t l \<Longrightarrow> received_results l = []"
  by (induction rule: retry_log.induct) simp_all

lemma retry_log_accepted: "retry_log m t l \<Longrightarrow> subseq (accepted_responses l) [m]"
  by (induction rule: retry_log.induct) (cases m; simp)+

lemma retry_log_no_response:
  "retry_log Pong t l \<Longrightarrow> accepted_responses l = []"
  "retry_log (ProtocolError e b) t l \<Longrightarrow> accepted_responses l = []"
  "retry_log (ClientHello h) t l \<Longrightarrow> accepted_responses l = []"
  by (atomize (full), intro conjI impI; induction rule: retry_log.induct; simp)+

lemma offer_log_quiet:
  "offer_log p d r l \<Longrightarrow> accepted_responses l = [] \<and> received_results l = []"
  by (auto simp: offer_log_def split: option.splits)

lemma step_log_quiet:
  assumes "step_log I h ph m l"
  shows "accepted_responses l = [] \<and> received_results l = []"
proof -
  obtain stop p where h: "h = (stop, p)" by fastforce
  obtain pre post where l: "l = pre @ post" "pre = [] \<or> (\<exists>f. pre = [EvRandFill f])"
    and e: "effect_log h (fst (protocol_step I ph m)) post"
    using step_log_split [OF assms] .
  have "accepted_responses post = [] \<and> received_results post = []"
    using e h protocol_step_kinds [of I ph m]
    by (auto simp: retry_log_received retry_log_no_response offer_log_quiet)
  then show ?thesis using l by auto
qed

lemma run_trace_forwards:
  "run_trace (protocol_trace_step I) t d ins l \<Longrightarrow>
     subseq (accepted_responses l) (map dispatch_response_message (received_results l))"
proof (induction ins arbitrary: d l)
  case (Cons i ins)
  show ?case
  proof (cases i)
    case (InResult v)
    then obtain l1 l2 where l: "l = EvResult v # l1 @ l2"
      and r: "retry_log (dispatch_response_message v) t l1"
      and t: "run_trace (protocol_trace_step I) t d ins l2" using Cons.prems by auto
    have "subseq (accepted_responses l1 @ accepted_responses l2)
        ([dispatch_response_message v] @ map dispatch_response_message (received_results l2))"
      by (rule list_emb_append_mono [OF retry_log_accepted [OF r] Cons.IH [OF t]])
    then show ?thesis using l by (simp add: retry_log_received [OF r])
  next
    case (InMessage m)
    then obtain d' l1 l2 where l: "l = EvMessage m # l1 @ l2"
      and r: "protocol_trace_step I d m d' l1"
      and t: "run_trace (protocol_trace_step I) t d' ins l2" using Cons.prems by auto
    have "accepted_responses l1 = [] \<and> received_results l1 = []"
      using r by (intro step_log_quiet) (auto simp: protocol_trace_step_def)
    then show ?thesis using l Cons.IH [OF t] by simp
  qed
qed simp

lemma message_predecessors:
  "snd (message_step I ph m) = AwaitAck n \<Longrightarrow> ph = AwaitAck n"
  "snd (message_step I ph m) = Established c \<Longrightarrow>
     ph = Established c \<or> (\<exists>n u. ph = AwaitAck n \<and> m = ClientHelloAck u
       \<and> verify_connection_id (id_sha I) (id_new_v8 I) u n = Ret (Ok c))"
proof -
  have "snd (message_step I ph m) = ph \<or> snd (message_step I ph m) = Failed
    \<or> (\<exists>n u c. ph = AwaitAck n \<and> m = ClientHelloAck u \<and> snd (message_step I ph m) = Established c
         \<and> verify_connection_id (id_sha I) (id_new_v8 I) u n = Ret (Ok c))"
  proof (cases m)
    case (ClientHelloAck u)
    then show ?thesis by (cases ph) (auto simp: violation_def split: run.splits sum.splits)
  next
    case (Dispatch i p sig)
    then show ?thesis by (cases ph) (auto simp: violation_def split: option.splits)
  qed (cases ph; simp)+
  then show "snd (message_step I ph m) = AwaitAck n \<Longrightarrow> ph = AwaitAck n"
    and "snd (message_step I ph m) = Established c \<Longrightarrow>
     ph = Established c \<or> (\<exists>n u. ph = AwaitAck n \<and> m = ClientHelloAck u
       \<and> verify_connection_id (id_sha I) (id_new_v8 I) u n = Ret (Ok c))"
    by auto
qed

lemma phase_predecessors:
  "snd (protocol_step I ph m) = AwaitAck n \<Longrightarrow> ph = AwaitAck n"
  "snd (protocol_step I ph m) = Established c \<Longrightarrow>
     ph = Established c \<or> (\<exists>n u. ph = AwaitAck n \<and> m = Ok (ClientHelloAck u)
       \<and> verify_connection_id (id_sha I) (id_new_v8 I) u n = Ret (Ok c))"
proof -
  have "snd (protocol_step I ph m) = Failed \<or>
      (\<exists>msg. m = Ok msg \<and> protocol_step I ph m = message_step I ph msg)"
    by (cases ph; cases m) (simp_all add: violation_def)
  then show "snd (protocol_step I ph m) = AwaitAck n \<Longrightarrow> ph = AwaitAck n"
    and "snd (protocol_step I ph m) = Established c \<Longrightarrow>
     ph = Established c \<or> (\<exists>n u. ph = AwaitAck n \<and> m = Ok (ClientHelloAck u)
       \<and> verify_connection_id (id_sha I) (id_new_v8 I) u n = Ret (Ok c))"
    by (auto dest!: message_predecessors)
qed

text \<open>Where a phase that allows dispatches comes from, in a log of the messages that led to it.\<close>

definition justified :: "'h id_lib \<Rightarrow> phase \<Rightarrow> event list \<Rightarrow> bool" where
  "justified I ph l \<longleftrightarrow> (\<exists>c. ph = Established c) \<or>
     (\<exists>n u c. ph = AwaitAck n \<and> EvMessage (Ok (ClientHelloAck u)) \<in> set l
        \<and> verify_connection_id (id_sha I) (id_new_v8 I) u n = Ret (Ok c))"

lemma justified_step:
  "justified I (snd (protocol_step I ph m)) l \<Longrightarrow> justified I ph (EvMessage m # l1 @ l)"
proof -
  assume "justified I (snd (protocol_step I ph m)) l"
  then consider c where "snd (protocol_step I ph m) = Established c"
    | n u c where "snd (protocol_step I ph m) = AwaitAck n" "EvMessage (Ok (ClientHelloAck u)) \<in> set l"
        "verify_connection_id (id_sha I) (id_new_v8 I) u n = Ret (Ok c)"
    unfolding justified_def by blast
  then show "justified I ph (EvMessage m # l1 @ l)"
  proof cases
    case 1
    then show ?thesis using phase_predecessors(2) [OF 1] unfolding justified_def by auto
  next
    case 2
    then show ?thesis using phase_predecessors(1) [OF 2(1)] unfolding justified_def by auto
  qed
qed

lemma run_trace_offer:
  "run_trace (protocol_trace_step I) t d ins l \<Longrightarrow> EvTrySend c x r \<in> set l \<Longrightarrow>
    \<exists>pre s post. l = pre @ EvMessage (Ok (Dispatch (dr_correlation_id x) (dr_payload x) (Some s))) # post
      \<and> EvTrySend c x r \<in> set post \<and> ds_signature s \<noteq> [] \<and> length (ds_cert_id s) \<in> {16..64}
      \<and> c = pub_tx (snd (handles_of (delegate_state d))) \<and> justified I (phase_of (delegate_state d)) pre"
proof (induction ins arbitrary: d l)
  case (Cons i ins)
  show ?case
  proof (cases i)
    case (InResult v)
    then obtain l1 l2 where l: "l = EvResult v # l1 @ l2"
      and q: "retry_log (dispatch_response_message v) t l1"
      and t: "run_trace (protocol_trace_step I) t d ins l2" using Cons.prems by auto
    have "EvTrySend c x r \<in> set l2" using Cons.prems(2) l retry_log_no_dispatch [OF q] by auto
    from Cons.IH [OF t this] obtain pre s post where
      "l2 = pre @ EvMessage (Ok (Dispatch (dr_correlation_id x) (dr_payload x) (Some s))) # post"
      "EvTrySend c x r \<in> set post" "ds_signature s \<noteq> []" "length (ds_cert_id s) \<in> {16..64}"
      "c = pub_tx (snd (handles_of (delegate_state d)))" "justified I (phase_of (delegate_state d)) pre"
      by blast
    then show ?thesis using l
      by (intro exI [of _ "EvResult v # l1 @ pre"] exI [of _ s] exI [of _ post]) (auto simp: justified_def)
  next
    case (InMessage m)
    then obtain d' l1 l2 where l: "l = EvMessage m # l1 @ l2"
      and step: "protocol_trace_step I d m d' l1"
      and t: "run_trace (protocol_trace_step I) t d' ins l2"
      using Cons.prems by auto
    note q = step [unfolded protocol_trace_step_def, THEN conjunct2, THEN conjunct2]
      and ph = step [unfolded protocol_trace_step_def, THEN conjunct1]
      and h = step [unfolded protocol_trace_step_def, THEN conjunct2, THEN conjunct1]
    show ?thesis
    proof (cases "EvTrySend c x r \<in> set l1")
      case True
      obtain s cid where "m = Ok (Dispatch (dr_correlation_id x) (dr_payload x) (Some s))"
        "ds_signature s \<noteq> []" "length (ds_cert_id s) \<in> {16..64}"
        "phase_of (delegate_state d) = Established cid"
        using step_log_offers [OF q True] protocol_step_kinds [of I "phase_of (delegate_state d)" m] by auto
      then show ?thesis using l True step_log_offers [OF q True]
        by (intro exI [of _ "[]"] exI [of _ s] exI [of _ "l1 @ l2"]) (auto simp: justified_def)
    next
      case False
      then have "EvTrySend c x r \<in> set l2" using Cons.prems(2) l by auto
      from Cons.IH [OF t this] obtain pre s post where
        "l2 = pre @ EvMessage (Ok (Dispatch (dr_correlation_id x) (dr_payload x) (Some s))) # post"
        "EvTrySend c x r \<in> set post" "ds_signature s \<noteq> []" "length (ds_cert_id s) \<in> {16..64}"
        "c = pub_tx (snd (handles_of (delegate_state d)))"
        "justified I (snd (protocol_step I (phase_of (delegate_state d)) m)) pre"
        unfolding ph h by blast
      then show ?thesis using l justified_step [of I "phase_of (delegate_state d)" m pre l1]
        by (intro exI [of _ "EvMessage m # l1 @ pre"] exI [of _ s] exI [of _ post]) auto
    qed
  qed
qed simp

lemma actor_round_no_panic:
  assumes "\<And>d m w p. smd_process D d m w \<noteq> Some (Panic p)"
  shows "actor_round E S D c x \<noteq> Some (Panic p)"
proof -
  obtain self w where x: "x = (self, w)" by fastforce
  obtain sel w1 where sel: "select_pass S (ca_stop self) c w = (sel, w1)" by fastforce
  have "server_message D self m w1 \<noteq> Some (Panic p)" for m
    using assms by (auto simp: server_message_def comp_bind_def split: option.splits run.splits)
  then show ?thesis
    by (cases sel rule: selected_exhaust)
      (auto simp: actor_round_def x sel bind_eq_Some_conv comp_bind_def split: option.splits run.splits)
qed

lemma actor_round_leaves_iff:
  "(\<exists>w'. actor_round E S D c x = Some (Ret (Inr w'))) \<longleftrightarrow>
     fst (select_pass S (ca_stop (fst x)) c (snd x)) \<in> {SelStop, SelResult None, SelMessage None}"
proof -
  obtain self w where x: "x = (self, w)" by fastforce
  obtain sel w1 where "select_pass S (ca_stop self) c w = (sel, w1)" by fastforce
  then show ?thesis
    by (cases sel rule: selected_exhaust) (auto simp: actor_round_def x outcome_simps bind_eq_Some_conv)
qed

section \<open>A sample run\<close>

text \<open>
  Inputs played from a script: the head of the script is what the next pass finds ready; a pass
  over an empty script waits for ever.
\<close>

record scripted = queues +
  script :: "selected list"

definition script_polls :: "scripted polls" where
  "script_polls = \<lparr>
     take_messages = (\<lambda>w. (True, w)),
     poll_stop = (\<lambda>t w. (case script w of SelStop # s \<Rightarrow> (True, w) | _ \<Rightarrow> (False, w))),
     poll_result = (\<lambda>c w. (case script w of SelResult v # s \<Rightarrow> (Ready v, w\<lparr>script := s\<rparr>) | _ \<Rightarrow> (Pending, w))),
     poll_message = (\<lambda>w. (case script w of SelMessage v # s \<Rightarrow> (Ready v, w\<lparr>script := s\<rparr>) | _ \<Rightarrow> (Pending, w))),
     park = (\<lambda>w. (case script w of SelNone # s \<Rightarrow> Some (w\<lparr>script := s\<rparr>) | _ \<Rightarrow> None)),
     instant_now = (\<lambda>w. (0, w)),
     instant_elapsed = (\<lambda>i w. (\<lparr>dur_secs = 5, dur_nanos = 0\<rparr>, w))\<rparr>"

lemma script_pass:
  "script w = SelStop # s \<Longrightarrow> select_pass script_polls t c w = (SelStop, w)"
  "script w = SelResult v # s \<Longrightarrow> select_pass script_polls t c w = (SelResult v, w\<lparr>script := s\<rparr>)"
  "script w = SelMessage u # s \<Longrightarrow> select_pass script_polls t c w = (SelMessage u, w\<lparr>script := s\<rparr>)"
  by (simp_all add: select_pass_def script_polls_def)

definition sample_result :: dispatch_result where
  "sample_result = \<lparr>res_correlation_id = CorrelationId 7, res_result = Err NoDispatchHandler\<rparr>"

definition sample_actor :: "unit message_delegate connection_actor" where
  "sample_actor = connection_actor_new 0 (message_delegate_new 0 sample_publisher sample_app ()) 2"

definition sample_script :: scripted where
  "sample_script = \<lparr>q_requests = [], q_requests_cap = DISPATCH_QUEUE_LEN, q_reader_alive = True,
     q_responses = [], q_responses_cap = DISPATCH_QUEUE_LEN + 1, q_sender_alive = True,
     script = [SelMessage (Some (Ok (ClientHelloAck sample_ack))), SelMessage (Some (Ok sample_dispatch)),
       SelResult (Some sample_result), SelStop]\<rparr>"

definition sample_run_log :: "event list" where
  "sample_run_log = sample_hello_log @
     [EvMessage (Ok (ClientHelloAck sample_ack)), EvRandFill (Ok (replicate 16 1)),
      EvMessage (Ok sample_dispatch), EvTrySend 1 sample_request TrySent,
      EvResult sample_result, EvIoSend (DispatchResponse (CorrelationId 7) (WireResultError 2)) (Ok ()),
      EvStopSeen 0]"

lemma sample_actor_run:
  "actor_run (logged queue_env) (logged_polls script_polls)
     (message_delegate_impl (logged queue_env) sample_ids) sample_actor (sample_script, []) =
   Some (Ret (sample_script\<lparr>q_requests := [sample_request], script := [SelStop]\<rparr>, sample_run_log))"
proof -
  let ?E = "logged queue_env" and ?S = "logged_polls script_polls"
    and ?D = "message_delegate_impl (logged queue_env) sample_ids"
  let ?act = "\<lambda>st. \<lparr>ca_stop = 0, ca_dispatch_stream = None, ca_delegate = MessageDelegate st\<rparr>"
  let ?hs = "Handshaking (sample_fsm (HandshakingPhase sample_nonce))"
  let ?ac = "Active (sample_fsm (ActivePhase (ConnectionId (2 # replicate 15 1))))"
  let ?w1 = "sample_script\<lparr>script := tl (script sample_script)\<rparr>"
  let ?w2 = "sample_script\<lparr>q_requests := [sample_request], script := tl (tl (script sample_script))\<rparr>"
  let ?w3 = "sample_script\<lparr>q_requests := [sample_request], script := [SelStop]\<rparr>"
  have D: "smd_process ?D = delegate_process ?E sample_ids" "smd_send_hello ?D = delegate_send_hello ?E"
    by (simp_all add: message_delegate_impl_def)
  have r1: "actor_round ?E ?S ?D 2 (?act ?hs, sample_script, l) =
      Some (Ret (Inl (?act ?ac, ?w1, l @ [EvMessage (Ok (ClientHelloAck sample_ack)), EvRandFill (Ok (replicate 16 1))])))" for l
    by (simp add: actor_round_def select_pass_logged script_pass sample_script_def server_message_def D
        sample_ack_step del: delegate_process.simps)
  have r2: "actor_round ?E ?S ?D 2 (?act ?ac, ?w1, l) =
      Some (Ret (Inl (?act ?ac, ?w2, l @ [EvMessage (Ok sample_dispatch), EvTrySend 1 sample_request TrySent])))" for l
    by (simp add: actor_round_def select_pass_logged script_pass sample_script_def server_message_def D
        sample_dispatch_step DISPATCH_QUEUE_LEN_def del: delegate_process.simps)
  have r3: "actor_round ?E ?S ?D 2 (?act ?ac, ?w2, l) =
      Some (Ret (Inl (?act ?ac, ?w3, l @ [EvResult sample_result,
        EvIoSend (DispatchResponse (CorrelationId 7) (WireResultError 2)) (Ok ())])))" for l
    by (simp add: actor_round_def select_pass_logged script_pass sample_script_def
        actor_dispatch_response_def dispatch_response_message_def sample_retry sample_result_def)
  have r4: "actor_round ?E ?S ?D 2 (?act ?ac, ?w3, l) = Some (Ret (Inr (?w3, l @ [EvStopSeen 0])))" for l
    by (simp add: actor_round_def select_pass_logged script_pass)
  have "loop_rounds (actor_round ?E ?S ?D 2) (Suc (Suc (Suc (Suc 0)))) (?act ?hs, sample_script, sample_hello_log) =
      Some (Ret (Inr (?w3, sample_run_log)))"
    by (simp add: r1 r2 r3 r4 sample_run_log_def)
  from rust_loop_ends [OF this] show ?thesis
    by (simp add: actor_loop_def actor_run_def run_loop_def sample_actor_def connection_actor_new_def D sample_hello
        script_polls_def del: delegate_send_hello.simps)
      (simp add: queue_env_def logged_def)
qed

section \<open>Properties\<close>

lemma fresh_actor_trace:
  fixes v :: 'v
  assumes "actor_run (logged E) (logged_polls S) (message_delegate_impl (logged E) I)
      (connection_actor_new stop (message_delegate_new stop pub info v) c) (w, []) = Some (Ret (w', l))"
  obtains n m lr ins l2 e and d :: "'v message_delegate" where "phase_of (delegate_state d) = AwaitAck n"
    "handles_of (delegate_state d) = (stop, pub)"
    "l = EvRandFill (Ok (nonce_as_bytes n)) # lr @ l2 @ [e]"
    "retry_log (ClientHello (hello_of info m n)) stop lr"
    "run_trace (protocol_trace_step I) stop d ins l2" "final_event stop c e"
proof -
  from delegate_processor.actor_run_trace [OF assms]
  obtain d ins l1 l2 e where h: "hello_step (message_delegate_new stop pub info v) d l1"
    and t: "run_trace (protocol_trace_step I) stop d ins l2" and e: "final_event stop c e"
    and l: "l = l1 @ l2 @ [e]"
    by (auto simp: connection_actor_new_def)
  from h obtain n m lr where "phase_of (delegate_state d) = AwaitAck n"
    "handles_of (delegate_state d) = (stop, pub)" "l1 = EvRandFill (Ok (nonce_as_bytes n)) # lr"
    "retry_log (ClientHello (hello_of info m n)) stop lr"
    by (auto simp: hello_step_def message_delegate_new_def)
  then show thesis using that t e l by simp
qed

text \<open>
  A run of the connection actor that returns reads the random source, sends the hello with
  retries, then alternates between inputs and their handling until it sees its stop signal or the
  end of one of its two streams, which is the last thing it does: a host result is answered by
  its response, sent with retries, and a message is handled as the abstract protocol says.
\<close>

lemma actor_run_shape:
  fixes v :: 'v
  assumes "actor_run (logged E) (logged_polls S) (message_delegate_impl (logged E) I)
      (connection_actor_new stop (message_delegate_new stop pub info v) c) (w, []) = Some (Ret (w', l))"
  shows "\<exists>n m lr d ins l2 e. phase_of (delegate_state d) = AwaitAck n
    \<and> handles_of (delegate_state d) = (stop, pub)
    \<and> l = EvRandFill (Ok (nonce_as_bytes n)) # lr @ l2 @ [e]
    \<and> retry_log (ClientHello (hello_of info m n)) stop lr
    \<and> run_trace (protocol_trace_step I) stop (d :: 'v message_delegate) ins l2 \<and> final_event stop c e"
  using fresh_actor_trace [OF assms] by metis

lemma actor_run_shape_witness:
  "\<exists>n m lr d ins l2 e. phase_of (delegate_state d) = AwaitAck n
    \<and> handles_of (delegate_state d) = (0, sample_publisher)
    \<and> sample_run_log = EvRandFill (Ok (nonce_as_bytes n)) # lr @ l2 @ [e]
    \<and> retry_log (ClientHello (hello_of sample_app m n)) 0 lr
    \<and> run_trace (protocol_trace_step sample_ids) 0 (d :: unit message_delegate) ins l2 \<and> final_event 0 2 e"
  using actor_run_shape [OF sample_actor_run [unfolded sample_actor_def]] .

text \<open>
  C13. The responses that the connection accepts are, in order, responses to results the host sent
  before, each at most once and under the result's own correlation identifier: no response is
  invented, reordered or repeated.
\<close>

theorem actor_forwards_results:
  fixes v :: 'v
  assumes "actor_run (logged E) (logged_polls S) (message_delegate_impl (logged E) I)
      (connection_actor_new stop (message_delegate_new stop pub info v) c) (w, []) = Some (Ret (w', l))"
  shows "subseq (accepted_responses l)
      (map (\<lambda>v. DispatchResponse (res_correlation_id v)
          (case res_result v of Inr p \<Rightarrow> WireResultPayload p
           | Inl e \<Rightarrow> WireResultError (wire_dispatch_error_number (dispatch_error_to_wire e))))
        (received_results l))"
proof -
  obtain n m lr ins l2 e and d :: "'v message_delegate"
    where l: "l = EvRandFill (Ok (nonce_as_bytes n)) # lr @ l2 @ [e]"
    and h: "retry_log (ClientHello (hello_of info m n)) stop lr"
    and t: "run_trace (protocol_trace_step I) stop d ins l2" and e: "final_event stop c e"
    using fresh_actor_trace [OF assms] by metis
  have "accepted_responses [e] = [] \<and> received_results [e] = []"
    using e by (auto simp: final_event_def)
  moreover have "accepted_responses lr = []" "received_results lr = []"
    using retry_log_no_response(3) [OF h] retry_log_received [OF h] .
  ultimately show ?thesis
    using run_trace_forwards [OF t] unfolding dispatch_response_message_def [abs_def] by (simp add: l)
qed

theorem actor_forwards_results_witness:
  "subseq (accepted_responses sample_run_log) [DispatchResponse (CorrelationId 7) (WireResultError 2)]
   \<and> accepted_responses sample_run_log = [DispatchResponse (CorrelationId 7) (WireResultError 2)]"
  using actor_forwards_results [OF sample_actor_run [unfolded sample_actor_def]]
  by (simp add: sample_run_log_def sample_hello_log_def sample_result_def)

text \<open>
  C14. The loop of the actor returns exactly when it reaches, after finitely many rounds, a pass that
  sees the stop signal or the end of one of its two streams: nothing else ends a connection, and
  none of these is ever passed over.
\<close>

theorem actor_loop_returns_iff:
  "(\<exists>w'. actor_loop E S D c self w = Some (Ret w')) \<longleftrightarrow>
     (\<exists>n self' w1. loop_rounds (actor_round E S D c) n (self, w) = Some (Ret (Inl (self', w1)))
        \<and> fst (select_pass S (ca_stop self') c w1) \<in> {SelStop, SelResult None, SelMessage None})"
  unfolding actor_loop_def rust_loop_leaves_iff actor_round_leaves_iff by fastforce

text \<open>
  C15. The task of a connection never panics: with a host that eventually answers, a random source
  that works and a stream of messages that was not yet taken, no sequence of polls, results and
  server messages makes the run of a fresh actor panic.
\<close>

theorem actor_never_panics:
  fixes E :: "'w env" and v :: 'v
  assumes "responsive E" and "sha_digest_len (id_sha I)" and "sha_incremental (id_sha I)"
    and "\<And>w. fst (take_messages S w)"
  shows "actor_run E S (message_delegate_impl E I)
      (connection_actor_new stop (message_delegate_new stop pub info v) c) w \<noteq> Some (Panic p)"
proof -
  let ?D = "message_delegate_impl E I :: ('v message_delegate, 'w) server_message_delegate"
  have proc: "smd_process ?D d m w \<noteq> Some (Panic p)" for d m w p
    using responsive_process [OF assms(1-3), of d m w] by (auto simp: message_delegate_impl_def)
  have loop: "actor_loop E S ?D c self w \<noteq> Some (Panic p)" for c self w p
    unfolding actor_loop_def by (intro rust_loop_no_panic actor_round_no_panic proc)
  have hello: "\<exists>d w'. smd_send_hello ?D (message_delegate_new stop pub info v) w = Some (Ret (d, w'))" for w
    using responsive_hello [OF assms(1)] by (simp add: message_delegate_impl_def)
  have run: "run_loop E S ?D (connection_actor_new stop (message_delegate_new stop pub info v) c) w
      \<noteq> Some (Panic p)" for w p
  proof -
    obtain w1 where "take_messages S w = (True, w1)" using assms(4) [of w] by (cases "take_messages S w") simp
    moreover obtain d w2 where "smd_send_hello ?D (message_delegate_new stop pub info v) w1 = Some (Ret (d, w2))"
      using hello by blast
    ultimately show ?thesis using loop by (simp add: run_loop_def connection_actor_new_def)
  qed
  show ?thesis
    using run by (auto simp: actor_run_def comp_bind_def split: option.splits run.splits prod.splits)
qed

theorem actor_never_panics_witness:
  "actor_run draining_env
     \<lparr>take_messages = (\<lambda>w. (True, w)), poll_stop = (\<lambda>t w. (False, w)), poll_result = (\<lambda>c w. (Pending, w)),
      poll_message = (\<lambda>w. (Ready (Some (Err NoMessage)), w)), park = Some, instant_now = (\<lambda>w. (0, w)),
      instant_elapsed = (\<lambda>i w. (\<lparr>dur_secs = 0, dur_nanos = 0\<rparr>, w))\<rparr>
     (message_delegate_impl draining_env sample_ids) sample_actor sample_world \<noteq> Some (Panic ''first call'')"
  unfolding sample_actor_def by (rule actor_never_panics [OF sample_responsive sample_ids_laws]) simp

end
