(* ===== verification/Entrypoint.thy ===== *)
theory Entrypoint
  imports Actor Trust_Store
begin

text \<open>
  The main function of the client library and what it rests on: \<open>entrypoint.rs\<close>,
  \<open>shutdown_signal.rs\<close>, \<open>abort_on_drop.rs\<close> and \<open>connection/lifecycle_events.rs\<close> of
  \<open>rc-x509-client\<close>. Cancellation tokens, spawned tasks and the stream of connection events are
  the runtime's: the parameter \<open>('io, 'v, 'w) runtime\<close> names what the library calls of them. The
  wait for the next event and for the shutdown signal has no order of preference, so the
  runtime decides which of the two is seen.
\<close>

section \<open>Connection events\<close>

datatype 'io connection_event =
    ConnInit
  | ConnConnected 'io dispatch_publisher client_endpoint_hostname
  | ConnDisconnected
  | ConnRelease

datatype 'io connection_update = ConnectionUpdate "'io connection_event"

fun into_event :: "'io connection_update \<Rightarrow> 'io connection_event" where
  "into_event (ConnectionUpdate event) = event"

section \<open>The runtime\<close>

type_synonym task = nat

type_synonym 'v actor = "'v message_delegate connection_actor"

record ('io, 'v, 'w) runtime =
  token_new :: "'w \<Rightarrow> token \<times> 'w"
  token_child :: "token \<Rightarrow> 'w \<Rightarrow> token \<times> 'w"
  token_cancel :: "token \<Rightarrow> 'w \<Rightarrow> 'w"
  token_wait :: "token \<Rightarrow> 'w \<Rightarrow> 'w option"
  event_or_stop :: "token \<Rightarrow> 'w \<Rightarrow> (('io connection_update option + unit) \<times> 'w) option"
  spawn_actor :: "'io \<Rightarrow> 'v actor \<Rightarrow> 'w \<Rightarrow> task \<times> 'w"
  spawn_events :: "token \<Rightarrow> app_info \<Rightarrow> 'v \<Rightarrow> 'w \<Rightarrow> task \<times> 'w"
  task_join :: "task \<Rightarrow> 'w \<Rightarrow> ((unit + unit) \<times> 'w) option"
  task_abort :: "task \<Rightarrow> 'w \<Rightarrow> 'w"
  metrics_init :: "instance_metrics \<Rightarrow> 'w \<Rightarrow> 'w"

section \<open>The shutdown signal\<close>

datatype shutdown_signal = ShutdownSignal token

datatype shutdown_ctl = ShutdownCtl token

definition shutdown_signal_new ::
  "('io, 'v, 'w) runtime \<Rightarrow> 'w \<Rightarrow> (shutdown_signal \<times> shutdown_ctl) \<times> 'w" where
  "shutdown_signal_new R w = (case token_new R w of (t, w') \<Rightarrow> ((ShutdownSignal t, ShutdownCtl t), w'))"

fun signal_child_token :: "('io, 'v, 'w) runtime \<Rightarrow> shutdown_signal \<Rightarrow> 'w \<Rightarrow> token \<times> 'w" where
  "signal_child_token R (ShutdownSignal t) w = token_child R t w"

fun wait_for_shutdown :: "('io, 'v, 'w) runtime \<Rightarrow> shutdown_signal \<Rightarrow> 'w \<Rightarrow> 'w option" where
  "wait_for_shutdown R (ShutdownSignal t) w = token_wait R t w"

fun shutdown_ctl_drop :: "('io, 'v, 'w) runtime \<Rightarrow> shutdown_ctl \<Rightarrow> 'w \<Rightarrow> 'w" where
  "shutdown_ctl_drop R (ShutdownCtl t) w = token_cancel R t w"

text \<open>The control handle is consumed, so its destructor runs too.\<close>

fun shutdown_now :: "('io, 'v, 'w) runtime \<Rightarrow> shutdown_ctl \<Rightarrow> 'w \<Rightarrow> 'w" where
  "shutdown_now R (ShutdownCtl t) w = shutdown_ctl_drop R (ShutdownCtl t) (token_cancel R t w)"

fun get_signal :: "shutdown_ctl \<Rightarrow> shutdown_signal" where
  "get_signal (ShutdownCtl t) = ShutdownSignal t"

section \<open>Tasks that end with their handle\<close>

datatype abort_on_drop = AbortOnDrop "task option"

definition abort_on_drop_from :: "task \<Rightarrow> abort_on_drop" where
  "abort_on_drop_from t = AbortOnDrop (Some t)"

fun abort_into_inner :: "abort_on_drop \<Rightarrow> task run" where
  "abort_into_inner (AbortOnDrop (Some t)) = Ret t"
| "abort_into_inner (AbortOnDrop None) = Panic ''must contain task''"

fun abort_drop :: "('io, 'v, 'w) runtime \<Rightarrow> abort_on_drop \<Rightarrow> 'w \<Rightarrow> 'w" where
  "abort_drop R (AbortOnDrop (Some t)) w = task_abort R t w"
| "abort_drop R (AbortOnDrop None) w = w"

section \<open>The active connection\<close>

record active_conn =
  ac_task :: task
  ac_stop :: token

definition active_conn_stop :: "('io, 'v, 'w) runtime \<Rightarrow> active_conn \<Rightarrow> 'w \<Rightarrow> 'w option" where
  "active_conn_stop R self w =
     map_option snd (task_join R (ac_task self) (token_cancel R (ac_stop self) w))"

text \<open>The active connection, if there is one, is taken and stopped.\<close>

fun stop_active :: "('io, 'v, 'w) runtime \<Rightarrow> active_conn option \<Rightarrow> 'w \<Rightarrow> 'w option" where
  "stop_active R None w = Some w"
| "stop_active R (Some v) w = active_conn_stop R v w"

section \<open>The event loop\<close>

definition start_connection ::
  "('io, 'v, 'w) runtime \<Rightarrow> shutdown_signal \<Rightarrow> app_info \<Rightarrow> 'v \<Rightarrow> 'io \<Rightarrow> dispatch_publisher \<Rightarrow> 'w
     \<Rightarrow> (active_conn \<times> 'w) run" where
  "start_connection R shutdown info trust_store io dispatch w =
     (case signal_child_token R shutdown w of
        (stop, w1) \<Rightarrow>
          (case take_recv_stream dispatch of
             (None, _) \<Rightarrow> Panic ''first call''
           | (Some dispatch_stream, dispatch) \<Rightarrow>
               (let delegate = message_delegate_new stop dispatch info trust_store;
                    conn = connection_actor_new stop delegate dispatch_stream
                in case spawn_actor R io conn w1 of
                     (task, w2) \<Rightarrow> Ret (\<lparr>ac_task = task, ac_stop = stop\<rparr>, w2))))"

definition connection_round ::
  "('io, 'v, 'w) runtime \<Rightarrow> shutdown_signal \<Rightarrow> app_info \<Rightarrow> 'v \<Rightarrow> active_conn option \<times> 'w
     \<Rightarrow> ((active_conn option \<times> 'w) + 'w) comp" where
  "connection_round R shutdown info trust_store = (\<lambda>(active_conn, w).
     (case shutdown of ShutdownSignal t \<Rightarrow>
       Option.bind (event_or_stop R t w) (\<lambda>(sel, w1).
         case sel of
           Inr _ \<Rightarrow> Option.bind (stop_active R active_conn w1) (\<lambda>w2. done_with (Inr w2))
         | Inl None \<Rightarrow> Option.bind (stop_active R active_conn w1) (\<lambda>w2. done_with (Inr w2))
         | Inl (Some event) \<Rightarrow>
             (case into_event event of
                ConnInit \<Rightarrow> done_with (Inl (active_conn, w1))
              | ConnConnected io dispatch endpoint_hostname \<Rightarrow>
                  comp_bind (Some (start_connection R shutdown info trust_store io dispatch w1))
                    (\<lambda>(new, w2).
                      Option.bind (stop_active R active_conn w2) (\<lambda>w3. done_with (Inl (Some new, w3))))
              | ConnDisconnected \<Rightarrow>
                  Option.bind (stop_active R active_conn w1) (\<lambda>w2. done_with (Inl (None, w2)))
              | ConnRelease \<Rightarrow> done_with (Inl (active_conn, w1))))))"

definition handle_connection_events ::
  "('io, 'v, 'w) runtime \<Rightarrow> shutdown_signal \<Rightarrow> app_info \<Rightarrow> 'v \<Rightarrow> 'w \<Rightarrow> 'w comp" where
  "handle_connection_events R shutdown info trust_store w =
     rust_loop (connection_round R shutdown info trust_store) (None, w)"

section \<open>The main function\<close>

definition MIB :: u64 where
  "MIB = 1024 * 1024"

definition APPROX_MAX_CACHE_BYTES :: u64 where
  "APPROX_MAX_CACHE_BYTES = 2 * MIB"

definition GRACEFUL_SHUTDOWN_TIMEOUT :: duration where
  "GRACEFUL_SHUTDOWN_TIMEOUT = \<lparr>dur_secs = 3, dur_nanos = 0\<rparr>"

datatype main = Main app_info

text \<open>The trust store over both embedded roots, with an empty cache.\<close>

definition new_trust_store ::
  "'h sha_lib \<Rightarrow> jiff_lib \<Rightarrow> x509_lib \<Rightarrow> 'm moka_lib \<Rightarrow> bytes \<Rightarrow> bytes \<Rightarrow> 'm trust_store run" where
  "new_trust_store H J X M r1_pem r2_pem =
     run_bind (embedded_root H J X r1_pem) (\<lambda>r1.
     run_bind (embedded_root H J X r2_pem) (\<lambda>r2.
       Ret (trust_store_new [r1, r2] (memory_cache_new M APPROX_MAX_CACHE_BYTES))))"

fun main_entrypoint ::
  "('io, 'm trust_store, 'w) runtime \<Rightarrow> build_version \<Rightarrow> 'h sha_lib \<Rightarrow> jiff_lib \<Rightarrow> x509_lib \<Rightarrow> 'm moka_lib
     \<Rightarrow> bytes \<Rightarrow> bytes \<Rightarrow> main \<Rightarrow> shutdown_signal \<Rightarrow> 'w \<Rightarrow> 'w comp" where
  "main_entrypoint R version H J X M r1_pem r2_pem (Main info) shutdown w =
     (let w0 = metrics_init R (instance_metrics_default version) w
      in comp_bind (Some (new_trust_store H J X M r1_pem r2_pem)) (\<lambda>trust_store.
           case shutdown of ShutdownSignal t \<Rightarrow>
             (case spawn_events R t info trust_store w0 of
                (task, w1) \<Rightarrow>
                  (let conn_events = abort_on_drop_from task
                   in Option.bind (wait_for_shutdown R shutdown w1) (\<lambda>w2.
                        comp_bind (Some (abort_into_inner conn_events)) (\<lambda>task.
                          Option.bind (task_join R task w2) (\<lambda>(_, w3). done_with w3)))))))"

section \<open>Observed tasks\<close>

datatype 'v lifecycle =
    LcSpawn task "'v actor"
  | LcCancel token
  | LcJoin task

definition logged_runtime ::
  "('io, 'v, 'w) runtime \<Rightarrow> ('io, 'v, 'w \<times> 'v lifecycle list) runtime" where
  "logged_runtime R = \<lparr>
     token_new = (\<lambda>(w, l). let (t, w') = token_new R w in (t, w', l)),
     token_child = (\<lambda>t (w, l). let (c, w') = token_child R t w in (c, w', l)),
     token_cancel = (\<lambda>t (w, l). (token_cancel R t w, l @ [LcCancel t])),
     token_wait = (\<lambda>t (w, l). map_option (\<lambda>w'. (w', l)) (token_wait R t w)),
     event_or_stop = (\<lambda>t (w, l). map_option (\<lambda>(x, w'). (x, w', l)) (event_or_stop R t w)),
     spawn_actor = (\<lambda>io a (w, l). let (k, w') = spawn_actor R io a w in (k, w', l @ [LcSpawn k a])),
     spawn_events = (\<lambda>t i v (w, l). let (k, w') = spawn_events R t i v w in (k, w', l)),
     task_join = (\<lambda>k (w, l). map_option (\<lambda>(r, w'). (r, w', l @ [LcJoin k])) (task_join R k w)),
     task_abort = (\<lambda>k (w, l). (task_abort R k w, l)),
     metrics_init = (\<lambda>m (w, l). (metrics_init R m w, l))\<rparr>"

fun spawned :: "'v lifecycle list \<Rightarrow> (task \<times> token) list" where
  "spawned [] = []"
| "spawned (LcSpawn k a # l) = (k, ca_stop a) # spawned l"
| "spawned (_ # l) = spawned l"

fun joined :: "'v lifecycle list \<Rightarrow> task list" where
  "joined [] = []"
| "joined (LcJoin k # l) = k # joined l"
| "joined (_ # l) = joined l"

text \<open>The tasks that were joined right after their token was cancelled.\<close>

fun stopped :: "'v lifecycle list \<Rightarrow> (task \<times> token) list" where
  "stopped (LcCancel t # LcJoin k # l) = (k, t) # stopped l"
| "stopped (_ # l) = stopped l"
| "stopped [] = []"

fun stop_log :: "active_conn option \<Rightarrow> 'v lifecycle list" where
  "stop_log None = []"
| "stop_log (Some v) = [LcCancel (ac_stop v), LcJoin (ac_task v)]"

text \<open>An actor as the event loop starts it: one stop signal, and a publisher without its stream.\<close>

definition well_started :: "app_info \<Rightarrow> 'v \<Rightarrow> 'v actor \<Rightarrow> bool" where
  "well_started info v a \<longleftrightarrow> (\<exists>stop pub c. pub_rx pub = None \<and>
     a = connection_actor_new stop (message_delegate_new stop pub info v) c)"

inductive lifecycle_log ::
  "app_info \<Rightarrow> 'v \<Rightarrow> active_conn option \<Rightarrow> 'v lifecycle list \<Rightarrow> bool" for info v where
  finished: "lifecycle_log info v a (stop_log a)"
| dropped: "lifecycle_log info v None l \<Longrightarrow> lifecycle_log info v a (stop_log a @ l)"
| replaced: "well_started info v act \<Longrightarrow>
    lifecycle_log info v (Some \<lparr>ac_task = k, ac_stop = ca_stop act\<rparr>) l \<Longrightarrow>
    lifecycle_log info v a (LcSpawn k act # stop_log a @ l)"

lemma stop_active_logged:
  "stop_active (logged_runtime R) a (w, l) = Some (w', l') \<Longrightarrow> l' = l @ stop_log a"
  by (cases a) (auto simp: active_conn_stop_def logged_runtime_def)

lemma start_connection_logged:
  assumes "start_connection (logged_runtime R) s info v io p (w, l) = Ret (new, w', l')"
  shows "\<exists>k act. l' = l @ [LcSpawn k act] \<and> new = \<lparr>ac_task = k, ac_stop = ca_stop act\<rparr>
    \<and> well_started info v act"
proof -
  obtain t where s: "s = ShutdownSignal t" by (cases s)
  obtain stop w1 where c: "token_child R t w = (stop, w1)" by fastforce
  obtain ch where ch: "pub_rx p = Some ch"
    using assms s c by (cases "pub_rx p")
      (auto simp: start_connection_def logged_runtime_def take_recv_stream_def)
  let ?act = "connection_actor_new stop (message_delegate_new stop (p\<lparr>pub_rx := None\<rparr>) info v) ch"
  obtain k w2 where k: "spawn_actor R io ?act w1 = (k, w2)" by fastforce
  have "well_started info v ?act" unfolding well_started_def
    by (intro exI [of _ stop] exI [of _ "p\<lparr>pub_rx := None\<rparr>"] exI [of _ ch]) simp
  moreover have "l' = l @ [LcSpawn k ?act]" "new = \<lparr>ac_task = k, ac_stop = ca_stop ?act\<rparr>"
    using assms s c ch k
    by (auto simp: start_connection_def logged_runtime_def take_recv_stream_def Let_def
        connection_actor_new_def)
  ultimately show ?thesis by blast
qed

lemma connection_round_logged:
  assumes "connection_round (logged_runtime R) s info v (a, w, l) = Some (Ret x)"
  shows "(\<exists>w'. x = Inr (w', l @ stop_log a))
    \<or> (\<exists>w'. x = Inl (a, w', l)) \<or> (\<exists>w'. x = Inl (None, w', l @ stop_log a))
    \<or> (\<exists>w' k act. x = Inl (Some \<lparr>ac_task = k, ac_stop = ca_stop act\<rparr>, w', l @ LcSpawn k act # stop_log a)
        \<and> well_started info v act)"
proof -
  obtain t where s: "s = ShutdownSignal t" by (cases s)
  obtain sel w1 where e: "event_or_stop R t w = Some (sel, w1)"
    using assms s by (auto simp: connection_round_def logged_runtime_def bind_eq_Some_conv)
  then have le: "event_or_stop (logged_runtime R) t (w, l) = Some (sel, w1, l)"
    by (simp add: logged_runtime_def)
  note round = assms [unfolded connection_round_def s]
  have stops: ?thesis if "Option.bind (stop_active (logged_runtime R) a (w1, l)) (\<lambda>w2. done_with (f w2)) = Some (Ret x)"
    "f = Inr \<or> f = (\<lambda>w2. Inl (None, w2))" for f
    using that by (auto simp: bind_eq_Some_conv dest!: stop_active_logged)
  consider (stop) "sel = Inr ()" | (closed) "sel = Inl None" | (quiet) u where "sel = Inl (Some u)"
      "into_event u = ConnInit \<or> into_event u = ConnRelease"
    | (disconnected) u where "sel = Inl (Some u)" "into_event u = ConnDisconnected"
    | (connected) u io p h where "sel = Inl (Some u)" "into_event u = ConnConnected io p h"
    by (cases sel) (auto, metis connection_event.exhaust not_Some_eq)
  then show ?thesis
  proof cases
    case connected
    obtain new w2 l2 w3 l3 where st: "start_connection (logged_runtime R) s info v io p (w1, l) = Ret (new, w2, l2)"
      and sa: "stop_active (logged_runtime R) a (w2, l2) = Some (w3, l3)" and x: "x = Inl (Some new, w3, l3)"
      using round le connected s by (auto simp: comp_bind_eq_Ret bind_eq_Some_conv)
    from start_connection_logged [OF st] stop_active_logged [OF sa] x show ?thesis by auto
  qed (use round le stops in auto)
qed

lemma events_log:
  assumes "handle_connection_events (logged_runtime R) s info v (w, []) = Some (Ret (w', l))"
  shows "lifecycle_log info v None l"
proof -
  have "case (None :: active_conn option, w, [] :: 'b lifecycle list) of (a, w, l0) \<Rightarrow>
      \<exists>l1. snd (w', l) = l0 @ l1 \<and> lifecycle_log info v a l1"
    using assms [unfolded handle_connection_events_def]
  proof (induction rule: rust_loop_fold)
    case (leave x r)
    obtain a w l0 where x: "x = (a, w, l0)" by (cases x)
    from connection_round_logged [OF leave [unfolded x]] show ?case
      using x lifecycle_log.finished [of info v a] by auto
  next
    case (continue x x' r)
    obtain a w l0 where x: "x = (a, w, l0)" by (cases x)
    from connection_round_logged [OF continue(1) [unfolded x]] continue(2) show ?case
      unfolding x by (auto intro: lifecycle_log.dropped lifecycle_log.replaced)
  qed
  then show ?thesis by simp
qed

lemma stopped_append_stop_log [simp]:
  "stopped (stop_log a @ l) = (case a of None \<Rightarrow> [] | Some v \<Rightarrow> [(ac_task v, ac_stop v)]) @ stopped l"
  by (cases a) simp_all

lemma spawned_append_stop_log [simp]: "spawned (stop_log a @ l) = spawned l"
  by (cases a) simp_all

lemma lifecycle_log_stopped:
  "lifecycle_log info v a l \<Longrightarrow>
     stopped l = (case a of None \<Rightarrow> [] | Some v \<Rightarrow> [(ac_task v, ac_stop v)]) @ spawned l"
proof (induction rule: lifecycle_log.induct)
  case (finished a)
  then show ?case by (cases a) simp_all
qed simp_all

lemma lifecycle_log_started:
  "lifecycle_log info v a l \<Longrightarrow> LcSpawn k act \<in> set l \<Longrightarrow> well_started info v act"
proof (induction rule: lifecycle_log.induct)
  case (finished a)
  then show ?case by (cases a) simp_all
next
  case (dropped l a)
  then show ?case by (cases a) auto
next
  case (replaced act' k' l a)
  then show ?case by (cases a) auto
qed

definition occupied :: "active_conn option \<Rightarrow> nat" where
  "occupied a = (case a of None \<Rightarrow> 0 | Some _ \<Rightarrow> 1)"

lemma occupied_simps [simp]: "occupied None = 0" "occupied (Some v) = 1"
  by (simp_all add: occupied_def)

lemma occupied_le: "occupied a \<le> 1"
  by (cases a) simp_all

text \<open>A prefix through the stop of a connection: the rest starts with no connection.\<close>

lemma prefix_over_stop:
  assumes "\<And>k. length (spawned (take k l)) + m \<le> length (joined (take k l)) + 2" and "m + occupied a \<le> 2"
  shows "length (spawned (take k (stop_log a @ l))) + m + occupied a
    \<le> length (joined (take k (stop_log a @ l))) + 2"
proof (cases a)
  case None
  then show ?thesis using assms(1) by (simp add: occupied_def)
next
  case (Some v)
  consider "k = 0" | "k = 1" | j where "k = Suc (Suc j)" by (metis One_nat_def not0_implies_Suc)
  then show ?thesis
  proof cases
    case 3
    then show ?thesis using assms(1) [of j] Some by (simp add: occupied_def)
  qed (use assms(2) Some in \<open>simp_all add: occupied_def\<close>)
qed

lemma lifecycle_log_running:
  "lifecycle_log info v a l \<Longrightarrow>
     length (spawned (take k l)) + occupied a \<le> length (joined (take k l)) + 2"
proof (induction arbitrary: k rule: lifecycle_log.induct)
  case (finished a)
  show ?case using prefix_over_stop [of "[]" 0 a k] occupied_le [of a] by simp
next
  case (dropped l a)
  then show ?case using prefix_over_stop [of l 0 a k] occupied_le [of a] by simp
next
  case (replaced act k' l a)
  show ?case
  proof (cases k)
    case (Suc j)
    have "length (spawned (take j (stop_log a @ l))) + 1 + occupied a
      \<le> length (joined (take j (stop_log a @ l))) + 2"
      using replaced.IH occupied_le [of a] by (intro prefix_over_stop) simp_all
    then show ?thesis using Suc by simp
  qed (use occupied_le [of a] in simp)
qed

lemma bind_done_not_panic [simp]: "Option.bind m (\<lambda>x. done_with (f x)) \<noteq> Some (Panic q)"
  by (cases m) simp_all

lemma connection_round_no_panic:
  assumes "\<And>w io p h w'. event_or_stop R t w = Some (Inl (Some (ConnectionUpdate (ConnConnected io p h))), w') \<Longrightarrow>
      pub_rx p \<noteq> None"
  shows "connection_round R (ShutdownSignal t) info v x \<noteq> Some (Panic q)"
proof -
  obtain a w where x: "x = (a, w)" by fastforce
  show ?thesis
  proof (cases "event_or_stop R t w")
    case None
    then show ?thesis by (simp add: connection_round_def x)
  next
    case (Some y)
    obtain sel w1 where y: "y = (sel, w1)" by fastforce
    show ?thesis
    proof (cases "\<exists>io p h. sel = Inl (Some (ConnectionUpdate (ConnConnected io p h)))")
      case True
      then obtain io p h where sel: "sel = Inl (Some (ConnectionUpdate (ConnConnected io p h)))" by blast
      then obtain c where "pub_rx p = Some c" using assms [of w io p h w1] Some y by auto
      then have "\<exists>z. start_connection R (ShutdownSignal t) info v io p w1 = Ret z"
        by (auto simp: start_connection_def take_recv_stream_def Let_def split: prod.splits)
      then show ?thesis using Some y sel by (auto simp: connection_round_def x)
    next
      case False
      then show ?thesis using Some y
        by (auto simp: connection_round_def x split: sum.splits option.splits connection_event.splits
            elim!: into_event.elims)
    qed
  qed
qed

section \<open>Properties\<close>

text \<open>A runtime that plays a list of events and hands out consecutive numbers.\<close>

record 'io played =
  pl_events :: "'io connection_update list"
  pl_next :: nat

definition played_runtime :: "('io, 'v, 'io played) runtime" where
  "played_runtime = \<lparr>
     token_new = (\<lambda>w. (pl_next w, w\<lparr>pl_next := Suc (pl_next w)\<rparr>)),
     token_child = (\<lambda>t w. (pl_next w, w\<lparr>pl_next := Suc (pl_next w)\<rparr>)),
     token_cancel = (\<lambda>t w. w),
     token_wait = (\<lambda>t w. Some w),
     event_or_stop = (\<lambda>t w. Some (case pl_events w of [] \<Rightarrow> (Inl None, w) | e # es \<Rightarrow> (Inl (Some e), w\<lparr>pl_events := es\<rparr>))),
     spawn_actor = (\<lambda>io a w. (pl_next w, w\<lparr>pl_next := Suc (pl_next w)\<rparr>)),
     spawn_events = (\<lambda>t i v w. (pl_next w, w\<lparr>pl_next := Suc (pl_next w)\<rparr>)),
     task_join = (\<lambda>k w. Some (Ok (), w)),
     task_abort = (\<lambda>k w. w),
     metrics_init = (\<lambda>m w. w)\<rparr>"

definition sample_events :: "unit connection_update list" where
  "sample_events = [ConnectionUpdate ConnInit,
     ConnectionUpdate (ConnConnected () (sample_publisher\<lparr>pub_rx := Some 2\<rparr>) (ClientEndpointHostname [])),
     ConnectionUpdate ConnDisconnected]"

definition sample_events_log :: "unit lifecycle list" where
  "sample_events_log = [LcSpawn 1 sample_actor, LcCancel 0, LcJoin 1]"

lemma sample_events_run:
  "handle_connection_events (logged_runtime played_runtime) (ShutdownSignal 9) sample_app ()
     (\<lparr>pl_events = sample_events, pl_next = 0\<rparr>, []) =
   Some (Ret (\<lparr>pl_events = [], pl_next = 2\<rparr>, sample_events_log))"
proof -
  let ?body = "connection_round (logged_runtime played_runtime) (ShutdownSignal 9) sample_app ()"
  let ?w = "\<lambda>n k. \<lparr>pl_events = drop n sample_events, pl_next = k\<rparr>"
  note defs = connection_round_def logged_runtime_def played_runtime_def start_connection_def
    take_recv_stream_def active_conn_stop_def Let_def sample_events_def sample_actor_def sample_publisher_def
  have r1: "?body (None, ?w 0 0, []) = Some (Ret (Inl (None, ?w 1 0, [])))" by (simp add: defs)
  have r2: "?body (None, ?w 1 0, []) =
      Some (Ret (Inl (Some \<lparr>ac_task = 1, ac_stop = 0\<rparr>, ?w 2 2, [LcSpawn 1 sample_actor])))"
    by (simp add: defs eval_nat_numeral)
  have r3: "?body (Some \<lparr>ac_task = 1, ac_stop = 0\<rparr>, ?w 2 2, [LcSpawn 1 sample_actor]) =
      Some (Ret (Inl (None, ?w 3 2, sample_events_log)))"
    by (simp add: defs sample_events_log_def eval_nat_numeral)
  have r4: "?body (None, ?w 3 2, sample_events_log) = Some (Ret (Inr (?w 3 2, sample_events_log)))"
    by (simp add: defs)
  have "loop_rounds ?body (Suc (Suc (Suc (Suc 0)))) (None, ?w 0 0, []) = Some (Ret (Inr (?w 3 2, sample_events_log)))"
    by (simp only: loop_rounds.simps r1 r2 r3 r4 comp_bind_Ret sum.case)
  from rust_loop_ends [OF this] show ?thesis by (simp add: handle_connection_events_def sample_events_def)
qed

text \<open>
  C3. Whatever the runtime does: when the event loop returns, every connection task it started has
  been cancelled through its own stop signal and then waited for, in the order they were started;
  at no point were more than two of them running; and each was started with a fresh delegate that shares the task's stop signal.
\<close>

theorem connections_all_stopped:
  assumes "handle_connection_events (logged_runtime R) s info v (w, []) = Some (Ret (w', l))"
  shows "stopped l = spawned l
    \<and> length (spawned (take k l)) \<le> length (joined (take k l)) + 2
    \<and> (LcSpawn t a \<in> set l \<longrightarrow> well_started info v a)"
  using lifecycle_log_stopped [OF events_log [OF assms]] lifecycle_log_running [OF events_log [OF assms], of k]
    lifecycle_log_started [OF events_log [OF assms], of t a]
  by (simp add: occupied_def)

theorem connections_all_stopped_witness:
  "stopped sample_events_log = spawned sample_events_log \<and> spawned sample_events_log = [(1, 0)]"
  using connections_all_stopped [OF sample_events_run, of 0]
  by (simp add: sample_events_log_def sample_actor_def connection_actor_new_def)

text \<open>
  The event loop does not panic as long as each connection it is told about comes with a
  publisher whose stream of results was not taken, as a new interconnect provides.
\<close>

lemma events_never_panic:
  assumes "\<And>w io p h w'. event_or_stop R t w = Some (Inl (Some (ConnectionUpdate (ConnConnected io p h))), w') \<Longrightarrow>
      pub_rx p \<noteq> None"
  shows "handle_connection_events R (ShutdownSignal t) info v w \<noteq> Some (Panic q)"
  unfolding handle_connection_events_def
  by (intro rust_loop_no_panic connection_round_no_panic) (rule assms)

lemma events_never_panic_witness:
  "handle_connection_events (played_runtime\<lparr>event_or_stop := (\<lambda>t w. Some (Inl (Some (ConnectionUpdate
       (ConnConnected () (fst (fst (new_dispatcher_interconnect queue_env sample_world))) (ClientEndpointHostname [])))), w))\<rparr>)
     (ShutdownSignal 0) sample_app () \<lparr>pl_events = [], pl_next = 0\<rparr> \<noteq> Some (Panic ''first call'')"
  by (rule events_never_panic) (auto simp: new_dispatcher_interconnect_def split: prod.splits)

end
