(* ===== verification/FFI_Connection.thy ===== *)
theory FFI_Connection
  imports Entrypoint
begin

text \<open>
  The connection handles of the C interface: \<open>connection.rs\<close> and \<open>io_handle.rs\<close> of
  \<open>rc-x509-ffi\<close>. A call of the host is a function on the heap of live connections and the
  world. Pointers are numbers, 0 is null, and a callback is its address. The parameter
  \<open>'w ffi_env\<close> names what the calls use of the runtime. The flag \<open>debug\<close> is
  \<open>cfg!(debug_assertions)\<close>: a violation of the call order panics in a debug build and is
  reported to the caller in a release build.
\<close>

section \<open>Return values\<close>

datatype send_ret = SendSuccess | SendClosed | SendUnknown

datatype recv_ret = RecvSuccess | RecvInvalidState

datatype conn_ret = ConnSuccess | ConnInvalidState

datatype dispatch_ret =
    DispatchSuccess
  | DispatchUnknownPayload
  | DispatchNoHandler
  | DispatchQueueFull
  | DispatchUnknown

datatype dispatch_host_error = HostHandlerExecTimeout

fun dispatch_host_error_into :: "dispatch_host_error \<Rightarrow> dispatch_error" where
  "dispatch_host_error_into HostHandlerExecTimeout = HandlerExecTimeout"

definition QUEUE_BUFFER_LEN :: nat where
  "QUEUE_BUFFER_LEN = 100"

definition invalid_state :: "bool \<Rightarrow> string \<Rightarrow> 'a \<Rightarrow> 'a run" where
  "invalid_state debug msg ret = (if debug then Panic msg else Ret ret)"

section \<open>The handle of the library\<close>

record io_handle =
  ioh_tx :: chan
  ioh_rx :: "chan option"

definition io_handle_new :: "chan \<Rightarrow> chan \<Rightarrow> io_handle" where
  "io_handle_new tx rx = \<lparr>ioh_tx = tx, ioh_rx = Some rx\<rparr>"

type_synonym callback = nat
type_synonym user_data = nat

record 'w ffi_env =
  fe_channel :: "nat \<Rightarrow> 'w \<Rightarrow> chan \<times> 'w"
  fe_try_send :: "chan \<Rightarrow> client_to_server \<Rightarrow> 'w \<Rightarrow> try_send_outcome \<times> 'w"
  fe_send_message :: "chan \<Rightarrow> incoming \<Rightarrow> 'w \<Rightarrow> ((unit + unit) \<times> 'w) option"
  fe_token_new :: "'w \<Rightarrow> token \<times> 'w"
  fe_cancel :: "token \<Rightarrow> 'w \<Rightarrow> 'w"
  fe_spawn_io :: "chan \<Rightarrow> token \<Rightarrow> callback \<Rightarrow> user_data \<Rightarrow> 'w \<Rightarrow> task \<times> 'w"
  fe_spawn_dispatch ::
    "dispatch_stream \<Rightarrow> dispatch_responder \<Rightarrow> token \<Rightarrow> callback \<Rightarrow> user_data \<Rightarrow> 'w \<Rightarrow> task \<times> 'w"
  fe_join :: "task \<Rightarrow> 'w \<Rightarrow> ((unit + unit) \<times> 'w) option"
  fe_publish :: "io_handle connection_update \<Rightarrow> 'w \<Rightarrow> (unit + unit) \<times> 'w"
  fe_dispatch :: "'w env"

definition io_handle_send ::
  "'w ffi_env \<Rightarrow> io_handle \<Rightarrow> client_to_server \<Rightarrow> 'w \<Rightarrow> (connection_err + unit) \<times> 'w" where
  "io_handle_send F self payload w =
     (case fe_try_send F (ioh_tx self) payload w of
        (TrySent, w') \<Rightarrow> (Ok (), w')
      | (TrySendClosed, w') \<Rightarrow> (Err ConnClosed, w')
      | (TrySendFull, w') \<Rightarrow> (Err ConnQueueFull, w'))"

definition io_handle_take :: "io_handle \<Rightarrow> chan option \<times> io_handle" where
  "io_handle_take self = (ioh_rx self, self\<lparr>ioh_rx := None\<rparr>)"

section \<open>A connection\<close>

record connected =
  cn_ffi2lib :: chan
  cn_io_task :: abort_on_drop
  cn_io_task_stop :: token
  cn_dispatch_task :: abort_on_drop
  cn_dispatch_task_stop :: token
  cn_dispatch_responder :: dispatch_responder

datatype ffi_state =
    FInit
  | FConfigured callback user_data
  | FConnected connected
  | FDisconnected

record ffi_connection =
  fc_dispatch :: callback
  fc_dispatch_user_data :: user_data
  fc_state :: ffi_state

definition publish_event ::
  "'w ffi_env \<Rightarrow> io_handle connection_event \<Rightarrow> 'w \<Rightarrow> 'w run" where
  "publish_event F event w =
     (case fe_publish F (ConnectionUpdate event) w of
        (r, w') \<Rightarrow> expect r ''runtime task not running'' (\<lambda>_. Ret w'))"

definition ffi_connection_new ::
  "'w ffi_env \<Rightarrow> callback \<Rightarrow> user_data \<Rightarrow> 'w \<Rightarrow> (ffi_connection \<times> 'w) run" where
  "ffi_connection_new F dispatch dispatch_user_data w =
     assert_that (dispatch \<noteq> 0) ''dispatch callback must not be null''
       (run_bind (publish_event F ConnInit w) (\<lambda>w'.
          Ret (\<lparr>fc_dispatch = dispatch, fc_dispatch_user_data = dispatch_user_data,
                fc_state = FInit\<rparr>, w')))"

definition handle_dispatch_result ::
  "'w ffi_env \<Rightarrow> ffi_connection \<Rightarrow> dispatch_result \<Rightarrow> 'w \<Rightarrow> 'w option" where
  "handle_dispatch_result F self payload w =
     (case fc_state self of
        FConnected c \<Rightarrow>
          map_option snd (send_response (fe_dispatch F) (cn_dispatch_responder c) payload w)
      | _ \<Rightarrow> Some w)"

definition start_tasks ::
  "'w ffi_env \<Rightarrow> ffi_connection \<Rightarrow> callback \<Rightarrow> user_data \<Rightarrow> 'w
     \<Rightarrow> (connected \<times> io_handle \<times> dispatch_publisher) \<times> 'w" where
  "start_tasks F self send user_data w =
     (let (lib2ffi, w1) = fe_channel F QUEUE_BUFFER_LEN w;
          (ffi2lib, w2) = fe_channel F QUEUE_BUFFER_LEN w1;
          io_handle = io_handle_new lib2ffi ffi2lib;
          (io_task_stop, w3) = fe_token_new F w2;
          (io_task, w4) = fe_spawn_io F lib2ffi io_task_stop send user_data w3;
          ((publisher, stream, dispatch_responder), w5) = new_dispatcher_interconnect (fe_dispatch F) w4;
          (dispatch_task_stop, w6) = fe_token_new F w5;
          (dispatch_task, w7) = fe_spawn_dispatch F stream dispatch_responder dispatch_task_stop
             (fc_dispatch self) (fc_dispatch_user_data self) w6
      in ((\<lparr>cn_ffi2lib = ffi2lib, cn_io_task = abort_on_drop_from io_task,
            cn_io_task_stop = io_task_stop, cn_dispatch_task = abort_on_drop_from dispatch_task,
            cn_dispatch_task_stop = dispatch_task_stop,
            cn_dispatch_responder = dispatch_responder\<rparr>, io_handle, publisher), w7))"

definition set_connected ::
  "bool \<Rightarrow> 'w ffi_env \<Rightarrow> client_endpoint_hostname \<Rightarrow> ffi_connection \<times> 'w
     \<Rightarrow> (conn_ret \<times> ffi_connection \<times> 'w) comp" where
  "set_connected debug F endpoint_hostname = (\<lambda>(self, w).
     (case fc_state self of
        FConfigured send user_data \<Rightarrow>
          (case start_tasks F self send user_data w of
             ((c, io_handle, publisher), w') \<Rightarrow>
               Some (run_bind (publish_event F (ConnConnected io_handle publisher endpoint_hostname) w')
                 (\<lambda>w''. Ret (ConnSuccess, self\<lparr>fc_state := FConnected c\<rparr>, w''))))
      | _ \<Rightarrow>
          Some (invalid_state debug ''connection not in configured state'' (ConnInvalidState, self, w))))"

definition recv_incoming ::
  "bool \<Rightarrow> 'w ffi_env \<Rightarrow> ffi_connection \<Rightarrow> incoming \<Rightarrow> 'w \<Rightarrow> (recv_ret \<times> 'w) comp" where
  "recv_incoming debug F self payload w =
     (case fc_state self of
        FConnected c \<Rightarrow>
          (case fe_send_message F (cn_ffi2lib c) payload w of
             None \<Rightarrow> None
           | Some (_, w') \<Rightarrow> done_with (RecvSuccess, w'))
      | _ \<Rightarrow> Some (invalid_state debug ''invalid connection state for recv'' (RecvInvalidState, w)))"

definition join_task :: "'w ffi_env \<Rightarrow> abort_on_drop \<Rightarrow> string \<Rightarrow> 'w \<Rightarrow> 'w comp" where
  "join_task F task msg w =
     comp_bind (Some (abort_into_inner task)) (\<lambda>k.
       case fe_join F k w of
         None \<Rightarrow> None
       | Some (r, w') \<Rightarrow> Some (expect r msg (\<lambda>_. Ret w')))"

definition set_disconnected ::
  "bool \<Rightarrow> 'w ffi_env \<Rightarrow> ffi_connection \<times> 'w \<Rightarrow> (conn_ret \<times> ffi_connection \<times> 'w) comp" where
  "set_disconnected debug F = (\<lambda>(self, w).
     (case fc_state self of
        FConnected c \<Rightarrow>
          (let w1 = fe_cancel F (cn_io_task_stop c) w;
               w2 = fe_cancel F (cn_dispatch_task_stop c) w1
           in comp_bind (join_task F (cn_io_task c) ''i/o task shutdown'' w2) (\<lambda>w3.
              comp_bind (join_task F (cn_dispatch_task c) ''dispatch task shutdown'' w3) (\<lambda>w4.
              Some (run_bind (publish_event F ConnDisconnected w4) (\<lambda>w5.
                Ret (ConnSuccess, self\<lparr>fc_state := FDisconnected\<rparr>, w5))))))
      | _ \<Rightarrow>
          Some (invalid_state debug ''disconnect on connection not in connected state''
            (ConnInvalidState, self, w))))"

definition set_send_callback ::
  "bool \<Rightarrow> callback \<Rightarrow> user_data \<Rightarrow> ffi_connection \<Rightarrow> (conn_ret \<times> ffi_connection) run" where
  "set_send_callback debug cb user_data self =
     assert_that (cb \<noteq> 0) ''send callback must not be null''
       (case fc_state self of
          FConnected c \<Rightarrow>
            invalid_state debug ''must disconnect connection before changing send callbacks''
              (ConnInvalidState, self)
        | FDisconnected \<Rightarrow>
            invalid_state debug ''connection is disconnected and cannot be reconfigured''
              (ConnInvalidState, self)
        | _ \<Rightarrow> Ret (ConnSuccess, self\<lparr>fc_state := FConfigured cb user_data\<rparr>))"

text \<open>A refused release hands the connection back.\<close>

definition ffi_free ::
  "bool \<Rightarrow> 'w ffi_env \<Rightarrow> ffi_connection \<times> 'w \<Rightarrow> ((ffi_connection \<times> conn_ret + unit) \<times> 'w) run" where
  "ffi_free debug F = (\<lambda>(self, w).
     (case fc_state self of
        FConnected c \<Rightarrow>
          run_bind (invalid_state debug ''must disconnect connection before free'' ConnInvalidState) (\<lambda>ret.
            Ret (Err (self, ret), w))
      | _ \<Rightarrow> run_bind (publish_event F ConnRelease w) (\<lambda>w'. Ret (Ok (), w'))))"

section \<open>Strings of the host\<close>

text \<open>\<open>str::from_utf8\<close>: the well-formed byte sequences of UTF-8, kept as their bytes.\<close>

definition continuation :: "nat \<Rightarrow> nat \<Rightarrow> byte \<Rightarrow> bool" where
  "continuation lo hi b \<longleftrightarrow> lo \<le> unat b \<and> unat b \<le> hi"

definition utf8_second :: "nat \<Rightarrow> nat \<times> nat" where
  "utf8_second b =
     (if b = 0xE0 then (0xA0, 0xBF) else if b = 0xED then (0x80, 0x9F)
      else if b = 0xF0 then (0x90, 0xBF) else if b = 0xF4 then (0x80, 0x8F)
      else (0x80, 0xBF))"

definition utf8_width :: "nat \<Rightarrow> nat" where
  "utf8_width b =
     (if b < 0x80 then 1 else if 0xC2 \<le> b \<and> b \<le> 0xDF then 2
      else if 0xE0 \<le> b \<and> b \<le> 0xEF then 3 else if 0xF0 \<le> b \<and> b \<le> 0xF4 then 4 else 0)"

fun utf8_valid :: "bytes \<Rightarrow> bool" where
  "utf8_valid [] = True"
| "utf8_valid (b # bs) =
     (case utf8_width (unat b) of
        0 \<Rightarrow> False
      | Suc 0 \<Rightarrow> utf8_valid bs
      | Suc (Suc n) \<Rightarrow>
          (case bs of
             [] \<Rightarrow> False
           | c # cs \<Rightarrow>
               (case utf8_second (unat b) of (lo, hi) \<Rightarrow> continuation lo hi c)
               \<and> n \<le> length cs \<and> list_all (continuation 0x80 0xBF) (take n cs)
               \<and> utf8_valid (drop n cs)))"

definition from_utf8 :: "bytes \<Rightarrow> unit + string" where
  "from_utf8 bs = (if utf8_valid bs then Ok (map (\<lambda>b. char_of (unat b)) bs) else Err ())"

section \<open>The calls of the host\<close>

text \<open>
  The connections that were handed out and not released. A pointer that is not among them is
  dangling; its use, undefined in the source, is the panic \<open>dangling\<close> of the model.
\<close>

record ffi_heap =
  hp_conns :: "nat \<Rightarrow> ffi_connection option"
  hp_next :: nat

definition dangling :: string where
  "dangling = ''undefined behaviour: dangling pointer''"

definition not_null :: "nat \<Rightarrow> 'a comp \<Rightarrow> 'a comp" where
  "not_null p k = (if p = 0 then Some (Panic ''assertion failed: !conn.is_null()'') else k)"

definition deref :: "ffi_heap \<Rightarrow> nat \<Rightarrow> (ffi_connection \<Rightarrow> 'a comp) \<Rightarrow> 'a comp" where
  "deref h p k = (case hp_conns h p of None \<Rightarrow> Some (Panic dangling) | Some c \<Rightarrow> k c)"

definition heap_set :: "ffi_heap \<Rightarrow> nat \<Rightarrow> ffi_connection option \<Rightarrow> ffi_heap" where
  "heap_set h p c = h\<lparr>hp_conns := (hp_conns h)(p := c)\<rparr>"

text \<open>Data of the host: null, or the bytes of the given length.\<close>

definition with_data :: "bytes option \<Rightarrow> string \<Rightarrow> (bytes \<Rightarrow> 'a comp) \<Rightarrow> 'a comp" where
  "with_data data name k =
     (case data of None \<Rightarrow> Some (Panic (''assertion failed: !'' @ name @ ''.is_null()'')) | Some bs \<Rightarrow> k bs)"

definition rc_conn_new ::
  "'w ffi_env \<Rightarrow> nat \<Rightarrow> callback \<Rightarrow> user_data \<Rightarrow> ffi_heap \<times> 'w \<Rightarrow> (nat \<times> ffi_heap \<times> 'w) run" where
  "rc_conn_new F ctx dispatch user_data = (\<lambda>(h, w).
     assert_that (ctx \<noteq> 0) ''assertion failed: !ctx.is_null()''
       (run_bind (ffi_connection_new F dispatch user_data w) (\<lambda>(conn, w').
          Ret (hp_next h, (heap_set h (hp_next h) (Some conn))\<lparr>hp_next := Suc (hp_next h)\<rparr>, w'))))"

definition rc_conn_dispatch_result ::
  "proto_codec \<Rightarrow> 'w ffi_env \<Rightarrow> nat \<Rightarrow> u64 \<Rightarrow> bytes option \<Rightarrow> ffi_heap \<times> 'w \<Rightarrow> (ffi_heap \<times> 'w) comp" where
  "rc_conn_dispatch_result P F conn correlation_id data = (\<lambda>(h, w).
     not_null conn (with_data data ''data'' (\<lambda>payload.
       if payload = [] then done_with (h, w)
       else
         (let correlation_id = CorrelationId correlation_id;
              result = (case proto_decode_response P payload of
                 Inr result \<Rightarrow> Ok result | Inl e \<Rightarrow> Err (ReplyDeserialisation e))
          in deref h conn (\<lambda>c.
               case handle_dispatch_result F c
                   \<lparr>res_correlation_id = correlation_id, res_result = result\<rparr> w of
                 None \<Rightarrow> None
               | Some w' \<Rightarrow> done_with (h, w'))))))"

definition rc_conn_dispatch_error ::
  "'w ffi_env \<Rightarrow> nat \<Rightarrow> u64 \<Rightarrow> dispatch_host_error \<Rightarrow> ffi_heap \<times> 'w \<Rightarrow> (ffi_heap \<times> 'w) comp" where
  "rc_conn_dispatch_error F conn correlation_id error = (\<lambda>(h, w).
     not_null conn (deref h conn (\<lambda>c.
       case handle_dispatch_result F c
           \<lparr>res_correlation_id = CorrelationId correlation_id,
            res_result = Err (dispatch_host_error_into error)\<rparr> w of
         None \<Rightarrow> None
       | Some w' \<Rightarrow> done_with (h, w'))))"

text \<open>A method that may change the connection behind the pointer.\<close>

definition update_conn ::
  "ffi_heap \<Rightarrow> nat \<Rightarrow> ('r \<times> ffi_connection \<times> 'w) comp \<Rightarrow> ('r \<times> ffi_heap \<times> 'w) comp" where
  "update_conn h p m = comp_bind m (\<lambda>(r, c, w). done_with (r, heap_set h p (Some c), w))"

definition rc_conn_connected ::
  "bool \<Rightarrow> 'w ffi_env \<Rightarrow> nat \<Rightarrow> bytes option \<Rightarrow> ffi_heap \<times> 'w \<Rightarrow> (conn_ret \<times> ffi_heap \<times> 'w) comp" where
  "rc_conn_connected debug F conn endpoint_hostname = (\<lambda>(h, w).
     not_null conn (with_data endpoint_hostname ''endpoint_hostname'' (\<lambda>bs.
       comp_bind (Some (expect (from_utf8 bs) ''endpoint_hostname must be valid UTF-8'' Ret)) (\<lambda>name.
         deref h conn (\<lambda>c.
           update_conn h conn (set_connected debug F (ClientEndpointHostname name) (c, w)))))))"

definition rc_conn_disconnected ::
  "bool \<Rightarrow> 'w ffi_env \<Rightarrow> nat \<Rightarrow> ffi_heap \<times> 'w \<Rightarrow> (conn_ret \<times> ffi_heap \<times> 'w) comp" where
  "rc_conn_disconnected debug F conn = (\<lambda>(h, w).
     not_null conn (deref h conn (\<lambda>c. update_conn h conn (set_disconnected debug F (c, w)))))"

definition rc_conn_recv ::
  "bool \<Rightarrow> proto_codec \<Rightarrow> 'w ffi_env \<Rightarrow> nat \<Rightarrow> bytes option \<Rightarrow> ffi_heap \<times> 'w
     \<Rightarrow> (recv_ret \<times> ffi_heap \<times> 'w) comp" where
  "rc_conn_recv debug P F conn data = (\<lambda>(h, w).
     not_null conn (with_data data ''data'' (\<lambda>payload.
       if payload = [] then done_with (RecvSuccess, h, w)
       else
         (let message = server_to_client_try_from P payload
          in deref h conn (\<lambda>c.
               comp_bind (recv_incoming debug F c message w) (\<lambda>(r, w'). done_with (r, h, w')))))))"

definition rc_conn_send_callback ::
  "bool \<Rightarrow> nat \<Rightarrow> callback \<Rightarrow> user_data \<Rightarrow> ffi_heap \<times> 'w \<Rightarrow> (conn_ret \<times> ffi_heap \<times> 'w) comp" where
  "rc_conn_send_callback debug conn cb user_data = (\<lambda>(h, w).
     not_null conn (deref h conn (\<lambda>c.
       update_conn h conn (Some (run_bind (set_send_callback debug cb user_data c) (\<lambda>(r, c').
         Ret (r, c', w)))))))"

definition rc_conn_free ::
  "bool \<Rightarrow> 'w ffi_env \<Rightarrow> nat \<Rightarrow> ffi_heap \<times> 'w \<Rightarrow> (conn_ret \<times> ffi_heap \<times> 'w) comp" where
  "rc_conn_free debug F conn = (\<lambda>(h, w).
     not_null conn (deref h conn (\<lambda>c.
       Some (run_bind (ffi_free debug F (c, w)) (\<lambda>(r, w').
         case r of
           Inr _ \<Rightarrow> Ret (ConnSuccess, heap_set h conn None, w')
         | Inl (c', ret) \<Rightarrow> Ret (ret, heap_set h conn (Some c'), w'))))))"

section \<open>Sequences of calls\<close>

datatype ffi_call =
    CallSendCallback callback user_data
  | CallConnected bytes
  | CallDisconnected
  | CallRecv bytes
  | CallResult u64 bytes
  | CallError u64 dispatch_host_error
  | CallFree

datatype ffi_ret = RetConn conn_ret | RetRecv recv_ret | RetUnit

fun rc_call ::
  "bool \<Rightarrow> proto_codec \<Rightarrow> 'w ffi_env \<Rightarrow> nat \<Rightarrow> ffi_call \<Rightarrow> ffi_heap \<times> 'w
     \<Rightarrow> (ffi_ret \<times> ffi_heap \<times> 'w) comp" where
  "rc_call debug P F p (CallSendCallback cb u) x =
     comp_bind (rc_conn_send_callback debug p cb u x) (\<lambda>(r, y). done_with (RetConn r, y))"
| "rc_call debug P F p (CallConnected host) x =
     comp_bind (rc_conn_connected debug F p (Some host) x) (\<lambda>(r, y). done_with (RetConn r, y))"
| "rc_call debug P F p CallDisconnected x =
     comp_bind (rc_conn_disconnected debug F p x) (\<lambda>(r, y). done_with (RetConn r, y))"
| "rc_call debug P F p (CallRecv data) x =
     comp_bind (rc_conn_recv debug P F p (Some data) x) (\<lambda>(r, y). done_with (RetRecv r, y))"
| "rc_call debug P F p (CallResult i data) x =
     comp_bind (rc_conn_dispatch_result P F p i (Some data) x) (\<lambda>y. done_with (RetUnit, y))"
| "rc_call debug P F p (CallError i e) x =
     comp_bind (rc_conn_dispatch_error F p i e x) (\<lambda>y. done_with (RetUnit, y))"
| "rc_call debug P F p CallFree x =
     comp_bind (rc_conn_free debug F p x) (\<lambda>(r, y). done_with (RetConn r, y))"

fun rc_calls ::
  "bool \<Rightarrow> proto_codec \<Rightarrow> 'w ffi_env \<Rightarrow> nat \<Rightarrow> ffi_call list \<Rightarrow> ffi_heap \<times> 'w
     \<Rightarrow> (ffi_ret list \<times> ffi_heap \<times> 'w) comp" where
  "rc_calls debug P F p [] x = done_with ([], x)"
| "rc_calls debug P F p (c # cs) x =
     comp_bind (rc_call debug P F p c x) (\<lambda>(r, y).
       comp_bind (rc_calls debug P F p cs y) (\<lambda>(rs, z). done_with (r # rs, z)))"

section \<open>Observed calls\<close>

datatype ffi_event =
    FEvPublish "io_handle connection_event"
  | FEvSpawn task
  | FEvCancel token
  | FEvJoin task

definition logged_ffi :: "'w ffi_env \<Rightarrow> ('w \<times> ffi_event list) ffi_env" where
  "logged_ffi F = \<lparr>
     fe_channel = (\<lambda>n (w, l). let (c, w') = fe_channel F n w in (c, w', l)),
     fe_try_send = (\<lambda>c m (w, l). let (r, w') = fe_try_send F c m w in (r, w', l)),
     fe_send_message = (\<lambda>c m (w, l). map_option (\<lambda>(r, w'). (r, w', l)) (fe_send_message F c m w)),
     fe_token_new = (\<lambda>(w, l). let (t, w') = fe_token_new F w in (t, w', l)),
     fe_cancel = (\<lambda>t (w, l). (fe_cancel F t w, l @ [FEvCancel t])),
     fe_spawn_io = (\<lambda>c t cb u (w, l). let (k, w') = fe_spawn_io F c t cb u w in (k, w', l @ [FEvSpawn k])),
     fe_spawn_dispatch = (\<lambda>s r t cb u (w, l).
       let (k, w') = fe_spawn_dispatch F s r t cb u w in (k, w', l @ [FEvSpawn k])),
     fe_join = (\<lambda>k (w, l). map_option (\<lambda>(r, w'). (r, w', l @ [FEvJoin k])) (fe_join F k w)),
     fe_publish = (\<lambda>u (w, l). let (r, w') = fe_publish F u w in (r, w', l @ [FEvPublish (into_event u)])),
     fe_dispatch = \<lparr>
       chan_new = (\<lambda>cap (w, l). let (c, w') = chan_new (fe_dispatch F) cap w in (c, w', l)),
       try_send = (\<lambda>c d (w, l). let (r, w') = try_send (fe_dispatch F) c d w in (r, w', l)),
       weak_upgrade = (\<lambda>c (w, l). let (r, w') = weak_upgrade (fe_dispatch F) c w in (r, w', l)),
       send_result = (\<lambda>c d (w, l). map_option (\<lambda>(r, w'). (r, w', l)) (send_result (fe_dispatch F) c d w)),
       io_send = (\<lambda>m (w, l). map_option (\<lambda>(r, w'). (r, w', l)) (io_send (fe_dispatch F) m w)),
       stop_or_sleep = (\<lambda>t (w, l). let (r, w') = stop_or_sleep (fe_dispatch F) t w in (r, w', l)),
       rand_fill = (\<lambda>(w, l). let (r, w') = rand_fill (fe_dispatch F) w in (r, w', l)),
       load_metrics = (\<lambda>(w, l). load_metrics (fe_dispatch F) w),
       store_metrics = (\<lambda>m (w, l). (store_metrics (fe_dispatch F) m w, l))\<rparr>\<rparr>"

section \<open>The documented lifecycle\<close>

text \<open>
  The diagram of \<open>ConnectionEvent\<close>: a connection is new, open, closed or released, and each
  event has one place in it.
\<close>

datatype life = LifeNew | LifeOpen | LifeClosed | LifeReleased

fun life_step :: "life \<Rightarrow> 'io connection_event \<Rightarrow> life option" where
  "life_step LifeNew (ConnConnected io p h) = Some LifeOpen"
| "life_step LifeNew ConnRelease = Some LifeReleased"
| "life_step LifeOpen ConnDisconnected = Some LifeClosed"
| "life_step LifeClosed ConnRelease = Some LifeReleased"
| "life_step _ _ = None"

fun life_run :: "life \<Rightarrow> 'io connection_event list \<Rightarrow> life option" where
  "life_run s [] = Some s"
| "life_run s (e # es) = Option.bind (life_step s e) (\<lambda>s'. life_run s' es)"

fun life_of :: "ffi_connection option \<Rightarrow> life" where
  "life_of None = LifeReleased"
| "life_of (Some c) = (case fc_state c of
     FConnected _ \<Rightarrow> LifeOpen | FDisconnected \<Rightarrow> LifeClosed | _ \<Rightarrow> LifeNew)"

fun published :: "ffi_event list \<Rightarrow> io_handle connection_event list" where
  "published [] = []"
| "published (FEvPublish e # l) = e # published l"
| "published (_ # l) = published l"

fun spawned_tasks :: "ffi_event list \<Rightarrow> task list" where
  "spawned_tasks [] = []"
| "spawned_tasks (FEvSpawn k # l) = k # spawned_tasks l"
| "spawned_tasks (_ # l) = spawned_tasks l"

fun joined_tasks :: "ffi_event list \<Rightarrow> task list" where
  "joined_tasks [] = []"
| "joined_tasks (FEvJoin k # l) = k # joined_tasks l"
| "joined_tasks (_ # l) = joined_tasks l"

fun tasks_of :: "ffi_connection option \<Rightarrow> abort_on_drop list" where
  "tasks_of None = []"
| "tasks_of (Some c) = (case fc_state c of FConnected d \<Rightarrow> [cn_io_task d, cn_dispatch_task d] | _ \<Rightarrow> [])"

lemma ffi_log_append [simp]:
  "published (l @ l') = published l @ published l'"
  "spawned_tasks (l @ l') = spawned_tasks l @ spawned_tasks l'"
  "joined_tasks (l @ l') = joined_tasks l @ joined_tasks l'"
  by (induction l rule: published.induct; simp)+

lemma life_run_append: "life_run s (es @ es') = Option.bind (life_run s es) (\<lambda>s'. life_run s' es')"
  by (induction es arbitrary: s) (auto simp: bind_assoc split: option.splits)

text \<open>What one call may do to a connection and add to the log.\<close>

definition call_effect ::
  "ffi_connection option \<Rightarrow> ffi_connection option \<Rightarrow> ffi_event list \<Rightarrow> bool" where
  "call_effect c c' l \<longleftrightarrow>
     life_run (life_of c) (published l) = Some (life_of c')
     \<and> tasks_of c @ map abort_on_drop_from (spawned_tasks l)
        = map abort_on_drop_from (joined_tasks l) @ tasks_of c'"

lemma call_effect_refl: "call_effect c c []"
  by (simp add: call_effect_def)

lemma call_effect_trans:
  assumes "call_effect a b l" and "call_effect b c l'"
  shows "call_effect a c (l @ l')"
proof -
  note 1 = assms [unfolded call_effect_def]
  have "tasks_of a @ map abort_on_drop_from (spawned_tasks l) @ map abort_on_drop_from (spawned_tasks l')
    = map abort_on_drop_from (joined_tasks l) @ tasks_of b @ map abort_on_drop_from (spawned_tasks l')"
    using 1 by (metis append_assoc)
  then show ?thesis using 1 by (simp add: call_effect_def life_run_append)
qed

lemma publish_event_logged:
  "publish_event (logged_ffi F) e (w, l) = Ret (w', l') \<Longrightarrow> l' = l @ [FEvPublish e]"
  by (auto simp: publish_event_def logged_ffi_def outcome_simps split: prod.splits)

lemma interconnect_logged:
  "new_dispatcher_interconnect (fe_dispatch (logged_ffi F)) (w, l) = (x, w', l') \<Longrightarrow> l' = l"
  by (auto simp: new_dispatcher_interconnect_def logged_ffi_def split: prod.splits)

lemma send_response_logged:
  assumes "send_response (fe_dispatch (logged_ffi F)) r v (w, l) = Some (x, w', l')" shows "l' = l"
proof (cases r)
  case (DispatchResponder tx)
  then show ?thesis
    using assms by (auto simp: logged_ffi_def split: option.splits prod.splits sum.splits)
qed

lemma start_tasks_logged:
  assumes "start_tasks (logged_ffi F) self send u (w, l) = ((cn, io, pub), w', l')"
  shows "\<exists>i d. l' = l @ [FEvSpawn i, FEvSpawn d] \<and> cn_io_task cn = abort_on_drop_from i
    \<and> cn_dispatch_task cn = abort_on_drop_from d"
proof -
  obtain c1 w1 where 1: "fe_channel F QUEUE_BUFFER_LEN w = (c1, w1)" by fastforce
  obtain c2 w2 where 2: "fe_channel F QUEUE_BUFFER_LEN w1 = (c2, w2)" by fastforce
  obtain t1 w3 where 3: "fe_token_new F w2 = (t1, w3)" by fastforce
  obtain i w4 where 4: "fe_spawn_io F c1 t1 send u w3 = (i, w4)" by fastforce
  obtain pub' st rs w5 l5 where 5: "new_dispatcher_interconnect (fe_dispatch (logged_ffi F)) (w4, l @ [FEvSpawn i]) =
      ((pub', st, rs), w5, l5)" by (metis surj_pair)
  then have l5: "l5 = l @ [FEvSpawn i]" by (rule interconnect_logged)
  obtain t2 w6 where 6: "fe_token_new F w5 = (t2, w6)" by fastforce
  obtain d w7 where 7: "fe_spawn_dispatch F st rs t2 (fc_dispatch self) (fc_dispatch_user_data self) w6 = (d, w7)"
    by fastforce
  have ops: "fe_channel (logged_ffi F) n (w, l) = (case fe_channel F n w of (c, w') \<Rightarrow> (c, w', l))"
    "fe_token_new (logged_ffi F) (w, l) = (case fe_token_new F w of (t, w') \<Rightarrow> (t, w', l))"
    "fe_spawn_io (logged_ffi F) c t cb u (w, l) =
      (case fe_spawn_io F c t cb u w of (k, w') \<Rightarrow> (k, w', l @ [FEvSpawn k]))"
    "fe_spawn_dispatch (logged_ffi F) s r t cb u (w, l) =
      (case fe_spawn_dispatch F s r t cb u w of (k, w') \<Rightarrow> (k, w', l @ [FEvSpawn k]))" for n c t cb u s r w l
    by (simp_all add: logged_ffi_def)
  show ?thesis
    using assms by (auto simp: start_tasks_def Let_def ops 1 2 3 4 5 6 7 l5)
qed

lemma invalid_state_Ret: "invalid_state debug msg r = Ret x \<longleftrightarrow> \<not> debug \<and> x = r"
  by (auto simp: invalid_state_def)

lemma set_connected_effect:
  assumes "set_connected debug (logged_ffi F) host (c, w, l) = Some (Ret (r, c', w', l'))"
  shows "\<exists>l1. l' = l @ l1 \<and> call_effect (Some c) (Some c') l1"
proof (cases "fc_state c")
  case (FConfigured send u)
  obtain cn io pub w1 l1 where st: "start_tasks (logged_ffi F) c send u (w, l) = ((cn, io, pub), w1, l1)"
    by (metis surj_pair)
  obtain i d where t: "l1 = l @ [FEvSpawn i, FEvSpawn d]" "cn_io_task cn = abort_on_drop_from i"
    "cn_dispatch_task cn = abort_on_drop_from d" using start_tasks_logged [OF st] by blast
  have "publish_event (logged_ffi F) (ConnConnected io pub host) (w1, l1) = Ret (w', l')"
    and c': "c' = c\<lparr>fc_state := FConnected cn\<rparr>"
    using assms FConfigured st by (auto simp: set_connected_def outcome_simps)
  then have "l' = l1 @ [FEvPublish (ConnConnected io pub host)]" by (intro publish_event_logged)
  then show ?thesis using t c' FConfigured
    by (auto simp: call_effect_def)
qed (use assms in \<open>auto simp: set_connected_def invalid_state_Ret call_effect_refl\<close>)

lemma join_task_logged:
  assumes "join_task (logged_ffi F) t msg (w, l) = Some (Ret (w', l'))"
  shows "\<exists>k. t = abort_on_drop_from k \<and> l' = l @ [FEvJoin k]"
proof -
  obtain k where t: "t = AbortOnDrop (Some k)"
    using assms by (cases t; cases "case t of AbortOnDrop x \<Rightarrow> x") (auto simp: join_task_def)
  then show ?thesis
    using assms by (auto simp: join_task_def logged_ffi_def abort_on_drop_from_def outcome_simps
        split: option.splits prod.splits)
qed

lemma set_disconnected_effect:
  assumes "set_disconnected debug (logged_ffi F) (c, w, l) = Some (Ret (r, c', w', l'))"
  shows "\<exists>l1. l' = l @ l1 \<and> call_effect (Some c) (Some c') l1"
proof (cases "fc_state c")
  case (FConnected cn)
  let ?l = "l @ [FEvCancel (cn_io_task_stop cn), FEvCancel (cn_dispatch_task_stop cn)]"
  let ?w = "fe_cancel F (cn_dispatch_task_stop cn) (fe_cancel F (cn_io_task_stop cn) w)"
  have cancel: "fe_cancel (logged_ffi F) (cn_dispatch_task_stop cn) (fe_cancel (logged_ffi F) (cn_io_task_stop cn) (w, l)) =
    (?w, ?l)" by (simp add: logged_ffi_def)
  obtain w3 l3 w4 l4 where j: "join_task (logged_ffi F) (cn_io_task cn) ''i/o task shutdown'' (?w, ?l) = Some (Ret (w3, l3))"
    "join_task (logged_ffi F) (cn_dispatch_task cn) ''dispatch task shutdown'' (w3, l3) = Some (Ret (w4, l4))"
    "publish_event (logged_ffi F) ConnDisconnected (w4, l4) = Ret (w', l')"
    and c': "c' = c\<lparr>fc_state := FDisconnected\<rparr>"
    using assms FConnected
    by (auto simp: set_disconnected_def Let_def cancel comp_bind_eq_Ret run_bind_eq_Ret)
  from join_task_logged [OF j(1)] join_task_logged [OF j(2)] publish_event_logged [OF j(3)]
  show ?thesis using c' FConnected by (auto simp: call_effect_def)
qed (use assms in \<open>auto simp: set_disconnected_def invalid_state_Ret call_effect_refl\<close>)

lemma set_send_callback_effect:
  "set_send_callback debug cb u c = Ret (r, c') \<Longrightarrow> call_effect (Some c) (Some c') []"
  by (cases "fc_state c")
    (auto simp: set_send_callback_def assert_that_eq_Ret invalid_state_Ret call_effect_def)

lemma ffi_free_effect:
  assumes "ffi_free debug (logged_ffi F) (c, w, l) = Ret (r, w', l')"
  shows "\<exists>l1. l' = l @ l1 \<and> call_effect (Some c) (case r of Inr _ \<Rightarrow> None | Inl (c', _) \<Rightarrow> Some c') l1"
proof (cases "\<exists>d. fc_state c = FConnected d")
  case True
  then show ?thesis
    using assms by (auto simp: ffi_free_def run_bind_eq_Ret invalid_state_Ret call_effect_refl)
next
  case False
  then have "publish_event (logged_ffi F) ConnRelease (w, l) = Ret (w', l')" "r = Ok ()"
    using assms by (cases "fc_state c"; auto simp: ffi_free_def run_bind_eq_Ret)+
  then show ?thesis
    using False publish_event_logged [of F ConnRelease w l w' l']
    by (cases "fc_state c") (auto simp: call_effect_def)
qed

lemma hp_conns_heap_set [simp]: "hp_conns (heap_set h p c) p = c"
  by (simp add: heap_set_def)

lemma handle_dispatch_result_logged:
  "handle_dispatch_result (logged_ffi F) c v (w, l) = Some (w', l') \<Longrightarrow> l' = l"
  by (cases "fc_state c") (auto simp: handle_dispatch_result_def dest: send_response_logged)

lemmas deref_defs = not_null_def deref_def with_data_def update_conn_def comp_bind_eq_Ret

lemma rc_call_effect:
  assumes "rc_call debug P (logged_ffi F) p call (h, w, l) = Some (Ret (r, h', w', l'))"
  shows "\<exists>l1. l' = l @ l1 \<and> call_effect (hp_conns h p) (hp_conns h' p) l1"
proof (cases call)
  case (CallSendCallback cb u)
  then show ?thesis using assms
    by (auto simp: rc_conn_send_callback_def deref_defs run_bind_eq_Ret
        dest: set_send_callback_effect split: if_splits option.splits)
next
  case (CallConnected host)
  then show ?thesis using assms
    by (auto simp: rc_conn_connected_def deref_defs dest!: set_connected_effect split: if_splits option.splits)
next
  case CallDisconnected
  then show ?thesis using assms
    by (auto simp: rc_conn_disconnected_def deref_defs dest!: set_disconnected_effect split: if_splits option.splits)
next
  case (CallRecv data)
  then show ?thesis using assms
    by (auto simp: rc_conn_recv_def deref_defs recv_incoming_def invalid_state_Ret logged_ffi_def Let_def call_effect_refl
        split: if_splits option.splits ffi_state.splits)
next
  case (CallResult i data)
  then show ?thesis using assms
    by (auto simp: rc_conn_dispatch_result_def deref_defs Let_def call_effect_refl
        dest!: handle_dispatch_result_logged split: if_splits option.splits)
next
  case (CallError i e)
  then show ?thesis using assms
    by (auto simp: rc_conn_dispatch_error_def deref_defs call_effect_refl
        dest!: handle_dispatch_result_logged split: if_splits option.splits)
next
  case CallFree
  then obtain c res where c: "hp_conns h p = Some c"
    and run: "ffi_free debug (logged_ffi F) (c, w, l) = Ret (res, w', l')"
    and "hp_conns h' p = (case res of Inr _ \<Rightarrow> None | Inl (c', _) \<Rightarrow> Some c')"
    using assms
    by (cases "hp_conns h p"; cases "ffi_free debug (logged_ffi F) (the (hp_conns h p), w, l)")
      (auto simp: rc_conn_free_def not_null_def deref_def split: if_splits sum.split_asm)
  then show ?thesis using ffi_free_effect [OF run] by simp
qed

lemma rc_calls_effect:
  "rc_calls debug P (logged_ffi F) p cs (h, w, l) = Some (Ret (rs, h', w', l')) \<Longrightarrow>
     \<exists>l1. l' = l @ l1 \<and> call_effect (hp_conns h p) (hp_conns h' p) l1"
proof (induction cs arbitrary: h w l rs)
  case Nil
  then show ?case by (simp add: call_effect_refl)
next
  case (Cons c cs)
  obtain r h1 w1 l1 rs' where c: "rc_call debug P (logged_ffi F) p c (h, w, l) = Some (Ret (r, h1, w1, l1))"
    and cs: "rc_calls debug P (logged_ffi F) p cs (h1, w1, l1) = Some (Ret (rs', h', w', l'))"
    using Cons.prems by (auto simp: comp_bind_eq_Ret)
  from rc_call_effect [OF c] Cons.IH [OF cs] show ?case
    using call_effect_trans by fastforce
qed

section \<open>The order of calls\<close>

text \<open>The calls that a state admits, and the arguments that the interface demands in any state.\<close>

fun permitted :: "ffi_state \<Rightarrow> ffi_call \<Rightarrow> bool" where
  "permitted st (CallSendCallback cb u) \<longleftrightarrow> (case st of FInit \<Rightarrow> True | FConfigured _ _ \<Rightarrow> True | _ \<Rightarrow> False)"
| "permitted st (CallConnected host) \<longleftrightarrow> (case st of FConfigured _ _ \<Rightarrow> True | _ \<Rightarrow> False)"
| "permitted st CallDisconnected \<longleftrightarrow> (case st of FConnected _ \<Rightarrow> True | _ \<Rightarrow> False)"
| "permitted st (CallRecv data) \<longleftrightarrow> data = [] \<or> (case st of FConnected _ \<Rightarrow> True | _ \<Rightarrow> False)"
| "permitted st (CallResult i data) \<longleftrightarrow> True"
| "permitted st (CallError i e) \<longleftrightarrow> True"
| "permitted st CallFree \<longleftrightarrow> (case st of FConnected _ \<Rightarrow> False | _ \<Rightarrow> True)"

fun well_formed_call :: "ffi_call \<Rightarrow> bool" where
  "well_formed_call (CallSendCallback cb u) \<longleftrightarrow> cb \<noteq> 0"
| "well_formed_call (CallConnected host) \<longleftrightarrow> utf8_valid host"
| "well_formed_call _ \<longleftrightarrow> True"

fun refusal :: "ffi_call \<Rightarrow> ffi_ret" where
  "refusal (CallRecv data) = RetRecv RecvInvalidState"
| "refusal _ = RetConn ConnInvalidState"

lemma heap_set_same [simp]: "hp_conns h p = Some c \<Longrightarrow> heap_set h p (Some c) = h"
  by (cases h) (auto simp: heap_set_def)

lemmas call_defs = rc_conn_send_callback_def rc_conn_connected_def rc_conn_disconnected_def
  rc_conn_recv_def rc_conn_free_def rc_conn_dispatch_result_def rc_conn_dispatch_error_def
  not_null_def deref_def with_data_def update_conn_def

lemma not_permitted_refused:
  assumes "hp_conns h p = Some c" "p \<noteq> 0" "well_formed_call call" "\<not> permitted (fc_state c) call"
  shows "rc_call False P F p call (h, w) = Some (Ret (refusal call, h, w))
    \<and> (\<exists>msg. rc_call True P F p call (h, w) = Some (Panic msg))"
proof (cases call)
  case (CallSendCallback cb u)
  then show ?thesis using assms
    by (auto simp: call_defs set_send_callback_def invalid_state_def split: ffi_state.splits)
next
  case (CallConnected host)
  then show ?thesis using assms
    by (auto simp: call_defs set_connected_def invalid_state_def from_utf8_def split: ffi_state.splits)
next
  case CallDisconnected
  then show ?thesis using assms
    by (auto simp: call_defs set_disconnected_def invalid_state_def split: ffi_state.splits)
next
  case (CallRecv data)
  then show ?thesis using assms
    by (auto simp: call_defs recv_incoming_def invalid_state_def split: ffi_state.splits)
next
  case CallFree
  then show ?thesis using assms
    by (auto simp: call_defs ffi_free_def invalid_state_def split: ffi_state.splits)
qed (use assms in simp_all)

lemma permitted_debug_independent:
  assumes "hp_conns h p = Some c" "permitted (fc_state c) call"
  shows "rc_call True P F p call (h, w) = rc_call False P F p call (h, w)"
  using assms
  by (cases call) (auto simp: call_defs set_send_callback_def set_connected_def set_disconnected_def
      recv_incoming_def ffi_free_def split: ffi_state.splits)

lemma permitted_not_refused:
  assumes "hp_conns h p = Some c" "permitted (fc_state c) call"
    and "rc_call False P F p call (h, w) = Some (Ret (r, y))"
  shows "r \<in> {RetConn ConnSuccess, RetRecv RecvSuccess, RetUnit}"
proof (cases call)
  case (CallConnected host)
  then obtain cb u where st: "fc_state c = FConfigured cb u"
    using assms by (auto split: ffi_state.splits)
  obtain cn io pub w1 where "start_tasks F c cb u w = ((cn, io, pub), w1)"
    by (metis surj_pair)
  then show ?thesis using assms st CallConnected
    by (auto simp: call_defs set_connected_def outcome_simps split: if_splits)
qed (use assms in \<open>auto simp: call_defs set_send_callback_def set_disconnected_def
    recv_incoming_def ffi_free_def outcome_simps Let_def
    split: ffi_state.splits if_splits option.splits\<close>)

section \<open>Properties\<close>

lemma new_connection_effect:
  assumes "rc_conn_new (logged_ffi F) ctx cb u (h, w, []) = Ret (p, h1, w1, l1)"
  shows "l1 = [FEvPublish ConnInit] \<and> life_of (hp_conns h1 p) = LifeNew \<and> tasks_of (hp_conns h1 p) = []"
  using assms
  by (auto simp: rc_conn_new_def ffi_connection_new_def outcome_simps heap_set_def dest!: publish_event_logged)

text \<open>
  A runtime that numbers what it creates and whose tasks end when they are waited for, and the
  calls of a host that opens a connection, gives a result back and closes it.
\<close>

definition numbering :: "nat \<Rightarrow> nat \<times> nat" where
  "numbering n = (n, Suc n)"

definition numbering_ffi :: "nat ffi_env" where
  "numbering_ffi = \<lparr>
     fe_channel = (\<lambda>cap. numbering), fe_try_send = (\<lambda>c m w. (TrySent, w)),
     fe_send_message = (\<lambda>c m w. Some (Ok (), w)), fe_token_new = numbering, fe_cancel = (\<lambda>t w. w),
     fe_spawn_io = (\<lambda>c t cb u. numbering), fe_spawn_dispatch = (\<lambda>s r t cb u. numbering),
     fe_join = (\<lambda>k w. Some (Ok (), w)), fe_publish = (\<lambda>u w. (Ok (), w)),
     fe_dispatch = \<lparr>
       chan_new = (\<lambda>cap. numbering), try_send = (\<lambda>c d w. (TrySent, w)), weak_upgrade = (\<lambda>c w. (True, w)),
       send_result = (\<lambda>c d w. Some (Ok (), w)), io_send = (\<lambda>m w. Some (Ok (), w)),
       stop_or_sleep = (\<lambda>t w. (False, w)), rand_fill = (\<lambda>w. (Ok (replicate 16 0), w)),
       load_metrics = (\<lambda>w. instance_metrics_default (build_version_from_build 1 0 0 [] None)),
       store_metrics = (\<lambda>m w. w)\<rparr>\<rparr>"

definition tagging_codec :: proto_codec where
  "tagging_codec = \<lparr>
     proto_encode = (\<lambda>m. case m of None \<Rightarrow> [] | Some _ \<Rightarrow> [1]),
     proto_decode = (\<lambda>b. Err ''not a message''), proto_decode_response = (\<lambda>b. Err ''not a response'')\<rparr>"

definition sample_calls :: "ffi_call list" where
  "sample_calls = [CallSendCallback 8 0, CallConnected [], CallError 3 HostHandlerExecTimeout,
     CallDisconnected, CallFree]"

definition empty_heap :: ffi_heap where
  "empty_heap = \<lparr>hp_conns = (\<lambda>_. None), hp_next = 1\<rparr>"

lemmas sample_ffi_defs = numbering_ffi_def logged_ffi_def numbering_def empty_heap_def heap_set_def
  rc_conn_new_def ffi_connection_new_def publish_event_def start_tasks_def set_connected_def
  set_disconnected_def set_send_callback_def ffi_free_def join_task_def handle_dispatch_result_def
  new_dispatcher_interconnect_def abort_on_drop_from_def from_utf8_def io_handle_new_def

definition sample_io :: io_handle where
  "sample_io = io_handle_new 0 1"

definition sample_pub :: dispatch_publisher where
  "sample_pub = \<lparr>pub_tx = 4, pub_rx = Some 5, pub_errors = 5\<rparr>"

definition sample_ffi_log :: "ffi_event list" where
  "sample_ffi_log = [FEvPublish ConnInit, FEvSpawn 3, FEvSpawn 7,
     FEvPublish (ConnConnected sample_io sample_pub (ClientEndpointHostname [])),
     FEvCancel 2, FEvCancel 6, FEvJoin 3, FEvJoin 7, FEvPublish ConnDisconnected, FEvPublish ConnRelease]"

lemma sample_new_run:
  "rc_conn_new (logged_ffi numbering_ffi) 1 9 0 (empty_heap, 0, []) =
     Ret (1, \<lparr>hp_conns = [1 \<mapsto> \<lparr>fc_dispatch = 9, fc_dispatch_user_data = 0, fc_state = FInit\<rparr>], hp_next = 2\<rparr>,
       0, [FEvPublish ConnInit])"
  by (simp add: sample_ffi_defs assert_that_def)

lemma sample_calls_run:
  "rc_calls debug P (logged_ffi numbering_ffi) 1 sample_calls
     (\<lparr>hp_conns = [1 \<mapsto> \<lparr>fc_dispatch = 9, fc_dispatch_user_data = 0, fc_state = FInit\<rparr>], hp_next = 2\<rparr>,
       0, [FEvPublish ConnInit])
   = done_with ([RetConn ConnSuccess, RetConn ConnSuccess, RetUnit, RetConn ConnSuccess, RetConn ConnSuccess],
       \<lparr>hp_conns = (\<lambda>_. None), hp_next = 2\<rparr>, 8, sample_ffi_log)"
  by (simp add: sample_calls_def call_defs sample_ffi_defs assert_that_def sample_ffi_log_def
      sample_io_def sample_pub_def)

text \<open>
  C4. Whatever the host calls on a connection, in whatever order and in either build, the events
  that reach the library follow the documented lifecycle: the first is the initialisation, and
  the rest is a path of the diagram new, open, closed, released that ends in the state the
  connection is in. A connection never opens twice and nothing follows its release.
\<close>

theorem ffi_events_follow_lifecycle:
  assumes "rc_conn_new (logged_ffi F) ctx cb u (h, w, []) = Ret (p, h1, w1, l1)"
    and "rc_calls debug P (logged_ffi F) p calls (h1, w1, l1) = Some (Ret (rs, h2, w2, l2))"
  shows "\<exists>es. published l2 = ConnInit # es \<and> life_run LifeNew es = Some (life_of (hp_conns h2 p))"
proof -
  note new = new_connection_effect [OF assms(1)]
  obtain l where l: "l2 = l1 @ l" "call_effect (hp_conns h1 p) (hp_conns h2 p) l"
    using rc_calls_effect [OF assms(2)] by blast
  then show ?thesis using new by (auto simp: call_effect_def)
qed

theorem ffi_events_follow_lifecycle_witness:
  "\<exists>es. published sample_ffi_log = ConnInit # es \<and> life_run LifeNew es = Some LifeReleased \<and> length es = 3"
  using ffi_events_follow_lifecycle [OF sample_new_run sample_calls_run [of False tagging_codec]]
  by (simp add: sample_ffi_log_def)

text \<open>
  C5. No task outlives its connection: after any calls, the tasks that were started are exactly
  those that were waited for, followed by the two of the open connection if there is one. So
  once a disconnect has returned, neither the send nor the dispatch callback can be in use.
\<close>

theorem ffi_tasks_joined:
  assumes "rc_conn_new (logged_ffi F) ctx cb u (h, w, []) = Ret (p, h1, w1, l1)"
    and "rc_calls debug P (logged_ffi F) p calls (h1, w1, l1) = Some (Ret (rs, h2, w2, l2))"
  shows "map abort_on_drop_from (spawned_tasks l2)
      = map abort_on_drop_from (joined_tasks l2) @ tasks_of (hp_conns h2 p)
    \<and> (life_of (hp_conns h2 p) \<noteq> LifeOpen \<longrightarrow> spawned_tasks l2 = joined_tasks l2)"
proof -
  note new = new_connection_effect [OF assms(1)]
  obtain l where l: "l2 = l1 @ l" "call_effect (hp_conns h1 p) (hp_conns h2 p) l"
    using rc_calls_effect [OF assms(2)] by blast
  have m: "map abort_on_drop_from (spawned_tasks l2)
      = map abort_on_drop_from (joined_tasks l2) @ tasks_of (hp_conns h2 p)"
    using l new by (simp add: call_effect_def)
  moreover have "tasks_of c = []" if "life_of c \<noteq> LifeOpen" for c
    using that by (cases c) (auto split: ffi_state.splits)
  moreover have "inj abort_on_drop_from" by (auto simp: inj_on_def abort_on_drop_from_def)
  ultimately show ?thesis by (auto simp: inj_map_eq_map)
qed

theorem ffi_tasks_joined_witness:
  "spawned_tasks sample_ffi_log = joined_tasks sample_ffi_log \<and> joined_tasks sample_ffi_log = [3, 7]"
  using ffi_tasks_joined [OF sample_new_run sample_calls_run [of False tagging_codec]]
  by (simp add: sample_ffi_log_def)



end
