(* ===== verification/FFI_Tasks.thy ===== *)
theory FFI_Tasks
  imports FFI_Connection
begin

text \<open>
  The two threads that call back into the host while a connection is open: \<open>io_task\<close> and
  \<open>dispatch_task\<close> of \<open>connection.rs\<close> in \<open>rc-x509-ffi\<close>. Their queues, their stop signal and
  the callbacks of the host are the parameter \<open>'w task_env\<close>; a callback that does not return is
  None. A receiver that leaves its scope closes its queue.
\<close>

section \<open>The tasks\<close>

record 'w task_env =
  tk_cancelled :: "token \<Rightarrow> 'w \<Rightarrow> bool \<times> 'w"
  tk_recv :: "chan \<Rightarrow> 'w \<Rightarrow> client_to_server option poll \<times> 'w"
  tk_next :: "chan \<Rightarrow> 'w \<Rightarrow> dispatch_request option poll \<times> 'w"
  tk_park :: "'w \<Rightarrow> 'w option"
  tk_send :: "callback \<Rightarrow> bytes \<Rightarrow> u32 \<Rightarrow> user_data \<Rightarrow> 'w \<Rightarrow> (send_ret \<times> 'w) option"
  tk_dispatch :: "callback \<Rightarrow> u64 \<Rightarrow> bytes \<Rightarrow> u32 \<Rightarrow> user_data \<Rightarrow> 'w \<Rightarrow> (dispatch_ret \<times> 'w) option"
  tk_close :: "chan \<Rightarrow> 'w \<Rightarrow> 'w"
  tk_dispatch_env :: "'w env"

text \<open>
  The biased select of the stop signal and one queue, run by \<open>block_on\<close>: polled again whenever
  the thread is woken.
\<close>

definition select_round ::
  "'w task_env \<Rightarrow> token \<Rightarrow> ('w \<Rightarrow> 'a option poll \<times> 'w) \<Rightarrow> 'w \<Rightarrow> ('w + 'a option \<times> 'w) comp" where
  "select_round T stop poll w =
     (case tk_cancelled T stop w of
        (True, w1) \<Rightarrow> done_with (Inr (None, w1))
      | (False, w1) \<Rightarrow>
          (case poll w1 of
             (Ready v, w2) \<Rightarrow> done_with (Inr (v, w2))
           | (Pending, w2) \<Rightarrow> Option.bind (tk_park T w2) (\<lambda>w3. done_with (Inl w3))))"

definition block_on_select ::
  "'w task_env \<Rightarrow> token \<Rightarrow> ('w \<Rightarrow> 'a option poll \<times> 'w) \<Rightarrow> 'w \<Rightarrow> ('a option \<times> 'w) comp" where
  "block_on_select T stop poll w = rust_loop (select_round T stop poll) w"

definition io_round ::
  "proto_codec \<Rightarrow> 'w task_env \<Rightarrow> chan \<Rightarrow> token \<Rightarrow> callback \<Rightarrow> user_data \<Rightarrow> 'w \<Rightarrow> ('w + 'w) comp" where
  "io_round P T lib2ffi stop send user_data w =
     comp_bind (block_on_select T stop (tk_recv T lib2ffi) w) (\<lambda>(maybe_payload, w1).
       case maybe_payload of
         None \<Rightarrow> done_with (Inr w1)
       | Some payload \<Rightarrow>
           (let buf = client_to_server_bytes P payload
            in Option.bind (tk_send T send buf (of_nat (length buf)) user_data w1) (\<lambda>(ret, w2).
                 case ret of
                   SendSuccess \<Rightarrow> done_with (Inl w2)
                 | SendClosed \<Rightarrow> done_with (Inr w2)
                 | SendUnknown \<Rightarrow> done_with (Inr w2))))"

definition io_task ::
  "proto_codec \<Rightarrow> 'w task_env \<Rightarrow> chan \<Rightarrow> token \<Rightarrow> callback \<Rightarrow> user_data \<Rightarrow> 'w \<Rightarrow> 'w comp" where
  "io_task P T lib2ffi stop send user_data w =
     comp_bind (rust_loop (io_round P T lib2ffi stop send user_data) w) (\<lambda>w'.
       done_with (tk_close T lib2ffi w'))"

fun dispatch_ret_error :: "dispatch_ret \<Rightarrow> dispatch_error option" where
  "dispatch_ret_error DispatchSuccess = None"
| "dispatch_ret_error DispatchNoHandler = Some NoDispatchHandler"
| "dispatch_ret_error DispatchUnknownPayload = Some UnknownPayload"
| "dispatch_ret_error DispatchQueueFull = Some HandlerQueueFull"
| "dispatch_ret_error DispatchUnknown = Some UnknownHostDispatchError"

definition dispatch_round ::
  "'w task_env \<Rightarrow> dispatch_stream \<Rightarrow> dispatch_responder \<Rightarrow> token \<Rightarrow> callback \<Rightarrow> user_data \<Rightarrow> 'w
     \<Rightarrow> ('w + 'w) comp" where
  "dispatch_round T stream responder stop dispatch user_data w =
     comp_bind (block_on_select T stop (tk_next T (case stream of DispatchStream c \<Rightarrow> c)) w) (\<lambda>(maybe_payload, w1).
       case maybe_payload of
         None \<Rightarrow> done_with (Inr w1)
       | Some data \<Rightarrow>
           Option.bind (tk_dispatch T dispatch (correlation_id_get (dr_correlation_id data))
              (payload_as_bytes (dr_payload data)) (of_nat (payload_len (dr_payload data))) user_data w1)
             (\<lambda>(dispatch_ret, w2).
               case dispatch_ret_error dispatch_ret of
                 None \<Rightarrow> done_with (Inl w2)
               | Some e \<Rightarrow>
                   Option.bind (send_response (tk_dispatch_env T) responder
                      \<lparr>res_correlation_id = dr_correlation_id data, res_result = Err e\<rparr> w2) (\<lambda>(r, w3).
                     case r of
                       Inr _ \<Rightarrow> done_with (Inl w3)
                     | Inl _ \<Rightarrow> done_with (Inr w3))))"

definition dispatch_task ::
  "'w task_env \<Rightarrow> dispatch_stream \<Rightarrow> dispatch_responder \<Rightarrow> token \<Rightarrow> callback \<Rightarrow> user_data \<Rightarrow> 'w \<Rightarrow> 'w comp" where
  "dispatch_task T stream responder stop dispatch user_data w =
     comp_bind (rust_loop (dispatch_round T stream responder stop dispatch user_data) w) (\<lambda>w'.
       done_with (tk_close T (case stream of DispatchStream c \<Rightarrow> c) w'))"

section \<open>Observed calls\<close>

datatype task_event =
    TkStopSeen token
  | TkEnded chan
  | TkReceived client_to_server
  | TkSend callback bytes u32 user_data send_ret
  | TkRequest dispatch_request
  | TkDispatch callback u64 bytes u32 user_data dispatch_ret
  | TkResponse chan dispatch_result "unit + unit"
  | TkClosed chan

definition logged_tasks :: "'w task_env \<Rightarrow> ('w \<times> task_event list) task_env" where
  "logged_tasks T = \<lparr>
     tk_cancelled = (\<lambda>t (w, l). let (b, w') = tk_cancelled T t w in (b, w', if b then l @ [TkStopSeen t] else l)),
     tk_recv = (\<lambda>c (w, l). let (r, w') = tk_recv T c w in
       (r, w', case r of Pending \<Rightarrow> l | Ready None \<Rightarrow> l @ [TkEnded c] | Ready (Some m) \<Rightarrow> l @ [TkReceived m])),
     tk_next = (\<lambda>c (w, l). let (r, w') = tk_next T c w in
       (r, w', case r of Pending \<Rightarrow> l | Ready None \<Rightarrow> l @ [TkEnded c] | Ready (Some d) \<Rightarrow> l @ [TkRequest d])),
     tk_park = (\<lambda>(w, l). map_option (\<lambda>w'. (w', l)) (tk_park T w)),
     tk_send = (\<lambda>cb b n u (w, l).
       map_option (\<lambda>(r, w'). (r, w', l @ [TkSend cb b n u r])) (tk_send T cb b n u w)),
     tk_dispatch = (\<lambda>cb i b n u (w, l).
       map_option (\<lambda>(r, w'). (r, w', l @ [TkDispatch cb i b n u r])) (tk_dispatch T cb i b n u w)),
     tk_close = (\<lambda>c (w, l). (tk_close T c w, l @ [TkClosed c])),
     tk_dispatch_env = \<lparr>
       chan_new = (\<lambda>cap (w, l). let (c, w') = chan_new (tk_dispatch_env T) cap w in (c, w', l)),
       try_send = (\<lambda>c d (w, l). let (r, w') = try_send (tk_dispatch_env T) c d w in (r, w', l)),
       weak_upgrade = (\<lambda>c (w, l). let (r, w') = weak_upgrade (tk_dispatch_env T) c w in (r, w', l)),
       send_result = (\<lambda>c d (w, l).
         map_option (\<lambda>(r, w'). (r, w', l @ [TkResponse c d r])) (send_result (tk_dispatch_env T) c d w)),
       io_send = (\<lambda>m (w, l). map_option (\<lambda>(r, w'). (r, w', l)) (io_send (tk_dispatch_env T) m w)),
       stop_or_sleep = (\<lambda>t (w, l). let (r, w') = stop_or_sleep (tk_dispatch_env T) t w in (r, w', l)),
       rand_fill = (\<lambda>(w, l). let (r, w') = rand_fill (tk_dispatch_env T) w in (r, w', l)),
       load_metrics = (\<lambda>(w, l). load_metrics (tk_dispatch_env T) w),
       store_metrics = (\<lambda>m (w, l). (store_metrics (tk_dispatch_env T) m w, l))\<rparr>\<rparr>"

text \<open>A wait adds one entry to the log: the stop signal, or what came out of the queue.\<close>

lemma block_on_select_logged:
  assumes "block_on_select (logged_tasks T) stop poll (w, l) = Some (Ret (v, w', l'))"
    and poll: "\<And>w l r w' l'. poll (w, l) = (r, w', l') \<Longrightarrow>
      l' = l @ (case r of Pending \<Rightarrow> [] | Ready v \<Rightarrow> [f v])"
  shows "v = None \<and> l' = l @ [TkStopSeen stop] \<or> l' = l @ [f v]"
proof -
  have "\<forall>w l v w' l'. s = (w, l) \<longrightarrow> x = (v, w', l') \<longrightarrow> v = None \<and> l' = l @ [TkStopSeen stop] \<or> l' = l @ [f v]"
    if "rust_loop (select_round (logged_tasks T) stop poll) s = Some (Ret x)" for s x
    using that
  proof (induction rule: rust_loop_fold)
    case (leave s r)
    then show ?case
      by (auto simp: select_round_def logged_tasks_def bind_eq_Some_conv dest!: poll
          split: prod.splits bool.splits poll.splits if_splits)
  next
    case (continue s s' r)
    then have "snd s' = snd s"
      by (auto simp: select_round_def logged_tasks_def bind_eq_Some_conv dest!: poll
          split: prod.splits bool.splits poll.splits if_splits)
    then show ?case using continue.IH by (cases s; cases s') auto
  qed
  then show ?thesis using assms(1) by (simp add: block_on_select_def)
qed

text \<open>A loop whose rounds each add a chunk to the log adds the chunks in order.\<close>

lemma rust_loop_chunks:
  assumes "rust_loop body (w, l) = Some (Ret (w', l'))"
    and body: "\<And>w l x. body (w, l) = Some (Ret x) \<Longrightarrow>
      (\<exists>a w1. x = Inl (w1, l @ f a)) \<or> (\<exists>c w1. x = Inr (w1, l @ c) \<and> F c)"
  shows "\<exists>as fin. l' = l @ concat (map f as) @ fin \<and> F fin"
proof -
  have "\<forall>w l w' l'. s = (w, l) \<longrightarrow> r = (w', l') \<longrightarrow> (\<exists>as fin. l' = l @ concat (map f as) @ fin \<and> F fin)"
    if "rust_loop body s = Some (Ret r)" for s r
    using that
  proof (induction rule: rust_loop_fold)
    case (leave s r)
    then obtain c w1 where "r = (w1, snd s @ c)" "F c"
      using body [of "fst s" "snd s" "Inr r"] by auto
    then show ?case by (intro allI impI exI [of _ "[]"] exI [of _ c]) auto
  next
    case (continue s s' r)
    obtain a w1 where s': "s' = (w1, snd s @ f a)"
      using continue.hyps body [of "fst s" "snd s" "Inl s'"] by auto
    show ?case
    proof (intro allI impI)
      fix w l w' l'
      assume sr: "s = (w, l)" "r = (w', l')"
      obtain as fin where "l' = (snd s @ f a) @ concat (map f as) @ fin" "F fin"
        using continue.IH s' sr by blast
      then show "\<exists>as fin. l' = l @ concat (map f as) @ fin \<and> F fin"
        using sr by (intro exI [of _ "a # as"] exI [of _ fin]) simp
    qed
  qed
  then show ?thesis using assms(1) by blast
qed

section \<open>Sending\<close>

definition io_delivery ::
  "proto_codec \<Rightarrow> callback \<Rightarrow> user_data \<Rightarrow> client_to_server \<Rightarrow> send_ret \<Rightarrow> task_event list" where
  "io_delivery P send u m r =
     (let buf = client_to_server_bytes P m
      in [TkReceived m, TkSend send buf (of_nat (length buf)) u r])"

definition io_final ::
  "proto_codec \<Rightarrow> chan \<Rightarrow> token \<Rightarrow> callback \<Rightarrow> user_data \<Rightarrow> task_event list \<Rightarrow> bool" where
  "io_final P c stop send u fin \<longleftrightarrow>
     fin = [TkStopSeen stop] \<or> fin = [TkEnded c]
     \<or> (\<exists>m r. r \<noteq> SendSuccess \<and> fin = io_delivery P send u m r)"

fun received_entry :: "chan \<Rightarrow> client_to_server option \<Rightarrow> task_event" where
  "received_entry c None = TkEnded c"
| "received_entry c (Some m) = TkReceived m"

fun request_entry :: "chan \<Rightarrow> dispatch_request option \<Rightarrow> task_event" where
  "request_entry c None = TkEnded c"
| "request_entry c (Some d) = TkRequest d"

lemma tk_recv_logged:
  "tk_recv (logged_tasks T) c (w, l) = (r, w', l') \<Longrightarrow>
     l' = l @ (case r of Pending \<Rightarrow> [] | Ready v \<Rightarrow> [received_entry c v])"
  by (auto simp: logged_tasks_def split: prod.splits poll.splits option.splits)

lemma tk_next_logged:
  "tk_next (logged_tasks T) c (w, l) = (r, w', l') \<Longrightarrow>
     l' = l @ (case r of Pending \<Rightarrow> [] | Ready v \<Rightarrow> [request_entry c v])"
  by (auto simp: logged_tasks_def split: prod.splits poll.splits option.splits)

lemma tk_calls_logged:
  "tk_send (logged_tasks T) cb b n u (w, l) = Some (r, w', l') \<Longrightarrow> l' = l @ [TkSend cb b n u r]"
  "tk_dispatch (logged_tasks T) cb i b n u (w, l) = Some (q, w', l') \<Longrightarrow> l' = l @ [TkDispatch cb i b n u q]"
  by (auto simp: logged_tasks_def)

lemma io_round_logged:
  assumes "io_round P (logged_tasks T) c stop send u (w, l) = Some (Ret x)"
  shows "(\<exists>m w1. x = Inl (w1, l @ io_delivery P send u m SendSuccess))
    \<or> (\<exists>fin w1. x = Inr (w1, l @ fin) \<and> io_final P c stop send u fin)"
proof -
  obtain v w1 l1 where sel: "block_on_select (logged_tasks T) stop (tk_recv (logged_tasks T) c) (w, l) = Some (Ret (v, w1, l1))"
    using assms by (auto simp: io_round_def comp_bind_eq_Ret)
  from block_on_select_logged [OF sel tk_recv_logged]
  have l1: "v = None \<and> l1 = l @ [TkStopSeen stop] \<or> l1 = l @ [received_entry c v]" .
  show ?thesis
  proof (cases v)
    case None
    then show ?thesis using assms sel l1 by (auto simp: io_round_def io_final_def)
  next
    case (Some m)
    let ?b = "client_to_server_bytes P m"
    obtain r w2 l2 where call: "tk_send (logged_tasks T) send ?b (of_nat (length ?b)) u (w1, l1) = Some (r, w2, l2)"
      using assms sel Some by (auto simp: io_round_def bind_eq_Some_conv Let_def)
    then have x: "x = (case r of SendSuccess \<Rightarrow> Inl (w2, l2) | _ \<Rightarrow> Inr (w2, l2))"
      using assms sel Some by (cases r) (simp_all add: io_round_def Let_def)
    have "l2 = l @ io_delivery P send u m r"
      using tk_calls_logged(1) [OF call] l1 Some by (simp add: io_delivery_def Let_def)
    then show ?thesis using x by (cases r) (auto simp: io_final_def)
  qed
qed

text \<open>
  A host whose send callback is closed after a number of messages and that has no handler for
  any request; the queues hold what is given and then end.
\<close>

record task_script =
  ts_messages :: "client_to_server list"
  ts_requests :: "dispatch_request list"
  ts_accepts :: nat

fun popped :: "'a list \<Rightarrow> 'a option poll \<times> 'a list" where
  "popped [] = (Ready None, [])"
| "popped (x # xs) = (Ready (Some x), xs)"

definition script_tasks :: "task_script task_env" where
  "script_tasks = \<lparr>
     tk_cancelled = (\<lambda>t w. (False, w)),
     tk_recv = (\<lambda>c w. case popped (ts_messages w) of (r, ms) \<Rightarrow> (r, w\<lparr>ts_messages := ms\<rparr>)),
     tk_next = (\<lambda>c w. case popped (ts_requests w) of (r, ds) \<Rightarrow> (r, w\<lparr>ts_requests := ds\<rparr>)),
     tk_park = (\<lambda>w. None),
     tk_send = (\<lambda>cb b n u w. case ts_accepts w of 0 \<Rightarrow> Some (SendClosed, w)
       | Suc k \<Rightarrow> Some (SendSuccess, w\<lparr>ts_accepts := k\<rparr>)),
     tk_dispatch = (\<lambda>cb i b n u w. Some (DispatchNoHandler, w)),
     tk_close = (\<lambda>c w. w),
     tk_dispatch_env = \<lparr>
       chan_new = (\<lambda>cap w. (0, w)), try_send = (\<lambda>c d w. (TrySent, w)), weak_upgrade = (\<lambda>c w. (True, w)),
       send_result = (\<lambda>c d w. Some (Ok (), w)), io_send = (\<lambda>m w. Some (Ok (), w)),
       stop_or_sleep = (\<lambda>t w. (False, w)), rand_fill = (\<lambda>w. (Ok (replicate 16 0), w)),
       load_metrics = (\<lambda>w. instance_metrics_default (build_version_from_build 1 0 0 [] None)),
       store_metrics = (\<lambda>m w. w)\<rparr>\<rparr>"

lemmas task_run_defs = io_round_def dispatch_round_def block_on_select_def select_round_def logged_tasks_def
  script_tasks_def Let_def comp_bind_def

definition sample_messages :: "client_to_server list" where
  "sample_messages = [DispatchResponse (CorrelationId 7) (WireResultError 1),
     DispatchResponse (CorrelationId 8) (WireResultError 1), DispatchResponse (CorrelationId 9) (WireResultError 1)]"

definition sample_io_log :: "task_event list" where
  "sample_io_log = [TkReceived (sample_messages ! 0), TkSend 8 [1] 1 0 SendSuccess,
     TkReceived (sample_messages ! 1), TkSend 8 [1] 1 0 SendClosed, TkClosed 2]"

lemma sample_io_run:
  "io_task tagging_codec (logged_tasks script_tasks) 2 3 8 0
     (\<lparr>ts_messages = sample_messages, ts_requests = [], ts_accepts = 1\<rparr>, [])
   = Some (Ret (\<lparr>ts_messages = [sample_messages ! 2], ts_requests = [], ts_accepts = 0\<rparr>, sample_io_log))"
proof -
  have "rust_loop (io_round tagging_codec (logged_tasks script_tasks) 2 3 8 0)
     (\<lparr>ts_messages = sample_messages, ts_requests = [], ts_accepts = 1\<rparr>, [])
   = Some (Ret (\<lparr>ts_messages = [sample_messages ! 2], ts_requests = [], ts_accepts = 0\<rparr>, butlast sample_io_log))"
    by (rule rust_loop_ends [of _ 2])
      (simp add: numeral_2_eq_2 task_run_defs sample_messages_def sample_io_log_def rust_loop.simps
        client_to_server_bytes_def tagging_codec_def)
  then show ?thesis by (simp add: io_task_def sample_io_log_def logged_tasks_def script_tasks_def)
qed

definition sample_dispatch_log :: "task_event list" where
  "sample_dispatch_log = [TkRequest sample_request, TkDispatch 9 7 [9] 1 0 DispatchNoHandler,
     TkResponse 5 \<lparr>res_correlation_id = CorrelationId 7, res_result = Err NoDispatchHandler\<rparr> (Ok ()),
     TkEnded 4, TkClosed 4]"

lemma sample_dispatch_run:
  "dispatch_task (logged_tasks script_tasks) (DispatchStream 4) (DispatchResponder 5) 6 9 0
     (\<lparr>ts_messages = [], ts_requests = [sample_request], ts_accepts = 0\<rparr>, [])
   = Some (Ret (\<lparr>ts_messages = [], ts_requests = [], ts_accepts = 0\<rparr>, sample_dispatch_log))"
proof -
  have "rust_loop (dispatch_round (logged_tasks script_tasks) (DispatchStream 4) (DispatchResponder 5) 6 9 0)
     (\<lparr>ts_messages = [], ts_requests = [sample_request], ts_accepts = 0\<rparr>, [])
   = Some (Ret (\<lparr>ts_messages = [], ts_requests = [], ts_accepts = 0\<rparr>, butlast sample_dispatch_log))"
    by (rule rust_loop_ends [of _ 2])
      (simp add: numeral_2_eq_2 task_run_defs sample_request_def sample_dispatch_log_def rust_loop.simps payload_len_def)
  then show ?thesis by (simp add: dispatch_task_def sample_dispatch_log_def logged_tasks_def script_tasks_def)
qed

text \<open>
  C12. The sending thread hands the host every message it takes from its queue, once, in order and
  in its wire form, with the length of that form. It ends by seeing its stop signal, by the
  end of the queue or by the first send that the host refuses, and makes no call after that;
  its last act is to close the queue, so that later sends of the library fail.
\<close>

theorem io_task_delivers_in_order:
  assumes "io_task P (logged_tasks T) lib2ffi stop send u (w, []) = Some (Ret (w', l))"
  shows "\<exists>ms fin. l = concat (map (\<lambda>m. io_delivery P send u m SendSuccess) ms) @ fin @ [TkClosed lib2ffi]
    \<and> io_final P lib2ffi stop send u fin"
proof -
  obtain w1 l1 where run: "rust_loop (io_round P (logged_tasks T) lib2ffi stop send u) (w, []) = Some (Ret (w1, l1))"
    and l: "l = l1 @ [TkClosed lib2ffi]"
    using assms by (auto simp: io_task_def comp_bind_eq_Ret logged_tasks_def)
  from rust_loop_chunks [OF run io_round_logged] l show ?thesis by auto
qed

theorem io_task_delivers_in_order_witness:
  "\<exists>ms fin. sample_io_log = concat (map (\<lambda>m. io_delivery tagging_codec 8 0 m SendSuccess) ms) @ fin @ [TkClosed 2]
     \<and> io_final tagging_codec 2 3 8 0 fin"
  using io_task_delivers_in_order [OF sample_io_run] .

section \<open>Dispatching\<close>

definition dispatch_call :: "callback \<Rightarrow> user_data \<Rightarrow> dispatch_request \<Rightarrow> dispatch_ret \<Rightarrow> task_event list" where
  "dispatch_call cb u d r =
     [TkRequest d, TkDispatch cb (correlation_id_get (dr_correlation_id d)) (payload_as_bytes (dr_payload d))
        (of_nat (payload_len (dr_payload d))) u r]"

definition refusal_response ::
  "chan \<Rightarrow> dispatch_request \<Rightarrow> dispatch_ret \<Rightarrow> unit + unit \<Rightarrow> task_event list" where
  "refusal_response tx d r out =
     (case dispatch_ret_error r of
        None \<Rightarrow> []
      | Some e \<Rightarrow> [TkResponse tx \<lparr>res_correlation_id = dr_correlation_id d, res_result = Err e\<rparr> out])"

definition dispatch_final ::
  "chan \<Rightarrow> chan \<Rightarrow> token \<Rightarrow> callback \<Rightarrow> user_data \<Rightarrow> task_event list \<Rightarrow> bool" where
  "dispatch_final c tx stop cb u fin \<longleftrightarrow>
     fin = [TkStopSeen stop] \<or> fin = [TkEnded c]
     \<or> (\<exists>d r. r \<noteq> DispatchSuccess \<and> fin = dispatch_call cb u d r @ refusal_response tx d r (Err ()))"

lemma dispatch_round_logged:
  assumes "dispatch_round (logged_tasks T) (DispatchStream c) (DispatchResponder tx) stop cb u (w, l) = Some (Ret x)"
  shows "(\<exists>p w1. x = Inl (w1, l @ (case p of (d, r) \<Rightarrow> dispatch_call cb u d r @ refusal_response tx d r (Ok ()))))
    \<or> (\<exists>fin w1. x = Inr (w1, l @ fin) \<and> dispatch_final c tx stop cb u fin)"
proof -
  obtain v w1 l1 where sel: "block_on_select (logged_tasks T) stop (tk_next (logged_tasks T) c) (w, l) = Some (Ret (v, w1, l1))"
    using assms by (auto simp: dispatch_round_def comp_bind_eq_Ret)
  from block_on_select_logged [OF sel tk_next_logged]
  have l1: "v = None \<and> l1 = l @ [TkStopSeen stop] \<or> l1 = l @ [request_entry c v]" .
  show ?thesis
  proof (cases v)
    case None
    then show ?thesis using assms sel l1 by (auto simp: dispatch_round_def dispatch_final_def)
  next
    case (Some d)
    let ?call = "tk_dispatch (logged_tasks T) cb (correlation_id_get (dr_correlation_id d))
        (payload_as_bytes (dr_payload d)) (of_nat (payload_len (dr_payload d))) u (w1, l1)"
    obtain r w2 l2 where call: "?call = Some (r, w2, l2)"
      using assms sel Some by (auto simp: dispatch_round_def bind_eq_Some_conv)
    have l2: "l2 = l @ dispatch_call cb u d r"
      using tk_calls_logged(2) [OF call] l1 Some by (simp add: dispatch_call_def)
    show ?thesis
    proof (cases "dispatch_ret_error r")
      case None
      then have "x = Inl (w2, l @ (case (d, r) of (d, r) \<Rightarrow> dispatch_call cb u d r @ refusal_response tx d r (Ok ())))"
        using assms sel call Some l2 by (simp add: dispatch_round_def refusal_response_def)
      then show ?thesis by blast
    next
      case (Some e)
      let ?v = "\<lparr>res_correlation_id = dr_correlation_id d, res_result = Err e\<rparr>"
      obtain r1 w3 l3 where resp: "send_response (tk_dispatch_env (logged_tasks T)) (DispatchResponder tx) ?v (w2, l2) = Some (r1, w3, l3)"
        using assms sel call \<open>v = Some d\<close> Some
        by (auto simp: dispatch_round_def bind_eq_Some_conv simp del: send_response.simps)
      then have x: "x = (case r1 of Inr _ \<Rightarrow> Inl (w3, l3) | Inl _ \<Rightarrow> Inr (w3, l3))"
        using assms sel call \<open>v = Some d\<close> Some
        by (cases r1) (simp_all add: dispatch_round_def del: send_response.simps)
      have l3: "l3 = l2 @ [TkResponse tx ?v (case r1 of Inr _ \<Rightarrow> Ok () | Inl _ \<Rightarrow> Err ())]"
        using resp by (auto simp: logged_tasks_def split: option.splits sum.splits)
      have r: "r \<noteq> DispatchSuccess" using Some by auto
      show ?thesis
      proof (cases r1)
        case (Inl a)
        then have "x = Inr (w3, l @ (dispatch_call cb u d r @ refusal_response tx d r (Err ())))"
          using x l2 l3 Some by (simp add: refusal_response_def)
        then show ?thesis using r by (auto simp: dispatch_final_def)
      next
        case (Inr b)
        then have "x = Inl (w3, l @ (case (d, r) of (d, r) \<Rightarrow> dispatch_call cb u d r @ refusal_response tx d r (Ok ())))"
          using x l2 l3 Some by (simp add: refusal_response_def)
        then show ?thesis by blast
      qed
    qed
  qed
qed

lemma dispatch_ret_error_None: "dispatch_ret_error r = None \<longleftrightarrow> r = DispatchSuccess"
  by (cases r) simp_all

lemma dispatch_ret_error_inj: "inj dispatch_ret_error"
proof (rule injI)
  show "x = y" if "dispatch_ret_error x = dispatch_ret_error y" for x y
    using that by (cases x; cases y) simp_all
qed

text \<open>
  C11. The dispatching thread calls the host once for each request it takes from its stream, in
  order, with the correlation identifier, the bytes and the length of that request. A request that
  the host accepts gets no answer from the thread, and every other one exactly one answer, the
  error of the returned value under the identifier of the request; different values have different
  errors. The thread ends
  by its stop signal, by the end of the stream or when such an answer cannot be given, and
  then closes the stream.
\<close>

theorem dispatch_task_answers_refusals:
  assumes "dispatch_task (logged_tasks T) (DispatchStream c) (DispatchResponder tx) stop cb u (w, []) = Some (Ret (w', l))"
  shows "\<exists>ds fin. l = concat (map (\<lambda>(d, r). dispatch_call cb u d r @ refusal_response tx d r (Ok ())) ds) @ fin @ [TkClosed c]
    \<and> dispatch_final c tx stop cb u fin
    \<and> (\<forall>r. dispatch_ret_error r = None \<longleftrightarrow> r = DispatchSuccess) \<and> inj dispatch_ret_error"
proof -
  obtain w1 l1 where run: "rust_loop (dispatch_round (logged_tasks T) (DispatchStream c) (DispatchResponder tx) stop cb u) (w, []) = Some (Ret (w1, l1))"
    and l: "l = l1 @ [TkClosed c]"
    using assms by (auto simp: dispatch_task_def comp_bind_eq_Ret logged_tasks_def)
  from rust_loop_chunks [OF run dispatch_round_logged] l show ?thesis
    using dispatch_ret_error_None dispatch_ret_error_inj by auto
qed

theorem dispatch_task_answers_refusals_witness:
  "\<exists>ds fin. sample_dispatch_log =
       concat (map (\<lambda>(d, r). dispatch_call 9 0 d r @ refusal_response 5 d r (Ok ())) ds) @ fin @ [TkClosed 4]
     \<and> dispatch_final 4 5 6 9 0 fin"
  using dispatch_task_answers_refusals [OF sample_dispatch_run] by blast

end
