(* ===== verification/FFI_Ctx.thy ===== *)
theory FFI_Ctx
  imports FFI_Tasks
begin

text \<open>
  The library context of the C interface and its log sink: \<open>ctx.rs\<close> and \<open>log_sink.rs\<close> of
  \<open>rc-x509-ffi\<close>. A context owns the worker thread that runs the library. Threads, channels and
  the asynchronous runtime are the parameter \<open>'w ctx_env\<close>; the subscriber that the log sink
  installs is the parameter \<open>('f, 'w) tracing_lib\<close>.
\<close>

section \<open>The context\<close>

type_synonym thread = nat
type_synonym runtime_handle = nat

record 'w ctx_env =
  cx_unbounded :: "'w \<Rightarrow> chan \<times> 'w"
  cx_spawn_worker :: "main \<Rightarrow> shutdown_signal \<Rightarrow> chan \<Rightarrow> 'w \<Rightarrow> (unit + thread) \<times> 'w"
  cx_recv_handle :: "'w \<Rightarrow> ((unit + runtime_handle) \<times> 'w) option"
  cx_drop_sender :: "chan \<Rightarrow> 'w \<Rightarrow> 'w"
  cx_join :: "thread \<Rightarrow> 'w \<Rightarrow> ((unit + unit) \<times> 'w) option"
  cx_build_runtime :: "'w \<Rightarrow> (unit + runtime_handle) \<times> 'w"
  cx_send_handle :: "runtime_handle \<Rightarrow> 'w \<Rightarrow> (unit + unit) \<times> 'w"
  cx_shutdown_timeout :: "duration \<Rightarrow> 'w \<Rightarrow> 'w"

record ctx =
  cx_runtime_thread :: thread
  cx_runtime_handle :: runtime_handle
  cx_shutdown :: shutdown_ctl
  cx_connection_events :: chan

text \<open>The closure of the worker thread, for the entrypoint it is given.\<close>

definition worker_thread ::
  "'w ctx_env \<Rightarrow> (shutdown_signal \<Rightarrow> 'w \<Rightarrow> 'w comp) \<Rightarrow> shutdown_signal \<Rightarrow> 'w \<Rightarrow> 'w comp" where
  "worker_thread C entrypoint signal w =
     (case cx_build_runtime C w of
        (r, w1) \<Rightarrow>
          comp_bind (Some (expect r ''tokio runtime init for rc-x509-client'' Ret)) (\<lambda>handle.
            case cx_send_handle C handle w1 of
              (s, w2) \<Rightarrow>
                comp_bind (Some (expect s ''handle transfer tx'' Ret)) (\<lambda>_.
                  comp_bind (entrypoint signal w2) (\<lambda>w3.
                    done_with (cx_shutdown_timeout C GRACEFUL_SHUTDOWN_TIMEOUT w3)))))"

definition ctx_new ::
  "'w ctx_env \<Rightarrow> (io_handle, 'v, 'w) runtime \<Rightarrow> main \<Rightarrow> 'w \<Rightarrow> (ctx \<times> 'w) comp" where
  "ctx_new C R main w =
     (case shutdown_signal_new R w of
        ((signal, shutdown), w1) \<Rightarrow>
          (case cx_unbounded C w1 of
             (connection_events, w2) \<Rightarrow>
               (case cx_spawn_worker C main signal connection_events w2 of
                  (r, w3) \<Rightarrow>
                    comp_bind (Some (expect r ''failed to spawn worker thread for rc-x509-client'' Ret))
                      (\<lambda>runtime_thread.
                        Option.bind (cx_recv_handle C w3) (\<lambda>(h, w4).
                          comp_bind (Some (expect h ''handle transfer rx'' Ret)) (\<lambda>runtime_handle.
                            done_with (\<lparr>cx_runtime_thread = runtime_thread,
                              cx_runtime_handle = runtime_handle, cx_shutdown = shutdown,
                              cx_connection_events = connection_events\<rparr>, w4)))))))"

definition ctx_shutdown :: "'w ctx_env \<Rightarrow> (io_handle, 'v, 'w) runtime \<Rightarrow> ctx \<Rightarrow> 'w \<Rightarrow> 'w comp" where
  "ctx_shutdown C R self w =
     (let w1 = shutdown_now R (cx_shutdown self) w;
          w2 = cx_drop_sender C (cx_connection_events self) w1
      in Option.bind (cx_join C (cx_runtime_thread self) w2) (\<lambda>(r, w3).
           Some (expect r ''rc-x509-client worker thread panic'' (\<lambda>_. Ret w3))))"

text \<open>A connection works on the runtime handle and the event channel of its context.\<close>

definition ctx_new_connection ::
  "(runtime_handle \<Rightarrow> chan \<Rightarrow> 'w ffi_env) \<Rightarrow> ctx \<Rightarrow> callback \<Rightarrow> user_data \<Rightarrow> 'w
     \<Rightarrow> (ffi_connection \<times> 'w) run" where
  "ctx_new_connection Fs self dispatch dispatch_user_data w =
     ffi_connection_new (Fs (cx_runtime_handle self) (cx_connection_events self)) dispatch dispatch_user_data w"

section \<open>The calls of the host\<close>

record ctx_heap =
  ch_ctxs :: "nat \<Rightarrow> ctx option"
  ch_next :: nat

definition rc_init ::
  "'w ctx_env \<Rightarrow> (io_handle, 'v, 'w) runtime \<Rightarrow> bytes option \<Rightarrow> bytes option \<Rightarrow> ctx_heap \<times> 'w
     \<Rightarrow> (nat \<times> ctx_heap \<times> 'w) comp" where
  "rc_init C R app_name version = (\<lambda>(h, w).
     with_data app_name ''app_name'' (\<lambda>app_name.
     with_data version ''version'' (\<lambda>version.
       comp_bind (Some (expect (from_utf8 app_name) ''app_name must be valid UTF-8'' Ret)) (\<lambda>app_name.
       comp_bind (Some (expect (from_utf8 version) ''version must be valid UTF-8'' Ret)) (\<lambda>version.
       comp_bind (ctx_new C R (Main (app_info_new app_name version)) w) (\<lambda>(ctx, w').
         done_with (ch_next h, h\<lparr>ch_ctxs := (ch_ctxs h)(ch_next h := Some ctx), ch_next := Suc (ch_next h)\<rparr>, w')))))))"

definition rc_free ::
  "'w ctx_env \<Rightarrow> (io_handle, 'v, 'w) runtime \<Rightarrow> nat \<Rightarrow> ctx_heap \<times> 'w \<Rightarrow> (ctx_heap \<times> 'w) comp" where
  "rc_free C R ctx = (\<lambda>(h, w).
     if ctx = 0 then Some (Panic ''assertion failed: !ctx.is_null()'')
     else
       (case ch_ctxs h ctx of
          None \<Rightarrow> Some (Panic dangling)
        | Some c \<Rightarrow>
            comp_bind (ctx_shutdown C R c w) (\<lambda>w'.
              done_with (h\<lparr>ch_ctxs := (ch_ctxs h)(ctx := None)\<rparr>, w'))))"

section \<open>The worker of a context\<close>

datatype ctx_event =
    CxSpawn main shutdown_signal chan thread
  | CxCancel token
  | CxDropSender chan
  | CxJoin thread

definition logged_ctx :: "'w ctx_env \<Rightarrow> ('w \<times> ctx_event list) ctx_env" where
  "logged_ctx C = \<lparr>
     cx_unbounded = (\<lambda>(w, l). let (c, w') = cx_unbounded C w in (c, w', l)),
     cx_spawn_worker = (\<lambda>m s c (w, l). let (r, w') = cx_spawn_worker C m s c w in
       (r, w', case r of Inr k \<Rightarrow> l @ [CxSpawn m s c k] | Inl _ \<Rightarrow> l)),
     cx_recv_handle = (\<lambda>(w, l). map_option (\<lambda>(r, w'). (r, w', l)) (cx_recv_handle C w)),
     cx_drop_sender = (\<lambda>c (w, l). (cx_drop_sender C c w, l @ [CxDropSender c])),
     cx_join = (\<lambda>k (w, l). map_option (\<lambda>(r, w'). (r, w', l @ [CxJoin k])) (cx_join C k w)),
     cx_build_runtime = (\<lambda>(w, l). let (r, w') = cx_build_runtime C w in (r, w', l)),
     cx_send_handle = (\<lambda>k (w, l). let (r, w') = cx_send_handle C k w in (r, w', l)),
     cx_shutdown_timeout = (\<lambda>d (w, l). (cx_shutdown_timeout C d w, l))\<rparr>"

definition logged_tokens ::
  "(io_handle, 'v, 'w) runtime \<Rightarrow> (io_handle, 'v, 'w \<times> ctx_event list) runtime" where
  "logged_tokens R = \<lparr>
     token_new = (\<lambda>(w, l). let (t, w') = token_new R w in (t, w', l)),
     token_child = (\<lambda>t (w, l). let (c, w') = token_child R t w in (c, w', l)),
     token_cancel = (\<lambda>t (w, l). (token_cancel R t w, l @ [CxCancel t])),
     token_wait = (\<lambda>t (w, l). map_option (\<lambda>w'. (w', l)) (token_wait R t w)),
     event_or_stop = (\<lambda>t (w, l). map_option (\<lambda>(x, w'). (x, w', l)) (event_or_stop R t w)),
     spawn_actor = (\<lambda>io a (w, l). let (k, w') = spawn_actor R io a w in (k, w', l)),
     spawn_events = (\<lambda>t i v (w, l). let (k, w') = spawn_events R t i v w in (k, w', l)),
     task_join = (\<lambda>k (w, l). map_option (\<lambda>(r, w'). (r, w', l)) (task_join R k w)),
     task_abort = (\<lambda>k (w, l). (task_abort R k w, l)),
     metrics_init = (\<lambda>m (w, l). (metrics_init R m w, l))\<rparr>"

lemma ctx_new_logged:
  assumes "ctx_new (logged_ctx C) (logged_tokens R) m (w, l) = Some (Ret (c, w', l'))"
  obtains t where "cx_shutdown c = ShutdownCtl t"
    and "l' = l @ [CxSpawn m (ShutdownSignal t) (cx_connection_events c) (cx_runtime_thread c)]"
  using assms
  by (auto simp: ctx_new_def shutdown_signal_new_def logged_ctx_def logged_tokens_def outcome_simps
      bind_eq_Some_conv split: prod.splits)

lemma ctx_shutdown_logged:
  assumes "ctx_shutdown (logged_ctx C) (logged_tokens R) c (w, l) = Some (Ret (w', l'))"
    and "cx_shutdown c = ShutdownCtl t"
  shows "l' = l @ [CxCancel t, CxCancel t, CxDropSender (cx_connection_events c), CxJoin (cx_runtime_thread c)]"
  using assms
  by (auto simp: ctx_shutdown_def logged_ctx_def logged_tokens_def outcome_simps bind_eq_Some_conv Let_def)

text \<open>
  C16. Initialisation starts one worker, for the application it is given. Release of the same context
  cancels the very signal that this worker was started with, closes the sending half of its event
  channel and only then waits for this worker; the context is gone once the call has returned.
\<close>

theorem ctx_release_stops_worker:
  assumes "rc_init (logged_ctx C) (logged_tokens R) (Some name) (Some version) (h, w, []) = Some (Ret (p, h1, w1, l1))"
    and "rc_free (logged_ctx C) (logged_tokens R) p (h1, w2, l1) = Some (Ret (h2, w3, l2))"
  shows "\<exists>info t c k. l1 = [CxSpawn (Main info) (ShutdownSignal t) c k]
    \<and> from_utf8 name = Ok (case ai_name info of AppName s \<Rightarrow> s)
    \<and> from_utf8 version = Ok (case ai_version info of AppVersion s \<Rightarrow> s)
    \<and> l2 = l1 @ [CxCancel t, CxCancel t, CxDropSender c, CxJoin k]
    \<and> ch_ctxs h2 p = None"
proof -
  obtain n v c where utf8: "from_utf8 name = Ok n" "from_utf8 version = Ok v"
    and new: "ctx_new (logged_ctx C) (logged_tokens R) (Main (app_info_new n v)) (w, []) = Some (Ret (c, w1, l1))"
    and h1: "ch_ctxs h1 p = Some c"
    using assms(1) by (auto simp: rc_init_def with_data_def outcome_simps)
  obtain t where t: "cx_shutdown c = ShutdownCtl t"
    "l1 = [CxSpawn (Main (app_info_new n v)) (ShutdownSignal t) (cx_connection_events c) (cx_runtime_thread c)]"
    using ctx_new_logged [OF new] by auto
  have stop: "ctx_shutdown (logged_ctx C) (logged_tokens R) c (w2, l1) = Some (Ret (w3, l2))"
    and h2: "ch_ctxs h2 p = None"
    using assms(2) h1 by (auto simp: rc_free_def outcome_simps split: if_splits)
  show ?thesis using utf8 t h2 ctx_shutdown_logged [OF stop t(1)] by (auto simp: app_info_new_def)
qed

definition numbering_ctx :: "nat ctx_env" where
  "numbering_ctx = \<lparr>
     cx_unbounded = numbering, cx_spawn_worker = (\<lambda>m s c w. case numbering w of (k, w') \<Rightarrow> (Ok k, w')),
     cx_recv_handle = (\<lambda>w. case numbering w of (k, w') \<Rightarrow> Some (Ok k, w')), cx_drop_sender = (\<lambda>c w. w),
     cx_join = (\<lambda>k w. Some (Ok (), w)),
     cx_build_runtime = (\<lambda>w. case numbering w of (k, w') \<Rightarrow> (Ok k, w')),
     cx_send_handle = (\<lambda>k w. (Ok (), w)), cx_shutdown_timeout = (\<lambda>d w. w)\<rparr>"

definition numbering_runtime :: "(io_handle, unit, nat) runtime" where
  "numbering_runtime = \<lparr>
     token_new = numbering, token_child = (\<lambda>t. numbering), token_cancel = (\<lambda>t w. w), token_wait = (\<lambda>t w. Some w),
     event_or_stop = (\<lambda>t w. Some (Inr (), w)), spawn_actor = (\<lambda>io a. numbering),
     spawn_events = (\<lambda>t i v. numbering), task_join = (\<lambda>k w. Some (Ok (), w)), task_abort = (\<lambda>k w. w),
     metrics_init = (\<lambda>m w. w)\<rparr>"

theorem ctx_release_stops_worker_witness:
  "\<exists>h1 h2 l1 l2 info t c k.
     rc_init (logged_ctx numbering_ctx) (logged_tokens numbering_runtime) (Some []) (Some [])
       (\<lparr>ch_ctxs = (\<lambda>_. None), ch_next = 1\<rparr>, 0, []) = Some (Ret (1, h1, 4, l1))
   \<and> rc_free (logged_ctx numbering_ctx) (logged_tokens numbering_runtime) 1 (h1, 4, l1) = Some (Ret (h2, 4, l2))
   \<and> l2 = [CxSpawn (Main info) (ShutdownSignal t) c k, CxCancel t, CxCancel t, CxDropSender c, CxJoin k]"
proof -
  let ?c = "\<lparr>cx_runtime_thread = 2, cx_runtime_handle = 3, cx_shutdown = ShutdownCtl 0, cx_connection_events = 1\<rparr>"
  let ?s = "CxSpawn (Main (app_info_new [] [])) (ShutdownSignal 0) 1 2"
  have i: "rc_init (logged_ctx numbering_ctx) (logged_tokens numbering_runtime) (Some []) (Some [])
       (\<lparr>ch_ctxs = (\<lambda>_. None), ch_next = 1\<rparr>, 0, []) = Some (Ret (1, \<lparr>ch_ctxs = [1 \<mapsto> ?c], ch_next = 2\<rparr>, 4, [?s]))"
    by (simp add: rc_init_def with_data_def from_utf8_def ctx_new_def shutdown_signal_new_def logged_ctx_def
        logged_tokens_def numbering_ctx_def numbering_runtime_def numbering_def eval_nat_numeral)
  have f: "rc_free (logged_ctx numbering_ctx) (logged_tokens numbering_runtime) 1
       (\<lparr>ch_ctxs = [1 \<mapsto> ?c], ch_next = 2\<rparr>, 4, [?s])
     = Some (Ret (\<lparr>ch_ctxs = Map.empty, ch_next = 2\<rparr>, 4, [?s, CxCancel 0, CxCancel 0, CxDropSender 1, CxJoin 2]))"
    by (simp add: rc_free_def ctx_shutdown_def Let_def logged_ctx_def logged_tokens_def numbering_ctx_def
        numbering_runtime_def)
  from ctx_release_stops_worker [OF i f] i f show ?thesis by auto
qed

section \<open>The log sink\<close>

datatype log_sink_ret = LogSinkSuccess | LogSinkAlreadySet | LogSinkUnsupported

type_synonym fd = int

record ('f, 'w) tracing_lib =
  tr_filter_from_env :: "string \<Rightarrow> 'w \<Rightarrow> unit + 'f"
  tr_filter_new :: "string \<Rightarrow> 'f"
  tr_set_global_default :: "fd \<Rightarrow> 'f \<Rightarrow> 'w \<Rightarrow> (unit + unit) \<times> 'w"

definition install_subscriber :: "('f, 'w) tracing_lib \<Rightarrow> fd \<Rightarrow> 'w \<Rightarrow> 'w run" where
  "install_subscriber G f w =
     (let env_filter = (case tr_filter_from_env G ''RC_LOG'' w of
            Inr flt \<Rightarrow> flt | Inl _ \<Rightarrow> tr_filter_new G ''info'')
      in case tr_set_global_default G f env_filter w of
           (r, w') \<Rightarrow> expect r ''no global tracing subscriber installed prior to rc_enable_log_sink'' (\<lambda>_. Ret w'))"

text \<open>The state is the flag \<open>LOG_SINK_INSTALLED\<close> of the process.\<close>

definition LOG_SINK_INSTALLED :: bool where
  "LOG_SINK_INSTALLED = False"

definition enable_log_sink ::
  "('f, 'w) tracing_lib \<Rightarrow> fd \<Rightarrow> bool \<times> 'w \<Rightarrow> (log_sink_ret \<times> bool \<times> 'w) run" where
  "enable_log_sink G f = (\<lambda>(installed, w).
     if installed then Ret (LogSinkAlreadySet, installed, w)
     else run_bind (install_subscriber G f w) (\<lambda>w'. Ret (LogSinkSuccess, True, w')))"

definition rc_enable_log_sink ::
  "('f, 'w) tracing_lib \<Rightarrow> fd \<Rightarrow> bool \<times> 'w \<Rightarrow> (log_sink_ret \<times> bool \<times> 'w) run" where
  "rc_enable_log_sink G f x = enable_log_sink G f x"

fun enable_all ::
  "('f, 'w) tracing_lib \<Rightarrow> fd list \<Rightarrow> bool \<times> 'w \<Rightarrow> (log_sink_ret list \<times> bool \<times> 'w) run" where
  "enable_all G [] x = Ret ([], x)"
| "enable_all G (f # fs) x =
     run_bind (rc_enable_log_sink G f x) (\<lambda>(r, y).
       run_bind (enable_all G fs y) (\<lambda>(rs, z). Ret (r # rs, z)))"

lemma enable_all_installed:
  "enable_all G fs (True, w) = Ret (replicate (length fs) LogSinkAlreadySet, True, w)"
  by (induction fs) (simp_all add: rc_enable_log_sink_def enable_log_sink_def)

text \<open>
  In a process the log sink is installed at most once: of any calls, the first one installs its
  descriptor, under the level of the environment or else \<open>info\<close>, and every later one is
  told so and changes nothing; a descriptor is therefore given up by exactly one caller.
\<close>

lemma log_sink_installed_once:
  assumes "install_subscriber G f w = Ret w'"
  shows "enable_all G (f # fs) (LOG_SINK_INSTALLED, w)
      = Ret (LogSinkSuccess # replicate (length fs) LogSinkAlreadySet, True, w')
    \<and> (\<exists>flt. (tr_filter_from_env G ''RC_LOG'' w = Ok flt
           \<or> tr_filter_from_env G ''RC_LOG'' w = Err () \<and> flt = tr_filter_new G ''info'')
         \<and> tr_set_global_default G f flt w = (Ok (), w'))"
proof
  show "enable_all G (f # fs) (LOG_SINK_INSTALLED, w)
      = Ret (LogSinkSuccess # replicate (length fs) LogSinkAlreadySet, True, w')"
    using assms by (simp add: rc_enable_log_sink_def enable_log_sink_def LOG_SINK_INSTALLED_def enable_all_installed)
  show "\<exists>flt. (tr_filter_from_env G ''RC_LOG'' w = Ok flt
           \<or> tr_filter_from_env G ''RC_LOG'' w = Err () \<and> flt = tr_filter_new G ''info'')
         \<and> tr_set_global_default G f flt w = (Ok (), w')"
    using assms by (cases "tr_filter_from_env G ''RC_LOG'' w")
      (auto simp: install_subscriber_def Let_def expect_eq_Ret split: prod.splits)
qed

lemma log_sink_installed_once_witness:
  "let G = \<lparr>tr_filter_from_env = (\<lambda>v w. Err ()), tr_filter_new = (\<lambda>s. s),
       tr_set_global_default = (\<lambda>f flt w. (Ok (), w @ [(f, flt)]))\<rparr>
   in enable_all G [5, 6, 7] (LOG_SINK_INSTALLED, [])
      = Ret ([LogSinkSuccess, LogSinkAlreadySet, LogSinkAlreadySet], True, [(5, ''info'')])"
proof -
  let ?G = "\<lparr>tr_filter_from_env = (\<lambda>v (w :: (fd \<times> string) list). Err ()), tr_filter_new = (\<lambda>s. s),
    tr_set_global_default = (\<lambda>f flt w. (Ok (), w @ [(f, flt)]))\<rparr>"
  have "install_subscriber ?G 5 [] = Ret [(5, ''info'')]" by (simp add: install_subscriber_def)
  from log_sink_installed_once [OF this, of "[6, 7]"] show ?thesis by (simp add: Let_def numeral_2_eq_2)
qed

end
