(* ===== verification/Go_Pool.thy ===== *)
theory Go_Pool
  imports FFI_Connection "HOL-Library.Multiset"
begin

text \<open>
  The handler pool of the Go host: \<open>invokepool.go\<close> of \<open>internal/libddrcffi\<close>. Eight worker
  goroutines, one watcher goroutine for every handler call, the callers of \<open>enqueue\<close> and the one
  caller of \<open>shutdown\<close> run concurrently, so a pool is a state with actions: each action is
  the part of one function between two points at which another goroutine can interfere (a
  channel operation, a lock, an atomic swap, a call of the sink or of the handler, an operation
  on the wait group). A handler is any code: it returns, panics or does neither. The deadline of a
  handler's context may pass at any time.
\<close>

section \<open>Jobs and calls\<close>

definition dispatchQueueCap :: nat where
  "dispatchQueueCap = 100"

definition invokeWorkerCount :: nat where
  "invokeWorkerCount = 8"

record 'h dispatch_job =
  dj_correlationID :: u64
  dj_handler :: 'h
  dj_request :: bytes

text \<open>An error of Go is its message.\<close>

record go_dispatch_result =
  gr_correlationID :: u64
  gr_response :: bytes
  gr_err :: "string option"

text \<open>The calls of the interface \<open>resultSink\<close>.\<close>

datatype sink_call =
    SendDispatchResult go_dispatch_result
  | SendDispatchError u64 dispatch_host_error

definition DispatchErrorTimeout :: dispatch_host_error where
  "DispatchErrorTimeout = HostHandlerExecTimeout"

datatype outcome = HandlerReturns bytes "string option" | HandlerPanics string

text \<open>
  Where the worker is in a call of \<open>invokeJob\<close>: the handler runs, has returned, has panicked, has
  panicked with the context already cancelled, has lost against the deadline, or has won and the
  result is to be sent, was sent, and was released in the wait group.
\<close>

datatype call_phase =
    Calling
  | Returned bytes "string option"
  | Panicking string
  | Recovering string
  | LostToDeadline
  | Sending bytes "string option"
  | Releasing bytes "string option"
  | Finished bytes "string option"

text \<open>Where the watcher of the call is.\<close>

datatype watch_phase = Watching | WatchLost | Reporting | WatchReleasing | WatchFinished

record 'h invocation =
  iv_job :: "'h dispatch_job"
  iv_completed :: bool
  iv_expired :: bool
  iv_cancelled :: bool
  iv_call :: call_phase
  iv_watch :: watch_phase

definition new_invocation :: "'h dispatch_job \<Rightarrow> 'h invocation" where
  "new_invocation job = \<lparr>iv_job = job, iv_completed = False, iv_expired = False, iv_cancelled = False,
     iv_call = Calling, iv_watch = Watching\<rparr>"

section \<open>The pool\<close>

text \<open>A worker waits for a job, is in a call, or has returned; the flag tells the drain from the loop.\<close>

datatype worker = Polling bool | Busy bool nat | Exited

datatype shutdown_phase = NotShut | ShutStopping | ShutWaiting | ShutReturned

text \<open>
  \<open>ip_adding\<close> is the lock \<open>dispatchMu\<close> held by an \<open>enqueue\<close> whose job is in the queue and not yet
  counted. The calls that reached the sink, the accepted jobs and the calls so far are
  recorded; a negative wait group is a panic that ends the process.
\<close>

record 'h invoke_pool =
  ip_dispatchQueue :: "'h dispatch_job list"
  ip_stop :: bool
  ip_accepting :: bool
  ip_adding :: bool
  ip_wg :: int
  ip_workers :: "worker list"
  ip_calls :: "'h invocation list"
  ip_shutdown :: shutdown_phase
  ip_sink :: "sink_call list"
  ip_accepted :: "'h dispatch_job list"
  ip_crashed :: bool

definition new_invoke_pool :: "'h invoke_pool" where
  "new_invoke_pool = \<lparr>ip_dispatchQueue = [], ip_stop = False, ip_accepting = True, ip_adding = False,
     ip_wg = 0, ip_workers = [], ip_calls = [], ip_shutdown = NotShut, ip_sink = [], ip_accepted = [],
     ip_crashed = False\<rparr>"

definition pool_start :: "'h invoke_pool \<Rightarrow> 'h invoke_pool" where
  "pool_start p = p\<lparr>ip_workers := replicate invokeWorkerCount (Polling False)\<rparr>"

definition wg_add :: "int \<Rightarrow> 'h invoke_pool \<Rightarrow> 'h invoke_pool" where
  "wg_add d p = p\<lparr>ip_wg := ip_wg p + d, ip_crashed := ip_crashed p \<or> ip_wg p + d < 0\<rparr>"

definition upd_call :: "nat \<Rightarrow> ('h invocation \<Rightarrow> 'h invocation) \<Rightarrow> 'h invoke_pool \<Rightarrow> 'h invoke_pool" where
  "upd_call k f p = p\<lparr>ip_calls := (ip_calls p)[k := f (ip_calls p ! k)]\<rparr>"

definition set_worker :: "nat \<Rightarrow> worker \<Rightarrow> 'h invoke_pool \<Rightarrow> 'h invoke_pool" where
  "set_worker i v p = p\<lparr>ip_workers := (ip_workers p)[i := v]\<rparr>"

text \<open>\<open>enqueue\<close> up to the send, with its answer, and from the send to its return.\<close>

definition enqueue :: "'h dispatch_job \<Rightarrow> 'h invoke_pool \<Rightarrow> (bool \<times> 'h invoke_pool) option" where
  "enqueue job p =
     (if ip_adding p then None
      else if \<not> ip_accepting p then Some (False, p)
      else if length (ip_dispatchQueue p) < dispatchQueueCap
      then Some (True, p\<lparr>ip_dispatchQueue := ip_dispatchQueue p @ [job], ip_adding := True,
                        ip_accepted := ip_accepted p @ [job]\<rparr>)
      else Some (False, p))"

definition enqueue_add :: "'h invoke_pool \<Rightarrow> 'h invoke_pool option" where
  "enqueue_add p = (if ip_adding p then Some ((wg_add 1 p)\<lparr>ip_adding := False\<rparr>) else None)"

definition shutdown_refuse :: "'h invoke_pool \<Rightarrow> 'h invoke_pool option" where
  "shutdown_refuse p =
     (if ip_shutdown p = NotShut \<and> \<not> ip_adding p
      then Some (p\<lparr>ip_accepting := False, ip_shutdown := ShutStopping\<rparr>) else None)"

definition shutdown_close :: "'h invoke_pool \<Rightarrow> 'h invoke_pool option" where
  "shutdown_close p =
     (if ip_shutdown p = ShutStopping then Some (p\<lparr>ip_stop := True, ip_shutdown := ShutWaiting\<rparr>) else None)"

definition shutdown_wait :: "'h invoke_pool \<Rightarrow> 'h invoke_pool option" where
  "shutdown_wait p =
     (if ip_shutdown p = ShutWaiting \<and> ip_wg p = 0 then Some (p\<lparr>ip_shutdown := ShutReturned\<rparr>) else None)"

text \<open>The workers: receive in the loop or in the drain, see the stop, find the queue empty.\<close>

definition invokeWorker_recv :: "nat \<Rightarrow> 'h invoke_pool \<Rightarrow> 'h invoke_pool option" where
  "invokeWorker_recv i p =
     (if i < length (ip_workers p) then
        (case (ip_workers p ! i, ip_dispatchQueue p) of
           (Polling d, job # q) \<Rightarrow>
             Some (set_worker i (Busy d (length (ip_calls p)))
               (p\<lparr>ip_dispatchQueue := q, ip_calls := ip_calls p @ [new_invocation job]\<rparr>))
         | _ \<Rightarrow> None)
      else None)"

definition invokeWorker_stop :: "nat \<Rightarrow> 'h invoke_pool \<Rightarrow> 'h invoke_pool option" where
  "invokeWorker_stop i p =
     (if i < length (ip_workers p) \<and> ip_workers p ! i = Polling False \<and> ip_stop p
      then Some (set_worker i (Polling True) p) else None)"

definition drainDispatchQueue_end :: "nat \<Rightarrow> 'h invoke_pool \<Rightarrow> 'h invoke_pool option" where
  "drainDispatchQueue_end i p =
     (if i < length (ip_workers p) \<and> ip_workers p ! i = Polling True \<and> ip_dispatchQueue p = []
      then Some (set_worker i Exited p) else None)"

text \<open>A step of the call that worker \<open>i\<close> is in.\<close>

definition on_call ::
  "nat \<Rightarrow> (bool \<Rightarrow> nat \<Rightarrow> 'h invocation \<Rightarrow> 'h invoke_pool option) \<Rightarrow> 'h invoke_pool \<Rightarrow> 'h invoke_pool option" where
  "on_call i f p =
     (if i < length (ip_workers p) then
        (case ip_workers p ! i of Busy d k \<Rightarrow> f d k (ip_calls p ! k) | _ \<Rightarrow> None)
      else None)"

definition handler_ends :: "nat \<Rightarrow> outcome \<Rightarrow> 'h invoke_pool \<Rightarrow> 'h invoke_pool option" where
  "handler_ends i out p = on_call i (\<lambda>d k c.
     if iv_call c = Calling then
       Some (upd_call k (\<lambda>c. c\<lparr>iv_call := (case out of
          HandlerReturns response err \<Rightarrow> Returned response err | HandlerPanics r \<Rightarrow> Panicking r)\<rparr>) p)
     else None) p"

text \<open>
  The end of \<open>invokeHandler\<close> after a return: the swap, and the deferred cancellation of the context.
\<close>

definition invokeHandler_return :: "nat \<Rightarrow> 'h invoke_pool \<Rightarrow> 'h invoke_pool option" where
  "invokeHandler_return i p = on_call i (\<lambda>d k c.
     case iv_call c of
       Returned response err \<Rightarrow>
         Some (upd_call k (\<lambda>c. c\<lparr>iv_completed := True, iv_cancelled := True,
            iv_call := (if iv_completed c then LostToDeadline else Sending response err)\<rparr>) p)
     | _ \<Rightarrow> None) p"

text \<open>
  After a panic the deferred functions run in the reverse order of their registration: first the
  cancellation, then the function that recovers and swaps.
\<close>

definition invokeHandler_cancel :: "nat \<Rightarrow> 'h invoke_pool \<Rightarrow> 'h invoke_pool option" where
  "invokeHandler_cancel i p = on_call i (\<lambda>d k c.
     case iv_call c of
       Panicking r \<Rightarrow> Some (upd_call k (\<lambda>c. c\<lparr>iv_cancelled := True, iv_call := Recovering r\<rparr>) p)
     | _ \<Rightarrow> None) p"

definition invokeHandler_recover :: "nat \<Rightarrow> 'h invoke_pool \<Rightarrow> 'h invoke_pool option" where
  "invokeHandler_recover i p = on_call i (\<lambda>d k c.
     case iv_call c of
       Recovering r \<Rightarrow>
         Some (upd_call k (\<lambda>c. c\<lparr>iv_completed := True,
            iv_call := (if iv_completed c then LostToDeadline
              else Sending [] (Some (''ddrc: dispatch handler panicked: '' @ r)))\<rparr>) p)
     | _ \<Rightarrow> None) p"

text \<open>The rest of \<open>invokeJob\<close>.\<close>

definition invokeJob_timeout :: "nat \<Rightarrow> 'h invoke_pool \<Rightarrow> 'h invoke_pool option" where
  "invokeJob_timeout i p = on_call i (\<lambda>d k c.
     if iv_call c = LostToDeadline then Some (set_worker i (Polling d) p) else None) p"

definition invokeJob_send :: "nat \<Rightarrow> 'h invoke_pool \<Rightarrow> 'h invoke_pool option" where
  "invokeJob_send i p = on_call i (\<lambda>d k c.
     case iv_call c of
       Sending response err \<Rightarrow>
         Some ((upd_call k (\<lambda>c. c\<lparr>iv_call := Releasing response err\<rparr>) p)\<lparr>ip_sink := ip_sink p @
           [SendDispatchResult \<lparr>gr_correlationID = dj_correlationID (iv_job c), gr_response = response, gr_err = err\<rparr>]\<rparr>)
     | _ \<Rightarrow> None) p"

definition invokeJob_done :: "nat \<Rightarrow> 'h invoke_pool \<Rightarrow> 'h invoke_pool option" where
  "invokeJob_done i p = on_call i (\<lambda>d k c.
     case iv_call c of
       Releasing response err \<Rightarrow>
         Some (set_worker i (Polling d) (wg_add (- 1) (upd_call k (\<lambda>c. c\<lparr>iv_call := Finished response err\<rparr>) p)))
     | _ \<Rightarrow> None) p"

text \<open>The deadline of a call, and its watcher.\<close>

definition on_watch ::
  "nat \<Rightarrow> ('h invocation \<Rightarrow> 'h invoke_pool option) \<Rightarrow> 'h invoke_pool \<Rightarrow> 'h invoke_pool option" where
  "on_watch k f p = (if k < length (ip_calls p) then f (ip_calls p ! k) else None)"

definition deadline_passes :: "nat \<Rightarrow> 'h invoke_pool \<Rightarrow> 'h invoke_pool option" where
  "deadline_passes k p = on_watch k (\<lambda>c.
     if \<not> iv_expired c \<and> \<not> iv_cancelled c then Some (upd_call k (\<lambda>c. c\<lparr>iv_expired := True\<rparr>) p) else None) p"

definition watcher_swap :: "nat \<Rightarrow> 'h invoke_pool \<Rightarrow> 'h invoke_pool option" where
  "watcher_swap k p = on_watch k (\<lambda>c.
     if iv_watch c = Watching \<and> (iv_expired c \<or> iv_cancelled c) then
       Some (upd_call k (\<lambda>c. c\<lparr>iv_completed := True,
          iv_watch := (if iv_completed c then WatchLost else Reporting)\<rparr>) p)
     else None) p"

definition watcher_report :: "nat \<Rightarrow> 'h invoke_pool \<Rightarrow> 'h invoke_pool option" where
  "watcher_report k p = on_watch k (\<lambda>c.
     if iv_watch c = Reporting then
       Some ((upd_call k (\<lambda>c. c\<lparr>iv_watch := WatchReleasing\<rparr>) p)\<lparr>ip_sink := ip_sink p @
         [SendDispatchError (dj_correlationID (iv_job c)) DispatchErrorTimeout]\<rparr>)
     else None) p"

definition watcher_done :: "nat \<Rightarrow> 'h invoke_pool \<Rightarrow> 'h invoke_pool option" where
  "watcher_done k p = on_watch k (\<lambda>c.
     if iv_watch c = WatchReleasing then
       Some (wg_add (- 1) (upd_call k (\<lambda>c. c\<lparr>iv_watch := WatchFinished\<rparr>) p))
     else None) p"

section \<open>Runs\<close>

datatype 'h pool_action =
    Enqueue "'h dispatch_job"
  | EnqueueAdd
  | ShutdownRefuse
  | ShutdownClose
  | ShutdownWait
  | WorkerRecv nat
  | WorkerStop nat
  | DrainEnd nat
  | HandlerEnds nat outcome
  | HandlerReturn nat
  | HandlerCancel nat
  | HandlerRecover nat
  | JobTimeout nat
  | JobSend nat
  | JobDone nat
  | Deadline nat
  | WatchSwap nat
  | WatchReport nat
  | WatchDone nat

fun pool_act :: "'h pool_action \<Rightarrow> 'h invoke_pool \<Rightarrow> 'h invoke_pool option" where
  "pool_act (Enqueue job) p = map_option snd (enqueue job p)"
| "pool_act EnqueueAdd p = enqueue_add p"
| "pool_act ShutdownRefuse p = shutdown_refuse p"
| "pool_act ShutdownClose p = shutdown_close p"
| "pool_act ShutdownWait p = shutdown_wait p"
| "pool_act (WorkerRecv i) p = invokeWorker_recv i p"
| "pool_act (WorkerStop i) p = invokeWorker_stop i p"
| "pool_act (DrainEnd i) p = drainDispatchQueue_end i p"
| "pool_act (HandlerEnds i out) p = handler_ends i out p"
| "pool_act (HandlerReturn i) p = invokeHandler_return i p"
| "pool_act (HandlerCancel i) p = invokeHandler_cancel i p"
| "pool_act (HandlerRecover i) p = invokeHandler_recover i p"
| "pool_act (JobTimeout i) p = invokeJob_timeout i p"
| "pool_act (JobSend i) p = invokeJob_send i p"
| "pool_act (JobDone i) p = invokeJob_done i p"
| "pool_act (Deadline k) p = deadline_passes k p"
| "pool_act (WatchSwap k) p = watcher_swap k p"
| "pool_act (WatchReport k) p = watcher_report k p"
| "pool_act (WatchDone k) p = watcher_done k p"

fun pool_run :: "'h pool_action list \<Rightarrow> 'h invoke_pool \<Rightarrow> 'h invoke_pool option" where
  "pool_run [] p = Some p"
| "pool_run (a # as) p = (if ip_crashed p then None else Option.bind (pool_act a p) (pool_run as))"

definition started_pool :: "'h invoke_pool" where
  "started_pool = pool_start new_invoke_pool"

section \<open>The invariant\<close>

text \<open>
  In a call at most one of the worker and the watcher wins the swap, and the other one gives up.
\<close>

fun call_won :: "call_phase \<Rightarrow> bool" where
  "call_won (Sending r e) = True"
| "call_won (Releasing r e) = True"
| "call_won (Finished r e) = True"
| "call_won _ = False"

fun watch_won :: "watch_phase \<Rightarrow> bool" where
  "watch_won Reporting = True"
| "watch_won WatchReleasing = True"
| "watch_won WatchFinished = True"
| "watch_won _ = False"

definition one_winner :: "'h invocation \<Rightarrow> bool" where
  "one_winner c \<longleftrightarrow> (iv_completed c \<longleftrightarrow> call_won (iv_call c) \<or> watch_won (iv_watch c))
     \<and> \<not> (call_won (iv_call c) \<and> watch_won (iv_watch c))
     \<and> (iv_call c = LostToDeadline \<longrightarrow> watch_won (iv_watch c))
     \<and> (iv_watch c = WatchLost \<longrightarrow> call_won (iv_call c))"

text \<open>What a call has given to the sink so far, and what it still holds in the wait group.\<close>

definition answers :: "'h invocation \<Rightarrow> sink_call multiset" where
  "answers c =
     (case iv_call c of
        Releasing r e \<Rightarrow> {#SendDispatchResult \<lparr>gr_correlationID = dj_correlationID (iv_job c), gr_response = r, gr_err = e\<rparr>#}
      | Finished r e \<Rightarrow> {#SendDispatchResult \<lparr>gr_correlationID = dj_correlationID (iv_job c), gr_response = r, gr_err = e\<rparr>#}
      | _ \<Rightarrow> {#})
     + (if iv_watch c \<in> {WatchReleasing, WatchFinished}
        then {#SendDispatchError (dj_correlationID (iv_job c)) DispatchErrorTimeout#} else {#})"

definition released :: "'h invocation \<Rightarrow> bool" where
  "released c \<longleftrightarrow> (\<exists>r e. iv_call c = Finished r e) \<or> iv_watch c = WatchFinished"

definition unreleased :: "'h invocation \<Rightarrow> int" where
  "unreleased c = (if released c then 0 else 1)"

definition pool_inv :: "'h invoke_pool \<Rightarrow> bool" where
  "pool_inv p \<longleftrightarrow>
     (\<forall>c \<in> set (ip_calls p). one_winner c)
     \<and> (\<forall>d k. Busy d k \<in> set (ip_workers p) \<longrightarrow> k < length (ip_calls p))
     \<and> ip_accepted p = map iv_job (ip_calls p) @ ip_dispatchQueue p
     \<and> mset (ip_sink p) = sum_list (map answers (ip_calls p))
     \<and> ip_wg p = int (length (ip_dispatchQueue p)) + sum_list (map unreleased (ip_calls p))
          - (if ip_adding p then 1 else 0)
     \<and> (ip_accepting p \<longleftrightarrow> ip_shutdown p = NotShut)
     \<and> (ip_adding p \<longrightarrow> ip_accepting p)
     \<and> (ip_shutdown p = ShutReturned \<longrightarrow> ip_dispatchQueue p = [] \<and> (\<forall>c \<in> set (ip_calls p). released c))
     \<and> length (ip_dispatchQueue p) \<le> dispatchQueueCap"

lemma sum_list_map_update:
  fixes f :: "'a \<Rightarrow> 'b :: comm_monoid_add"
  shows "k < length xs \<Longrightarrow> sum_list (map f (xs[k := y])) + f (xs ! k) = sum_list (map f xs) + f y"
proof (induction xs arbitrary: k)
  case (Cons x xs)
  then show ?case by (cases k) (simp_all add: ac_simps)
qed simp

lemma sum_unreleased_nonneg: "0 \<le> sum_list (map unreleased cs)"
  by (induction cs) (simp_all add: unreleased_def)

lemma sum_unreleased_zero:
  "sum_list (map unreleased cs) = 0 \<longleftrightarrow> (\<forall>c \<in> set cs. released c)"
proof (induction cs)
  case (Cons c cs)
  have "unreleased c = (if released c then 0 else 1)" by (rule unreleased_def)
  then show ?case using sum_unreleased_nonneg [of cs] Cons.IH by (cases "released c") simp_all
qed simp

lemma pool_inv_started: "pool_inv started_pool"
  by (auto simp: pool_inv_def started_pool_def pool_start_def new_invoke_pool_def)

text \<open>
  A step of one call: the rest of the pool follows its contribution to the sink and to the wait
  group.
\<close>

definition iv_step :: "'h invocation \<Rightarrow> 'h invocation \<Rightarrow> sink_call list \<Rightarrow> int \<Rightarrow> bool" where
  "iv_step c c' as d \<longleftrightarrow> iv_job c' = iv_job c \<and> answers c' = answers c + mset as
     \<and> (one_winner c \<longrightarrow> one_winner c' \<and> unreleased c' = unreleased c + d) \<and> (released c \<longrightarrow> released c')"

definition call_step ::
  "'h invoke_pool \<Rightarrow> nat \<Rightarrow> 'h invocation \<Rightarrow> sink_call list \<Rightarrow> int \<Rightarrow> 'h invoke_pool \<Rightarrow> bool" where
  "call_step p k c' as d p' \<longleftrightarrow>
     k < length (ip_calls p) \<and> ip_calls p' = (ip_calls p)[k := c'] \<and> iv_step (ip_calls p ! k) c' as d
     \<and> ip_sink p' = ip_sink p @ as \<and> ip_wg p' = ip_wg p + d
     \<and> (\<forall>d k. Busy d k \<in> set (ip_workers p') \<longrightarrow> Busy d k \<in> set (ip_workers p))
     \<and> ip_dispatchQueue p' = ip_dispatchQueue p \<and> ip_accepted p' = ip_accepted p
     \<and> ip_accepting p' = ip_accepting p \<and> ip_adding p' = ip_adding p
     \<and> ip_shutdown p' = ip_shutdown p"

lemma list_update_all:
  "k < length xs \<Longrightarrow> \<forall>x \<in> set xs. P x \<Longrightarrow> P y \<Longrightarrow> \<forall>x \<in> set (xs[k := y]). P x"
  using set_update_subset_insert [of xs k y] by auto

lemma call_step_inv:
  assumes step: "call_step p k c' as d p'" and inv: "pool_inv p"
  shows "pool_inv p'"
proof -
  let ?c = "ip_calls p ! k"
  have k: "k < length (ip_calls p)" and calls': "ip_calls p' = (ip_calls p)[k := c']"
    and job: "iv_job c' = iv_job ?c" and win': "one_winner ?c \<Longrightarrow> one_winner c'"
    and ans': "answers c' = answers ?c + mset as" and un': "one_winner ?c \<Longrightarrow> unreleased c' = unreleased ?c + d"
    and rel': "released ?c \<Longrightarrow> released c'"
    using step by (auto simp: call_step_def iv_step_def)
  have same: "ip_sink p' = ip_sink p @ as" "ip_wg p' = ip_wg p + d"
    "ip_dispatchQueue p' = ip_dispatchQueue p" "ip_accepted p' = ip_accepted p"
    "ip_accepting p' = ip_accepting p" "ip_adding p' = ip_adding p" "ip_shutdown p' = ip_shutdown p"
    and busy: "\<And>d k. Busy d k \<in> set (ip_workers p') \<Longrightarrow> Busy d k \<in> set (ip_workers p)"
    using step by (auto simp: call_step_def)
  have wins: "\<forall>x \<in> set (ip_calls p). one_winner x"
    and rest: "ip_accepted p = map iv_job (ip_calls p) @ ip_dispatchQueue p"
      "mset (ip_sink p) = sum_list (map answers (ip_calls p))"
      "ip_wg p = int (length (ip_dispatchQueue p)) + sum_list (map unreleased (ip_calls p)) - (if ip_adding p then 1 else 0)"
      "ip_accepting p \<longleftrightarrow> ip_shutdown p = NotShut" "ip_adding p \<longrightarrow> ip_accepting p"
      "length (ip_dispatchQueue p) \<le> dispatchQueueCap"
    and returned: "ip_shutdown p = ShutReturned \<Longrightarrow> ip_dispatchQueue p = [] \<and> (\<forall>x \<in> set (ip_calls p). released x)"
    and workers: "\<And>d k. Busy d k \<in> set (ip_workers p) \<Longrightarrow> k < length (ip_calls p)"
    using inv by (auto simp: pool_inv_def)
  have win: "one_winner ?c" using wins k by simp
  have "sum_list (map answers (ip_calls p')) + answers ?c = sum_list (map answers (ip_calls p)) + mset as + answers ?c"
    using sum_list_map_update [OF k, of answers c'] by (simp add: ans' calls' ac_simps)
  then have ans: "sum_list (map answers (ip_calls p')) = sum_list (map answers (ip_calls p)) + mset as" by simp
  have un: "sum_list (map unreleased (ip_calls p')) = sum_list (map unreleased (ip_calls p)) + d"
    using sum_list_map_update [OF k, of unreleased c'] un' [OF win] by (simp add: calls')
  have jobs: "map iv_job (ip_calls p') = map iv_job (ip_calls p)"
    using k by (simp add: calls' map_update job list_update_same_conv)
  have "\<forall>x \<in> set (ip_calls p'). one_winner x"
    unfolding calls' by (rule list_update_all [OF k wins win' [OF win]])
  moreover have "\<forall>x \<in> set (ip_calls p'). released x" if "ip_shutdown p = ShutReturned"
    unfolding calls' using returned [OF that] k by (intro list_update_all rel') simp_all
  moreover have "length (ip_calls p') = length (ip_calls p)" by (simp add: calls')
  moreover have "\<forall>d k. Busy d k \<in> set (ip_workers p') \<longrightarrow> k < length (ip_calls p)"
    using workers busy by blast
  ultimately show ?thesis
    unfolding pool_inv_def same jobs ans un using rest returned by simp
qed

lemma on_call_Some:
  assumes "on_call i f p = Some p'"
  obtains d k where "i < length (ip_workers p)" "ip_workers p ! i = Busy d k" "f d k (ip_calls p ! k) = Some p'"
  using assms by (auto simp: on_call_def split: if_splits worker.splits)

lemma on_watch_Some:
  "on_watch k f p = Some p' \<longleftrightarrow> k < length (ip_calls p) \<and> f (ip_calls p ! k) = Some p'"
  by (auto simp: on_watch_def)

lemma busy_index: "pool_inv p \<Longrightarrow> i < length (ip_workers p) \<Longrightarrow> ip_workers p ! i = Busy d k \<Longrightarrow> k < length (ip_calls p)"
  unfolding pool_inv_def using nth_mem [of i "ip_workers p"] by simp

lemma busy_after_polling:
  "Busy d k \<in> set ((ip_workers p)[i := Polling b]) \<Longrightarrow> Busy d k \<in> set (ip_workers p)"
  using set_update_subset_insert [of "ip_workers p" i "Polling b"] by auto

lemmas iv_defs = iv_step_def one_winner_def answers_def unreleased_def released_def

lemma iv_call_steps:
  "iv_call c = Calling \<Longrightarrow> iv_step c (c\<lparr>iv_call := (case out of
     HandlerReturns response err \<Rightarrow> Returned response err | HandlerPanics x \<Rightarrow> Panicking x)\<rparr>) [] 0"
  "iv_call c = Returned r e \<Longrightarrow> iv_step c (c\<lparr>iv_completed := True, iv_cancelled := True,
     iv_call := (if iv_completed c then LostToDeadline else Sending r e)\<rparr>) [] 0"
  "iv_call c = Panicking x \<Longrightarrow> iv_step c (c\<lparr>iv_cancelled := True, iv_call := Recovering x\<rparr>) [] 0"
  "iv_call c = Recovering x \<Longrightarrow> iv_step c (c\<lparr>iv_completed := True,
     iv_call := (if iv_completed c then LostToDeadline else Sending r e)\<rparr>) [] 0"
  "iv_call c = Sending r e \<Longrightarrow> iv_step c (c\<lparr>iv_call := Releasing r e\<rparr>)
     [SendDispatchResult \<lparr>gr_correlationID = dj_correlationID (iv_job c), gr_response = r, gr_err = e\<rparr>] 0"
  "iv_call c = Releasing r e \<Longrightarrow> iv_step c (c\<lparr>iv_call := Finished r e\<rparr>) [] (- 1)"
  by (auto simp: iv_defs split: outcome.splits)

lemma iv_watch_steps:
  "iv_step c (c\<lparr>iv_expired := True\<rparr>) [] 0"
  "iv_watch c = Watching \<Longrightarrow> iv_step c (c\<lparr>iv_completed := True,
     iv_watch := (if iv_completed c then WatchLost else Reporting)\<rparr>) [] 0"
  "iv_watch c = Reporting \<Longrightarrow> iv_step c (c\<lparr>iv_watch := WatchReleasing\<rparr>)
     [SendDispatchError (dj_correlationID (iv_job c)) DispatchErrorTimeout] 0"
  "iv_watch c = WatchReleasing \<Longrightarrow> iv_step c (c\<lparr>iv_watch := WatchFinished\<rparr>) [] (- 1)"
  by (cases "iv_call c"; auto simp: iv_defs)+

lemma call_step_upd:
  assumes "k < length (ip_calls p)"
  shows "iv_step (ip_calls p ! k) (f (ip_calls p ! k)) [] 0 \<Longrightarrow>
      call_step p k (f (ip_calls p ! k)) [] 0 (upd_call k f p)"
    and "iv_step (ip_calls p ! k) (f (ip_calls p ! k)) as 0 \<Longrightarrow>
      call_step p k (f (ip_calls p ! k)) as 0 ((upd_call k f p)\<lparr>ip_sink := ip_sink p @ as\<rparr>)"
    and "iv_step (ip_calls p ! k) (f (ip_calls p ! k)) [] d \<Longrightarrow>
      call_step p k (f (ip_calls p ! k)) [] d (wg_add d (upd_call k f p))"
    and "iv_step (ip_calls p ! k) (f (ip_calls p ! k)) [] d \<Longrightarrow>
      call_step p k (f (ip_calls p ! k)) [] d (set_worker i (Polling b) (wg_add d (upd_call k f p)))"
  using assms by (auto simp: call_step_def upd_call_def wg_add_def set_worker_def dest: busy_after_polling)

fun is_call_action :: "'h pool_action \<Rightarrow> bool" where
  "is_call_action (Enqueue j) = False"
| "is_call_action EnqueueAdd = False"
| "is_call_action ShutdownRefuse = False"
| "is_call_action ShutdownClose = False"
| "is_call_action ShutdownWait = False"
| "is_call_action (WorkerRecv i) = False"
| "is_call_action (WorkerStop i) = False"
| "is_call_action (DrainEnd i) = False"
| "is_call_action (JobTimeout i) = False"
| "is_call_action _ = True"

lemma call_action_step:
  assumes act: "pool_act a p = Some p'" and inv: "pool_inv p" and a: "is_call_action a"
  shows "\<exists>k c' as d. call_step p k c' as d p'"
proof -
  have worker: ?thesis
    if "on_call i g p = Some p'"
      and "\<And>d k. k < length (ip_calls p) \<Longrightarrow> g d k (ip_calls p ! k) = Some p' \<Longrightarrow> \<exists>c' as e. call_step p k c' as e p'" for i g
    using that by (elim on_call_Some) (blast dest: busy_index [OF inv])
  show ?thesis
  proof (cases a)
    case (HandlerEnds i out)
    show ?thesis
      by (rule worker [OF act [unfolded HandlerEnds pool_act.simps handler_ends_def]])
        (auto split: if_splits intro!: exI call_step_upd(1) iv_call_steps(1))
  next
    case (HandlerReturn i)
    show ?thesis
      by (rule worker [OF act [unfolded HandlerReturn pool_act.simps invokeHandler_return_def]])
        (auto split: call_phase.splits intro!: exI call_step_upd(1) iv_call_steps(2))
  next
    case (HandlerCancel i)
    show ?thesis
      by (rule worker [OF act [unfolded HandlerCancel pool_act.simps invokeHandler_cancel_def]])
        (auto split: call_phase.splits intro!: exI call_step_upd(1) iv_call_steps(3))
  next
    case (HandlerRecover i)
    show ?thesis
      by (rule worker [OF act [unfolded HandlerRecover pool_act.simps invokeHandler_recover_def]])
        (auto split: call_phase.splits intro!: exI call_step_upd(1) iv_call_steps(4))
  next
    case (JobSend i)
    show ?thesis
      by (rule worker [OF act [unfolded JobSend pool_act.simps invokeJob_send_def]])
        (auto split: call_phase.splits intro!: exI call_step_upd(2) iv_call_steps(5))
  next
    case (JobDone i)
    show ?thesis
      by (rule worker [OF act [unfolded JobDone pool_act.simps invokeJob_done_def]])
        (auto split: call_phase.splits intro!: exI call_step_upd(4) iv_call_steps(6))
  next
    case (Deadline k)
    then show ?thesis using act
      by (auto simp: deadline_passes_def on_watch_Some split: if_splits intro!: exI call_step_upd(1) iv_watch_steps(1))
  next
    case (WatchSwap k)
    then show ?thesis using act
      by (auto simp: watcher_swap_def on_watch_Some split: if_splits intro!: exI call_step_upd(1) iv_watch_steps(2))
  next
    case (WatchReport k)
    then show ?thesis using act
      by (auto simp: watcher_report_def on_watch_Some split: if_splits intro!: exI call_step_upd(2) iv_watch_steps(3))
  next
    case (WatchDone k)
    then show ?thesis using act
      by (auto simp: watcher_done_def on_watch_Some split: if_splits intro!: exI call_step_upd(3) iv_watch_steps(4))
  qed (use a in simp_all)
qed

lemma new_invocation_facts [simp]:
  "one_winner (new_invocation job)" "answers (new_invocation job) = {#}"
  "unreleased (new_invocation job) = 1" "iv_job (new_invocation job) = job"
  "\<not> released (new_invocation job)"
  by (simp_all add: new_invocation_def iv_defs)

lemma pool_inv_workers:
  assumes "pool_inv p" and "\<And>d k. v \<noteq> Busy d k"
  shows "pool_inv (set_worker i v p)"
proof -
  have "Busy d k \<in> set (ip_workers p)" if "Busy d k \<in> set ((ip_workers p)[i := v])" for d k
    using that assms(2) [of d k] set_update_subset_insert [of "ip_workers p" i v] by auto
  then have "\<forall>d k. Busy d k \<in> set ((ip_workers p)[i := v]) \<longrightarrow> k < length (ip_calls p)"
    using assms(1) unfolding pool_inv_def by blast
  then show ?thesis using assms(1) by (auto simp: pool_inv_def set_worker_def)
qed

lemma enqueue_inv:
  assumes "enqueue job p = Some (b, p')" and "pool_inv p"
  shows "pool_inv p'"
  using assms by (auto simp: enqueue_def pool_inv_def split: if_splits)

lemma recv_inv:
  assumes act: "invokeWorker_recv i p = Some p'" and inv: "pool_inv p"
  shows "pool_inv p'"
proof -
  obtain d job q where w: "i < length (ip_workers p)" "ip_workers p ! i = Polling d"
    and q: "ip_dispatchQueue p = job # q"
    and p': "p' = set_worker i (Busy d (length (ip_calls p)))
      (p\<lparr>ip_dispatchQueue := q, ip_calls := ip_calls p @ [new_invocation job]\<rparr>)"
    using act by (auto simp: invokeWorker_recv_def split: if_splits worker.splits list.splits)
  have "\<forall>d' k. Busy d' k \<in> set (ip_workers p') \<longrightarrow> k < length (ip_calls p')"
    using inv set_update_subset_insert [of "ip_workers p" i "Busy d (length (ip_calls p))"]
    by (fastforce simp: p' set_worker_def pool_inv_def)
  moreover have "ip_shutdown p \<noteq> ShutReturned" using inv q by (auto simp: pool_inv_def)
  moreover have "ip_adding p \<longrightarrow> ip_shutdown p = NotShut" using inv by (auto simp: pool_inv_def)
  ultimately show ?thesis using inv q by (simp add: pool_inv_def p' set_worker_def)
qed

lemma shutdown_wait_inv:
  assumes act: "shutdown_wait p = Some p'" and inv: "pool_inv p"
  shows "pool_inv p'"
proof -
  have w: "ip_shutdown p = ShutWaiting" "ip_wg p = 0" and p': "p' = p\<lparr>ip_shutdown := ShutReturned\<rparr>"
    using act by (auto simp: shutdown_wait_def split: if_splits)
  moreover have "\<not> ip_adding p" using inv w by (auto simp: pool_inv_def)
  ultimately have "int (length (ip_dispatchQueue p)) + sum_list (map unreleased (ip_calls p)) = 0"
    using inv by (simp add: pool_inv_def)
  then have "ip_dispatchQueue p = []" "sum_list (map unreleased (ip_calls p)) = 0"
    using sum_unreleased_nonneg [of "ip_calls p"] by (simp_all add: add_nonneg_eq_0_iff)
  then show ?thesis using inv w p' by (auto simp: pool_inv_def sum_unreleased_zero)
qed

lemma pool_act_inv:
  assumes act: "pool_act a p = Some p'" and inv: "pool_inv p"
  shows "pool_inv p'"
proof (cases "is_call_action a")
  case True
  then show ?thesis using call_action_step [OF act inv] call_step_inv [OF _ inv] by blast
next
  case False
  then show ?thesis
  proof (cases a)
    case (Enqueue job)
    then show ?thesis using act inv by (auto elim: enqueue_inv)
  next
    case EnqueueAdd
    then show ?thesis using act inv by (auto simp: enqueue_add_def wg_add_def pool_inv_def split: if_splits)
  next
    case ShutdownRefuse
    then show ?thesis using act inv by (auto simp: shutdown_refuse_def pool_inv_def split: if_splits)
  next
    case ShutdownClose
    then show ?thesis using act inv by (auto simp: shutdown_close_def pool_inv_def split: if_splits)
  next
    case ShutdownWait
    then show ?thesis using act inv by (simp add: shutdown_wait_inv)
  next
    case (WorkerRecv i)
    then show ?thesis using act inv by (simp add: recv_inv)
  next
    case (WorkerStop i)
    then show ?thesis using act inv by (auto simp: invokeWorker_stop_def intro!: pool_inv_workers split: if_splits)
  next
    case (DrainEnd i)
    then show ?thesis using act inv by (auto simp: drainDispatchQueue_end_def intro!: pool_inv_workers split: if_splits)
  next
    case (JobTimeout i)
    then show ?thesis using act inv
      by (auto simp: invokeJob_timeout_def elim!: on_call_Some split: if_splits intro!: pool_inv_workers)
  qed simp_all
qed

lemma pool_run_inv: "pool_run as p = Some p' \<Longrightarrow> pool_inv p \<Longrightarrow> pool_inv p'"
  by (induction as arbitrary: p) (auto simp: bind_eq_Some_conv pool_act_inv split: if_splits)

section \<open>Answers\<close>

fun sink_correlationID :: "sink_call \<Rightarrow> u64" where
  "sink_correlationID (SendDispatchResult r) = gr_correlationID r"
| "sink_correlationID (SendDispatchError i e) = i"

lemma answers_ids:
  "one_winner c \<Longrightarrow> image_mset sink_correlationID (answers c) \<subseteq># {#dj_correlationID (iv_job c)#}"
  "one_winner c \<Longrightarrow> released c \<Longrightarrow> image_mset sink_correlationID (answers c) = {#dj_correlationID (iv_job c)#}"
  by (cases "iv_call c"; cases "iv_watch c"; simp add: iv_defs)+

lemma answers_released: "one_winner c \<Longrightarrow> released c \<Longrightarrow> size (answers c) = 1"
  by (cases "iv_call c"; cases "iv_watch c") (simp_all add: iv_defs)

lemma sum_answers:
  "\<forall>c \<in> set cs. one_winner c \<Longrightarrow>
     image_mset sink_correlationID (sum_list (map answers cs)) \<subseteq># mset (map (dj_correlationID \<circ> iv_job) cs)"
  "\<forall>c \<in> set cs. one_winner c \<and> released c \<Longrightarrow>
     image_mset sink_correlationID (sum_list (map answers cs)) = mset (map (dj_correlationID \<circ> iv_job) cs)"
proof (induction cs)
  case (Cons c cs)
  { case 1
    then show ?case using Cons.IH(1) answers_ids(1) [of c]
      by (auto intro: subset_mset.add_mono [of _ "{#dj_correlationID (iv_job c)#}", simplified])
  next
    case 2
    then show ?case using Cons.IH(2) answers_ids(2) [of c] by auto
  }
qed simp_all

lemma returned_final:
  assumes act: "pool_act a p = Some p'" and inv: "pool_inv p" and ret: "ip_shutdown p = ShutReturned"
  shows "ip_sink p' = ip_sink p \<and> ip_shutdown p' = ShutReturned"
proof (cases "is_call_action a")
  case True
  then obtain k c' as d where st: "call_step p k c' as d p'" using call_action_step [OF act inv] by blast
  let ?c = "ip_calls p ! k"
  have "?c \<in> set (ip_calls p)" using st by (simp add: call_step_def)
  then have c: "one_winner ?c" "released ?c" using inv ret by (auto simp: pool_inv_def)
  then have "size (answers c') = 1" "size (answers c') = size (answers ?c) + length as"
    using st answers_released [of c'] by (auto simp: call_step_def iv_step_def)
  then have "as = []" using answers_released [OF c] by simp
  then show ?thesis using st ret by (simp add: call_step_def)
next
  case False
  have "\<not> ip_accepting p" "ip_dispatchQueue p = []" using inv ret by (auto simp: pool_inv_def)
  then show ?thesis using False act ret
    by (cases a) (auto simp: enqueue_def enqueue_add_def wg_add_def shutdown_refuse_def shutdown_close_def
        shutdown_wait_def invokeWorker_recv_def invokeWorker_stop_def drainDispatchQueue_end_def set_worker_def
        invokeJob_timeout_def elim!: on_call_Some split: if_splits worker.splits)
qed

lemma returned_run:
  "pool_run as p = Some p' \<Longrightarrow> pool_inv p \<Longrightarrow> ip_shutdown p = ShutReturned \<Longrightarrow> ip_sink p' = ip_sink p"
proof (induction as arbitrary: p)
  case (Cons a as)
  obtain q where q: "pool_act a p = Some q" "pool_run as q = Some p'"
    using Cons.prems(1) by (auto simp: bind_eq_Some_conv split: if_splits)
  then show ?case using Cons.IH [OF q(2)] pool_act_inv [OF q(1)] returned_final [OF q(1)] Cons.prems by simp
qed simp

section \<open>Properties\<close>

definition sample_job :: "unit dispatch_job" where
  "sample_job = \<lparr>dj_correlationID = 7, dj_handler = (), dj_request = [1]\<rparr>"

lemmas pool_eval = started_pool_def pool_start_def new_invoke_pool_def invokeWorkerCount_def dispatchQueueCap_def
  enqueue_def enqueue_add_def shutdown_refuse_def shutdown_close_def shutdown_wait_def invokeWorker_recv_def
  invokeWorker_stop_def drainDispatchQueue_end_def on_call_def on_watch_def handler_ends_def invokeHandler_return_def
  invokeHandler_cancel_def invokeHandler_recover_def invokeJob_timeout_def invokeJob_send_def invokeJob_done_def
  deadline_passes_def watcher_swap_def watcher_report_def watcher_done_def upd_call_def set_worker_def wg_add_def
  new_invocation_def

lemma returned_answers:
  assumes "pool_inv p" and "ip_shutdown p = ShutReturned"
  shows "image_mset sink_correlationID (mset (ip_sink p)) = mset (map dj_correlationID (ip_accepted p))"
  using assms sum_answers(2) [of "ip_calls p"] by (simp add: pool_inv_def)

text \<open>
  C7. Every accepted job is answered exactly once, whatever the schedule, the handlers and the
  deadlines: at any time the answers are to different accepted jobs, and when shutdown has returned
  each accepted job has its one answer and the sink is never called again, so that the connection
  behind it can be freed.
\<close>

theorem pool_answers_exactly_once:
  assumes "pool_run as started_pool = Some p"
  shows "image_mset sink_correlationID (mset (ip_sink p)) \<subseteq># mset (map dj_correlationID (ip_accepted p))
    \<and> (ip_shutdown p = ShutReturned \<longrightarrow>
        image_mset sink_correlationID (mset (ip_sink p)) = mset (map dj_correlationID (ip_accepted p))
        \<and> (\<forall>bs q. pool_run bs p = Some q \<longrightarrow> ip_sink q = ip_sink p))"
proof -
  have inv: "pool_inv p" using pool_run_inv [OF assms pool_inv_started] .
  have acc: "mset (map dj_correlationID (ip_accepted p))
      = mset (map (dj_correlationID \<circ> iv_job) (ip_calls p)) + mset (map dj_correlationID (ip_dispatchQueue p))"
    using inv by (simp add: pool_inv_def)
  have sink: "mset (ip_sink p) = sum_list (map answers (ip_calls p))" using inv by (simp add: pool_inv_def)
  have "image_mset sink_correlationID (mset (ip_sink p)) \<subseteq># mset (map (dj_correlationID \<circ> iv_job) (ip_calls p))"
    unfolding sink using inv by (intro sum_answers(1)) (simp add: pool_inv_def)
  then have "image_mset sink_correlationID (mset (ip_sink p)) \<subseteq># mset (map dj_correlationID (ip_accepted p))"
    unfolding acc by (rule subset_mset.order_trans) simp
  then show ?thesis using returned_run [OF _ inv] returned_answers [OF inv] by blast
qed

definition sample_pool_run :: "unit pool_action list" where
  "sample_pool_run = [Enqueue sample_job, EnqueueAdd, WorkerRecv 3, ShutdownRefuse, ShutdownClose,
     HandlerEnds 3 (HandlerReturns [2] None), HandlerReturn 3, WatchSwap 0, JobSend 3, JobDone 3, ShutdownWait]"

lemma sample_pool:
  "\<exists>p. pool_run sample_pool_run started_pool = Some p \<and> ip_shutdown p = ShutReturned
     \<and> ip_sink p = [SendDispatchResult \<lparr>gr_correlationID = 7, gr_response = [2], gr_err = None\<rparr>]
     \<and> ip_accepted p = [sample_job]"
  by (simp add: sample_pool_run_def pool_eval sample_job_def eval_nat_numeral)

theorem pool_answers_exactly_once_witness:
  "\<exists>p. pool_run sample_pool_run started_pool = Some p \<and> ip_shutdown p = ShutReturned
     \<and> image_mset sink_correlationID (mset (ip_sink p)) = {#7#}
     \<and> (\<forall>bs q. pool_run bs p = Some q \<longrightarrow> ip_sink q = ip_sink p)"
proof -
  obtain p where p: "pool_run sample_pool_run started_pool = Some p" "ip_shutdown p = ShutReturned"
    "ip_accepted p = [sample_job]" using sample_pool by blast
  from pool_answers_exactly_once [OF p(1)] p show ?thesis by (auto simp: sample_job_def)
qed



definition all_stuck :: "'h invoke_pool \<Rightarrow> bool" where
  "all_stuck p \<longleftrightarrow> ip_dispatchQueue p \<noteq> []
     \<and> (\<forall>w \<in> set (ip_workers p). \<exists>d k. w = Busy d k \<and> k < length (ip_calls p) \<and> iv_call (ip_calls p ! k) = Calling)"

lemma all_stuck_worker:
  "all_stuck p \<Longrightarrow> i < length (ip_workers p) \<Longrightarrow>
     \<exists>d k. ip_workers p ! i = Busy d k \<and> k < length (ip_calls p) \<and> iv_call (ip_calls p ! k) = Calling"
  by (simp add: all_stuck_def)

lemma all_stuck_upd:
  assumes "all_stuck p" and "\<And>c. iv_call (f c) = iv_call c"
  shows "all_stuck (upd_call k f p)"
proof -
  have "iv_call ((ip_calls p)[k := f (ip_calls p ! k)] ! j) = iv_call (ip_calls p ! j)" if "j < length (ip_calls p)" for j
    using that assms(2) by (cases "j = k") simp_all
  then show ?thesis using assms(1) by (simp add: all_stuck_def upd_call_def) metis
qed

lemma all_stuck_frame:
  "all_stuck p \<Longrightarrow> ip_dispatchQueue p' \<noteq> [] \<Longrightarrow> ip_workers p' = ip_workers p \<Longrightarrow> ip_calls p' = ip_calls p \<Longrightarrow> all_stuck p'"
  by (simp add: all_stuck_def)

lemma all_stuck_disabled:
  assumes "all_stuck p"
  shows "invokeWorker_recv i p = None" "invokeWorker_stop i p = None" "drainDispatchQueue_end i p = None"
    "invokeHandler_return i p = None" "invokeHandler_cancel i p = None" "invokeHandler_recover i p = None"
    "invokeJob_timeout i p = None" "invokeJob_send i p = None" "invokeJob_done i p = None"
proof -
  have "\<not> i < length (ip_workers p) \<or> (\<exists>d k. ip_workers p ! i = Busy d k \<and> iv_call (ip_calls p ! k) = Calling)"
    using all_stuck_worker [OF assms, of i] by blast
  then show "invokeWorker_recv i p = None" "invokeWorker_stop i p = None" "drainDispatchQueue_end i p = None"
    "invokeHandler_return i p = None" "invokeHandler_cancel i p = None" "invokeHandler_recover i p = None"
    "invokeJob_timeout i p = None" "invokeJob_send i p = None" "invokeJob_done i p = None"
    by (auto simp: pool_eval)
qed

lemma all_stuck_act:
  assumes st: "all_stuck p" and act: "pool_act a p = Some p'" and a: "\<And>i out. a \<noteq> HandlerEnds i out"
  shows "all_stuck p'"
proof -
  have ne: "ip_dispatchQueue p \<noteq> []" using st by (simp add: all_stuck_def)
  note frame = all_stuck_frame [OF st]
  show ?thesis
  proof (cases a)
    case (WatchSwap k)
    then show ?thesis using act st
      by (auto simp: watcher_swap_def on_watch_Some split: if_splits intro!: all_stuck_upd)
  next
    case (WatchReport k)
    then show ?thesis using act all_stuck_upd [OF st, of "\<lambda>c. c\<lparr>iv_watch := WatchReleasing\<rparr>" k]
      by (auto simp: watcher_report_def on_watch_Some all_stuck_def split: if_splits)
  next
    case (WatchDone k)
    then show ?thesis using act all_stuck_upd [OF st, of "\<lambda>c. c\<lparr>iv_watch := WatchFinished\<rparr>" k]
      by (auto simp: watcher_done_def on_watch_Some all_stuck_def wg_add_def split: if_splits)
  next
    case (Deadline k)
    then show ?thesis using act st
      by (auto simp: deadline_passes_def on_watch_Some split: if_splits intro!: all_stuck_upd)
  next
    case (HandlerEnds i out)
    then show ?thesis using a by blast
  next
    case (Enqueue job)
    then show ?thesis using act ne by (auto simp: enqueue_def split: if_splits intro!: frame)
  next
    case EnqueueAdd
    then show ?thesis using act ne by (auto simp: enqueue_add_def wg_add_def split: if_splits intro!: frame)
  next
    case ShutdownRefuse
    then show ?thesis using act ne by (auto simp: shutdown_refuse_def split: if_splits intro!: frame)
  next
    case ShutdownClose
    then show ?thesis using act ne by (auto simp: shutdown_close_def split: if_splits intro!: frame)
  next
    case ShutdownWait
    then show ?thesis using act ne by (auto simp: shutdown_wait_def split: if_splits intro!: frame)
  qed (use act all_stuck_disabled [OF st] in simp_all)
qed

lemma all_stuck_run:
  "pool_run bs p = Some q \<Longrightarrow> all_stuck p \<Longrightarrow> (\<And>i out. HandlerEnds i out \<notin> set bs) \<Longrightarrow> all_stuck q"
proof (induction bs arbitrary: p)
  case (Cons b bs)
  obtain p1 where p1: "pool_act b p = Some p1" "pool_run bs p1 = Some q"
    using Cons.prems(1) by (auto simp: bind_eq_Some_conv split: if_splits)
  have "b \<noteq> HandlerEnds i out" for i out using Cons.prems(3) [of i out] by auto
  then have "all_stuck p1" using all_stuck_act [OF Cons.prems(2) p1(1)] by blast
  then show ?case using Cons.IH [OF p1(2)] Cons.prems(3) by simp
qed simp

text \<open>
  C34. Handlers that ignore their context can hold up shutdown for ever: if all workers are in handlers
  that do not return and a job is queued, then shutdown never returns, although every running
  handler is reported as timed out; the queued job has no worker left to answer it.
\<close>

theorem pool_stuck_handlers_block_shutdown:
  assumes "pool_run as started_pool = Some p" and "all_stuck p"
    and "pool_run bs p = Some q" and "\<And>i out. HandlerEnds i out \<notin> set bs"
  shows "ip_shutdown q \<noteq> ShutReturned"
proof -
  have "pool_inv q" using pool_run_inv [OF assms(3)] pool_run_inv [OF assms(1) pool_inv_started] by blast
  moreover have "all_stuck q" using all_stuck_run [OF assms(3,2,4)] by simp
  ultimately show ?thesis by (auto simp: pool_inv_def all_stuck_def)
qed

definition fill_pool :: "unit pool_action list" where
  "fill_pool = concat (map (\<lambda>i. [Enqueue sample_job, EnqueueAdd, WorkerRecv i]) [0..<8]) @ [Enqueue sample_job, EnqueueAdd]"

lemma fill_pool_stuck: "\<exists>p. pool_run fill_pool started_pool = Some p \<and> all_stuck p
    \<and> (\<exists>q. pool_run [ShutdownRefuse, ShutdownClose] p = Some q)"
  by (simp add: fill_pool_def upt_rec pool_eval all_stuck_def eval_nat_numeral) blast?

theorem pool_stuck_handlers_block_shutdown_witness:
  "\<exists>p q. pool_run fill_pool started_pool = Some p \<and> pool_run [ShutdownRefuse, ShutdownClose] p = Some q
     \<and> ip_shutdown q \<noteq> ShutReturned"
proof -
  obtain p q where "pool_run fill_pool started_pool = Some p" "all_stuck p"
    "pool_run [ShutdownRefuse, ShutdownClose] p = Some q" using fill_pool_stuck by blast
  then show ?thesis using pool_stuck_handlers_block_shutdown [of fill_pool p "[ShutdownRefuse, ShutdownClose]" q] by auto
qed

section \<open>Progress\<close>

text \<open>
  Every call that is not over has its worker, every worker in a call can go on with it, and a worker
  only leaves when no job can come any more.
\<close>

fun call_over :: "call_phase \<Rightarrow> bool" where
  "call_over LostToDeadline = True"
| "call_over (Finished r e) = True"
| "call_over _ = False"

fun call_finished :: "call_phase \<Rightarrow> bool" where
  "call_finished (Finished r e) = True"
| "call_finished _ = False"

definition serves :: "'h invoke_pool \<Rightarrow> nat \<Rightarrow> nat \<Rightarrow> bool" where
  "serves p i k \<longleftrightarrow> i < length (ip_workers p) \<and> (\<exists>d. ip_workers p ! i = Busy d k)"

definition worker_inv :: "'h invoke_pool \<Rightarrow> bool" where
  "worker_inv p \<longleftrightarrow> length (ip_workers p) = invokeWorkerCount
     \<and> (\<forall>i k. serves p i k \<longrightarrow> k < length (ip_calls p) \<and> \<not> call_finished (iv_call (ip_calls p ! k)))
     \<and> (\<forall>i j k. serves p i k \<longrightarrow> serves p j k \<longrightarrow> i = j)
     \<and> (\<forall>k < length (ip_calls p). \<not> call_over (iv_call (ip_calls p ! k)) \<longrightarrow> (\<exists>i. serves p i k))
     \<and> (Exited \<in> set (ip_workers p) \<longrightarrow> ip_dispatchQueue p = [] \<and> \<not> ip_accepting p)
     \<and> (ip_stop p \<longrightarrow> \<not> ip_accepting p)"

lemma serves_frame: "ip_workers p' = ip_workers p \<Longrightarrow> serves p' i k \<longleftrightarrow> serves p i k"
  by (simp add: serves_def)

lemma worker_inv_frame:
  assumes "worker_inv p" and "ip_workers p' = ip_workers p" and "ip_calls p' = ip_calls p"
    and "ip_dispatchQueue p' = ip_dispatchQueue p \<or> ip_accepting p"
    and "ip_accepting p' \<longrightarrow> ip_accepting p" and "ip_stop p' \<longrightarrow> ip_stop p \<or> \<not> ip_accepting p'"
  shows "worker_inv p'"
  using assms unfolding worker_inv_def serves_frame [OF assms(2)] by auto

lemma worker_inv_sink [simp]: "worker_inv (p\<lparr>ip_sink := s\<rparr>) \<longleftrightarrow> worker_inv p" "worker_inv (wg_add d p) \<longleftrightarrow> worker_inv p"
  by (simp_all add: worker_inv_def serves_def wg_add_def)

lemma worker_inv_upd:
  assumes inv: "worker_inv p" and k: "k < length (ip_calls p)"
    and over: "call_over (iv_call (ip_calls p ! k)) \<Longrightarrow> call_over (iv_call (f (ip_calls p ! k)))"
    and fin: "call_finished (iv_call (f (ip_calls p ! k))) \<Longrightarrow> call_finished (iv_call (ip_calls p ! k))"
  shows "worker_inv (upd_call k f p)"
proof -
  have s: "serves (upd_call k f p) = serves p" by (auto simp: serves_def upd_call_def fun_eq_iff)
  have "call_over (iv_call (ip_calls p ! j)) \<longrightarrow> call_over (iv_call (ip_calls (upd_call k f p) ! j))"
    "call_finished (iv_call (ip_calls (upd_call k f p) ! j)) \<longrightarrow> call_finished (iv_call (ip_calls p ! j))" for j
    using over fin k by (cases "j = k"; simp add: upd_call_def)+
  then show ?thesis using inv unfolding worker_inv_def s by (simp add: upd_call_def) blast
qed

lemma worker_inv_leave:
  assumes inv: "worker_inv p" and i: "serves p i k" and over: "call_over (iv_call c)"
    and same: "ip_workers p' = (ip_workers p)[i := Polling d]" "ip_calls p' = (ip_calls p)[k := c]"
      "ip_dispatchQueue p' = ip_dispatchQueue p" "ip_accepting p' = ip_accepting p" "ip_stop p' = ip_stop p"
  shows "worker_inv p'"
proof -
  have s: "serves p' j k' \<longleftrightarrow> j \<noteq> i \<and> serves p j k'" for j k'
    using i by (auto simp: serves_def same nth_list_update)
  have k: "k < length (ip_calls p)" and uniq: "\<And>j k'. serves p j k' \<Longrightarrow> j \<noteq> i \<Longrightarrow> k' \<noteq> k"
    using inv i by (auto simp: worker_inv_def)
  have "k' < length (ip_calls p') \<and> \<not> call_finished (iv_call (ip_calls p' ! k'))" if "serves p' j k'" for j k'
    using that uniq [of j k'] inv by (auto simp: s same worker_inv_def)
  moreover have "j = j'" if "serves p' j k'" "serves p' j' k'" for j j' k'
    using that inv by (auto simp: s worker_inv_def)
  moreover have "\<exists>j. serves p' j k'" if k': "k' < length (ip_calls p')" "\<not> call_over (iv_call (ip_calls p' ! k'))" for k'
  proof -
    have "k' \<noteq> k" using k k'(2) over by (auto simp: same)
    then obtain j where j: "serves p j k'" using inv k' by (auto simp: worker_inv_def same)
    then have "j \<noteq> i" using i \<open>k' \<noteq> k\<close> by (auto simp: serves_def)
    then show ?thesis using j s by blast
  qed
  moreover have "Exited \<in> set (ip_workers p') \<Longrightarrow> Exited \<in> set (ip_workers p)"
    using set_update_subset_insert [of "ip_workers p" i "Polling d"] by (auto simp: same)
  ultimately show ?thesis using inv by (auto simp: worker_inv_def same)
qed

lemma worker_inv_idle:
  assumes "worker_inv p" and "serves p i k" and "call_over (iv_call (ip_calls p ! k))"
  shows "worker_inv (set_worker i (Polling d) p)"
  by (rule worker_inv_leave [OF assms]) (simp_all add: set_worker_def)

lemma worker_inv_move:
  assumes inv: "worker_inv p" and i: "i < length (ip_workers p)" "ip_workers p ! i = Polling b"
    and v: "v = Polling b' \<or> v = Exited \<and> ip_dispatchQueue p = [] \<and> \<not> ip_accepting p"
  shows "worker_inv (set_worker i v p)"
proof -
  have s: "serves (set_worker i v p) = serves p"
    using i v by (auto simp: serves_def set_worker_def nth_list_update fun_eq_iff)
  have "Exited \<in> set (ip_workers (set_worker i v p)) \<Longrightarrow> v = Exited \<or> Exited \<in> set (ip_workers p)"
    using set_update_subset_insert [of "ip_workers p" i v] by (auto simp: set_worker_def)
  then show ?thesis using inv v unfolding worker_inv_def s by (auto simp: set_worker_def)
qed

lemma worker_inv_recv:
  assumes act: "invokeWorker_recv i p = Some p'" and inv: "worker_inv p"
  shows "worker_inv p'"
proof -
  obtain d job q where w: "i < length (ip_workers p)" "ip_workers p ! i = Polling d"
    and q: "ip_dispatchQueue p = job # q"
    and p': "p' = set_worker i (Busy d (length (ip_calls p)))
      (p\<lparr>ip_dispatchQueue := q, ip_calls := ip_calls p @ [new_invocation job]\<rparr>)"
    using act by (auto simp: invokeWorker_recv_def split: if_splits worker.splits list.splits)
  have s: "serves p' j k \<longleftrightarrow> j = i \<and> k = length (ip_calls p) \<or> serves p j k" for j k
    using w by (auto simp: serves_def p' set_worker_def nth_list_update)
  have lt: "serves p j k \<Longrightarrow> k < length (ip_calls p)" for j k using inv by (auto simp: worker_inv_def)
  have ex: "Exited \<notin> set (ip_workers p')"
    using inv q set_update_subset_insert [of "ip_workers p" i "Busy d (length (ip_calls p))"]
    by (auto simp: p' set_worker_def worker_inv_def)
  have c: "k < length (ip_calls p) \<Longrightarrow> ip_calls p' ! k = ip_calls p ! k"
    "ip_calls p' ! length (ip_calls p) = new_invocation job"
    "length (ip_calls p') = Suc (length (ip_calls p))" for k
    by (simp_all add: p' set_worker_def nth_append)
  have "k < length (ip_calls p') \<and> \<not> call_finished (iv_call (ip_calls p' ! k))" if "serves p' j k" for j k
    using that lt [of j k] inv c by (auto simp: s worker_inv_def new_invocation_def less_Suc_eq)
  moreover have "j = j'" if "serves p' j k" "serves p' j' k" for j j' k
    using that lt [of _ k] inv by (auto simp: s worker_inv_def)
  moreover have "\<exists>j. serves p' j k" if "k < length (ip_calls p')" "\<not> call_over (iv_call (ip_calls p' ! k))" for k
  proof (cases "k = length (ip_calls p)")
    case False
    then have "k < length (ip_calls p)" using that(1) c(3) by simp
    then show ?thesis using that(2) inv c(1) unfolding s worker_inv_def by metis
  qed (use s in blast)
  ultimately show ?thesis using ex inv unfolding worker_inv_def by (auto simp: p' set_worker_def)
qed

lemma worker_inv_call:
  assumes act: "on_call i g p = Some p'" and inv: "worker_inv p"
    and g: "\<And>d k. serves p i k \<Longrightarrow> g d k (ip_calls p ! k) = Some p' \<Longrightarrow> worker_inv p'"
  shows "worker_inv p'"
  using act g by (elim on_call_Some) (auto simp: serves_def)

lemma serves_index: "worker_inv p \<Longrightarrow> serves p i k \<Longrightarrow> k < length (ip_calls p)"
  by (auto simp: worker_inv_def)

text \<open>A worker drains only after the stop.\<close>

fun draining :: "worker \<Rightarrow> bool" where
  "draining (Polling d) = d"
| "draining (Busy d k) = d"
| "draining Exited = True"

definition drain_inv :: "'h invoke_pool \<Rightarrow> bool" where
  "drain_inv p \<longleftrightarrow> (\<forall>w \<in> set (ip_workers p). draining w \<longrightarrow> ip_stop p)"

lemma drain_inv_frame [simp]:
  "drain_inv (wg_add d p) = drain_inv p" "drain_inv (upd_call k f p) = drain_inv p"
  "drain_inv (p\<lparr>ip_sink := s\<rparr>) = drain_inv p" "drain_inv (p\<lparr>ip_adding := b\<rparr>) = drain_inv p"
  "drain_inv (p\<lparr>ip_shutdown := h\<rparr>) = drain_inv p" "drain_inv (p\<lparr>ip_calls := cs\<rparr>) = drain_inv p"
  "drain_inv (p\<lparr>ip_dispatchQueue := q\<rparr>) = drain_inv p" "drain_inv (p\<lparr>ip_accepting := b\<rparr>) = drain_inv p"
  "drain_inv (p\<lparr>ip_accepted := js\<rparr>) = drain_inv p" "drain_inv (p\<lparr>ip_stop := True\<rparr>)"
  by (simp_all add: drain_inv_def wg_add_def upd_call_def)

lemma drain_inv_set_worker:
  "drain_inv p \<Longrightarrow> (draining v \<Longrightarrow> ip_stop p) \<Longrightarrow> drain_inv (set_worker i v p)"
  using set_update_subset_insert [of "ip_workers p" i v] by (auto simp: drain_inv_def set_worker_def)

lemma drain_inv_at:
  "drain_inv p \<Longrightarrow> i < length (ip_workers p) \<Longrightarrow> draining (ip_workers p ! i) \<Longrightarrow> ip_stop p"
  by (auto simp: drain_inv_def)

lemma ip_stop_frame [simp]:
  "ip_stop (wg_add d p) = ip_stop p" "ip_stop (upd_call k f p) = ip_stop p" "ip_stop (set_worker i v p) = ip_stop p"
  by (simp_all add: wg_add_def upd_call_def set_worker_def)

lemmas pool_steps = enqueue_def enqueue_add_def shutdown_refuse_def shutdown_close_def shutdown_wait_def
  invokeWorker_recv_def invokeWorker_stop_def drainDispatchQueue_end_def handler_ends_def invokeHandler_return_def
  invokeHandler_cancel_def invokeHandler_recover_def invokeJob_timeout_def invokeJob_send_def invokeJob_done_def
  deadline_passes_def watcher_swap_def watcher_report_def watcher_done_def

lemma drain_inv_act: "pool_act a p = Some p' \<Longrightarrow> drain_inv p \<Longrightarrow> drain_inv p'"
  by (cases a; auto simp: pool_steps on_call_def on_watch_def
      split: if_splits worker.splits list.splits call_phase.splits
      intro!: drain_inv_set_worker dest: drain_inv_at)

lemma worker_inv_act:
  assumes act: "pool_act a p = Some p'" and inv: "worker_inv p" and dr: "drain_inv p" and pi: "pool_inv p"
  shows "worker_inv p'"
proof -
  note upd = worker_inv_upd [OF inv] and frame = worker_inv_frame [OF inv] and idx = serves_index [OF inv]
  show ?thesis
  proof (cases a)
    case (JobDone i)
    show ?thesis
    proof (rule worker_inv_call [OF act [unfolded JobDone pool_act.simps invokeJob_done_def] inv])
      fix d k
      assume sv: "serves p i k" and "(case iv_call (ip_calls p ! k) of Releasing response err \<Rightarrow>
         Some (set_worker i (Polling d) (wg_add (- 1) (upd_call k (\<lambda>c. c\<lparr>iv_call := Finished response err\<rparr>) p)))
       | _ \<Rightarrow> None) = Some p'"
      then obtain r e where c: "iv_call (ip_calls p ! k) = Releasing r e"
        and p': "p' = set_worker i (Polling d) (wg_add (- 1) (upd_call k (\<lambda>c. c\<lparr>iv_call := Finished r e\<rparr>) p))"
        by (auto split: call_phase.splits)
      show "worker_inv p'"
        by (rule worker_inv_leave [OF inv sv]) (simp_all add: p' set_worker_def wg_add_def upd_call_def)
    qed
  next
    case (JobTimeout i)
    show ?thesis
      by (rule worker_inv_call [OF act [unfolded JobTimeout pool_act.simps invokeJob_timeout_def] inv])
        (auto simp: set_worker_def split: if_splits intro!: worker_inv_idle [OF inv, unfolded set_worker_def])
  next
    case (HandlerEnds i out)
    show ?thesis
      by (rule worker_inv_call [OF act [unfolded HandlerEnds pool_act.simps handler_ends_def] inv])
        (auto dest: idx split: if_splits outcome.splits intro!: upd)
  next
    case (HandlerReturn i)
    show ?thesis
      by (rule worker_inv_call [OF act [unfolded HandlerReturn pool_act.simps invokeHandler_return_def] inv])
        (auto dest: idx split: call_phase.splits if_splits intro!: upd)
  next
    case (HandlerCancel i)
    show ?thesis
      by (rule worker_inv_call [OF act [unfolded HandlerCancel pool_act.simps invokeHandler_cancel_def] inv])
        (auto dest: idx split: call_phase.splits if_splits intro!: upd)
  next
    case (HandlerRecover i)
    show ?thesis
      by (rule worker_inv_call [OF act [unfolded HandlerRecover pool_act.simps invokeHandler_recover_def] inv])
        (auto dest: idx split: call_phase.splits if_splits intro!: upd)
  next
    case (JobSend i)
    show ?thesis
      by (rule worker_inv_call [OF act [unfolded JobSend pool_act.simps invokeJob_send_def] inv])
        (auto dest: idx split: call_phase.splits intro!: upd)
  next
    case (Deadline k)
    then show ?thesis using act by (auto simp: deadline_passes_def on_watch_Some split: if_splits intro!: upd)
  next
    case (WatchSwap k)
    then show ?thesis using act by (auto simp: watcher_swap_def on_watch_Some split: if_splits intro!: upd)
  next
    case (WatchReport k)
    then show ?thesis using act
      by (auto simp: watcher_report_def on_watch_Some split: if_splits intro!: upd)
  next
    case (WatchDone k)
    then show ?thesis using act
      by (auto simp: watcher_done_def on_watch_Some split: if_splits intro!: upd)
  next
    case (WorkerRecv i)
    then show ?thesis using act inv by (simp add: worker_inv_recv)
  next
    case (WorkerStop i)
    then show ?thesis using act by (auto simp: invokeWorker_stop_def split: if_splits intro!: worker_inv_move [OF inv])
  next
    case (DrainEnd i)
    then have w: "i < length (ip_workers p)" "ip_workers p ! i = Polling True" "ip_dispatchQueue p = []"
      and p': "p' = set_worker i Exited p"
      using act by (auto simp: drainDispatchQueue_end_def split: if_splits)
    have "\<not> ip_accepting p" using drain_inv_at [OF dr w(1)] w(2) inv by (simp add: worker_inv_def)
    then show ?thesis unfolding p' by (intro worker_inv_move [OF inv w(1,2)]) (simp add: w(3))
  next
    case (Enqueue job)
    then show ?thesis using act inv by (auto simp: enqueue_def split: if_splits intro!: frame)
  next
    case EnqueueAdd
    then show ?thesis using act by (auto simp: enqueue_add_def wg_add_def split: if_splits intro!: frame)
  next
    case ShutdownRefuse
    then show ?thesis using act by (auto simp: shutdown_refuse_def split: if_splits intro!: frame)
  next
    case ShutdownClose
    then show ?thesis using act pi by (auto simp: shutdown_close_def pool_inv_def split: if_splits intro!: frame)
  next
    case ShutdownWait
    then show ?thesis using act by (auto simp: shutdown_wait_def split: if_splits intro!: frame)
  qed
qed

lemma worker_inv_started: "worker_inv started_pool" "drain_inv started_pool"
  by (auto simp: worker_inv_def drain_inv_def serves_def started_pool_def pool_start_def new_invoke_pool_def)

lemma worker_inv_run:
  "pool_run as p = Some p' \<Longrightarrow> worker_inv p \<Longrightarrow> drain_inv p \<Longrightarrow> pool_inv p \<Longrightarrow> worker_inv p' \<and> drain_inv p'"
  by (induction as arbitrary: p) (auto simp: bind_eq_Some_conv worker_inv_act drain_inv_act pool_act_inv split: if_splits)

text \<open>The steps a shutdown can still take, in a number that each of the steps below decreases.\<close>

fun call_rank :: "call_phase \<Rightarrow> nat" where
  "call_rank Calling = 5"
| "call_rank (Returned r e) = 4"
| "call_rank (Panicking x) = 4"
| "call_rank (Recovering x) = 3"
| "call_rank (Sending r e) = 2"
| "call_rank (Releasing r e) = 1"
| "call_rank _ = 0"

fun watch_rank :: "watch_phase \<Rightarrow> nat" where
  "watch_rank Reporting = 2"
| "watch_rank WatchReleasing = 1"
| "watch_rank _ = 0"

fun worker_rank :: "worker \<Rightarrow> nat" where
  "worker_rank (Busy d k) = 1"
| "worker_rank _ = 0"

fun shutdown_rank :: "shutdown_phase \<Rightarrow> nat" where
  "shutdown_rank NotShut = 3"
| "shutdown_rank ShutStopping = 2"
| "shutdown_rank ShutWaiting = 1"
| "shutdown_rank ShutReturned = 0"

definition iv_rank :: "'h invocation \<Rightarrow> nat" where
  "iv_rank c = call_rank (iv_call c) + watch_rank (iv_watch c)"

definition pool_rank :: "'h invoke_pool \<Rightarrow> nat" where
  "pool_rank p = (if ip_adding p then 1 else 0) + 7 * length (ip_dispatchQueue p)
     + sum_list (map iv_rank (ip_calls p)) + sum_list (map worker_rank (ip_workers p))
     + shutdown_rank (ip_shutdown p)"

lemma pool_rank_upd:
  "k < length (ip_calls p) \<Longrightarrow>
     pool_rank (upd_call k f p) + iv_rank (ip_calls p ! k) = pool_rank p + iv_rank (f (ip_calls p ! k))"
  using sum_list_map_update [of k "ip_calls p" iv_rank "f (ip_calls p ! k)"]
  by (simp add: pool_rank_def upd_call_def)

lemma pool_rank_set_worker:
  "i < length (ip_workers p) \<Longrightarrow>
     pool_rank (set_worker i v p) + worker_rank (ip_workers p ! i) = pool_rank p + worker_rank v"
  using sum_list_map_update [of i "ip_workers p" worker_rank v]
  by (simp add: pool_rank_def set_worker_def)

lemma pool_rank_frame [simp]:
  "pool_rank (wg_add d p) = pool_rank p" "pool_rank (p\<lparr>ip_sink := s\<rparr>) = pool_rank p"
  by (simp_all add: pool_rank_def wg_add_def)

lemma crashed_frame [simp]:
  "ip_crashed (upd_call k f p) = ip_crashed p" "ip_crashed (set_worker i v p) = ip_crashed p"
  "ip_crashed (wg_add d p) = (ip_crashed p \<or> ip_wg p + d < 0)" "ip_wg (upd_call k f p) = ip_wg p"
  by (simp_all add: upd_call_def set_worker_def wg_add_def)

lemma upd_call_rank_less:
  "k < length (ip_calls p) \<Longrightarrow> iv_rank (f (ip_calls p ! k)) < iv_rank (ip_calls p ! k) \<Longrightarrow>
     pool_rank (upd_call k f p) < pool_rank p"
  using pool_rank_upd [of k p f] by linarith

lemma unreleased_counted:
  assumes "pool_inv p" and "\<not> ip_adding p" and "k < length (ip_calls p)" and "\<not> released (ip_calls p ! k)"
  shows "1 \<le> ip_wg p"
proof -
  have "sum_list (map unreleased (ip_calls p)) \<noteq> 0"
    using assms(3,4) nth_mem by (fastforce simp: sum_unreleased_zero)
  then show ?thesis using assms(1,2) sum_unreleased_nonneg [of "ip_calls p"] by (simp add: pool_inv_def)
qed

lemma one_winner_nth: "pool_inv p \<Longrightarrow> k < length (ip_calls p) \<Longrightarrow> one_winner (ip_calls p ! k)"
  by (simp add: pool_inv_def)

definition closes_in :: "outcome \<Rightarrow> 'h pool_action \<Rightarrow> bool" where
  "closes_in out a \<longleftrightarrow> (\<forall>job. a \<noteq> Enqueue job) \<and> (\<forall>k. a \<noteq> Deadline k) \<and> (\<forall>i o'. a = HandlerEnds i o' \<longrightarrow> o' = out)"

definition steps_down :: "outcome \<Rightarrow> 'h invoke_pool \<Rightarrow> bool" where
  "steps_down out p \<longleftrightarrow> (\<exists>a p'. pool_act a p = Some p' \<and> closes_in out a \<and> \<not> ip_crashed p' \<and> pool_rank p' < pool_rank p)"

lemma steps_downI:
  "pool_act a p = Some p' \<Longrightarrow> closes_in out a \<Longrightarrow> \<not> ip_crashed p' \<Longrightarrow> pool_rank p' < pool_rank p \<Longrightarrow> steps_down out p"
  by (auto simp: steps_down_def)

lemma watcher_steps_down:
  assumes inv: "pool_inv p" and nc: "\<not> ip_crashed p" and na: "\<not> ip_adding p" and k: "k < length (ip_calls p)"
    and w: "iv_watch (ip_calls p ! k) = Reporting \<or> iv_watch (ip_calls p ! k) = WatchReleasing"
  shows "steps_down out p"
  using w
proof
  assume r: "iv_watch (ip_calls p ! k) = Reporting"
  have "pool_act (WatchReport k) p = Some ((upd_call k (\<lambda>c. c\<lparr>iv_watch := WatchReleasing\<rparr>) p)\<lparr>ip_sink := ip_sink p @
      [SendDispatchError (dj_correlationID (iv_job (ip_calls p ! k))) DispatchErrorTimeout]\<rparr>)"
    using r k by (simp add: watcher_report_def on_watch_def)
  then show ?thesis
    by (rule steps_downI) (use r k nc in \<open>auto simp: closes_in_def iv_rank_def intro!: upd_call_rank_less\<close>)
next
  assume r: "iv_watch (ip_calls p ! k) = WatchReleasing"
  have "\<not> released (ip_calls p ! k)" using one_winner_nth [OF inv k] r by (auto simp: one_winner_def released_def)
  then have wg: "1 \<le> ip_wg p" by (rule unreleased_counted [OF inv na k])
  have act: "pool_act (WatchDone k) p = Some (wg_add (- 1) (upd_call k (\<lambda>c. c\<lparr>iv_watch := WatchFinished\<rparr>) p))"
    using r k by (simp add: watcher_done_def on_watch_def)
  show ?thesis using r k nc wg
    by (intro steps_downI [OF act]) (auto simp: closes_in_def iv_rank_def intro!: upd_call_rank_less)
qed

lemma call_steps_down:
  assumes inv: "pool_inv p" and nc: "\<not> ip_crashed p" and na: "\<not> ip_adding p"
    and i: "serves p i k" and k: "k < length (ip_calls p)" and nf: "\<not> call_finished (iv_call (ip_calls p ! k))"
  shows "steps_down out p"
proof -
  obtain d where w: "i < length (ip_workers p)" "ip_workers p ! i = Busy d k" using i by (auto simp: serves_def)
  have call: "on_call i g p = g d k (ip_calls p ! k)" for g using w by (simp add: on_call_def)
  have upd: ?thesis if "pool_act a p = Some (upd_call k f p)" "closes_in out a"
    "iv_rank (f (ip_calls p ! k)) < iv_rank (ip_calls p ! k)" for a f
    by (rule steps_downI [OF that(1,2)]) (use nc upd_call_rank_less [of k p f] k that(3) in simp_all)
  have idle: "pool_rank (set_worker i (Polling d) q) < pool_rank q" if "ip_workers q = ip_workers p" for q
    using pool_rank_set_worker [of i q "Polling d"] w that by simp
  show ?thesis
  proof (cases "iv_call (ip_calls p ! k)")
    case Calling
    then show ?thesis
      by (intro upd [of "HandlerEnds i out" "\<lambda>c. c\<lparr>iv_call := (case out of
          HandlerReturns response err \<Rightarrow> Returned response err | HandlerPanics r \<Rightarrow> Panicking r)\<rparr>"])
        (simp_all add: handler_ends_def call closes_in_def iv_rank_def split: outcome.split)
  next
    case (Returned r e)
    then show ?thesis
      by (intro upd [of "HandlerReturn i" "\<lambda>c. c\<lparr>iv_completed := True, iv_cancelled := True,
            iv_call := (if iv_completed c then LostToDeadline else Sending r e)\<rparr>"]) (simp_all add: invokeHandler_return_def call closes_in_def iv_rank_def)
  next
    case (Panicking x)
    then show ?thesis
      by (intro upd [of "HandlerCancel i" "\<lambda>c. c\<lparr>iv_cancelled := True, iv_call := Recovering x\<rparr>"]) (simp_all add: invokeHandler_cancel_def call closes_in_def iv_rank_def)
  next
    case (Recovering x)
    then show ?thesis
      by (intro upd [of "HandlerRecover i" "\<lambda>c. c\<lparr>iv_completed := True, iv_call := (if iv_completed c then LostToDeadline
            else Sending [] (Some (''ddrc: dispatch handler panicked: '' @ x)))\<rparr>"]) (simp_all add: invokeHandler_recover_def call closes_in_def iv_rank_def)
  next
    case (Sending r e)
    have "pool_act (JobSend i) p = Some ((upd_call k (\<lambda>c. c\<lparr>iv_call := Releasing r e\<rparr>) p)\<lparr>ip_sink := ip_sink p @
        [SendDispatchResult \<lparr>gr_correlationID = dj_correlationID (iv_job (ip_calls p ! k)), gr_response = r, gr_err = e\<rparr>]\<rparr>)"
      using Sending by (simp add: invokeJob_send_def call)
    then show ?thesis
      by (rule steps_downI) (use Sending nc k in \<open>auto simp: closes_in_def iv_rank_def intro!: upd_call_rank_less\<close>)
  next
    case (Releasing r e)
    let ?q = "upd_call k (\<lambda>c. c\<lparr>iv_call := Finished r e\<rparr>) p"
    have "\<not> released (ip_calls p ! k)" using one_winner_nth [OF inv k] Releasing by (auto simp: one_winner_def released_def)
    then have wg: "1 \<le> ip_wg p" by (rule unreleased_counted [OF inv na k])
    have workers: "ip_workers (wg_add (- 1) ?q) = ip_workers p" by (simp add: wg_add_def upd_call_def)
    have act: "pool_act (JobDone i) p = Some (set_worker i (Polling d) (wg_add (- 1) ?q))"
      using Releasing by (simp add: invokeJob_done_def call)
    have "pool_rank (set_worker i (Polling d) (wg_add (- 1) ?q)) < pool_rank ?q"
      using idle [of "wg_add (- 1) ?q"] workers by simp
    moreover have "pool_rank ?q < pool_rank p" using Releasing k by (intro upd_call_rank_less) (simp_all add: iv_rank_def)
    ultimately show ?thesis using nc wg by (intro steps_downI [OF act]) (simp_all add: closes_in_def)
  next
    case LostToDeadline
    have "pool_act (JobTimeout i) p = Some (set_worker i (Polling d) p)"
      using LostToDeadline by (simp add: invokeJob_timeout_def call)
    then show ?thesis using nc idle [of p] by (intro steps_downI [of "JobTimeout i"]) (simp_all add: closes_in_def)
  qed (use nf in simp)
qed

lemma recv_steps_down:
  assumes inv: "worker_inv p" and nc: "\<not> ip_crashed p" and q: "ip_dispatchQueue p \<noteq> []"
    and idle: "\<And>i k. \<not> serves p i k"
  shows "steps_down out p"
proof -
  have "0 < length (ip_workers p)" "Exited \<notin> set (ip_workers p)" using inv q by (auto simp: worker_inv_def invokeWorkerCount_def)
  then have w: "0 < length (ip_workers p)" "ip_workers p ! 0 \<noteq> Exited" using nth_mem by fastforce+
  then obtain d where d: "ip_workers p ! 0 = Polling d"
    using idle [of 0] by (cases "ip_workers p ! 0") (auto simp: serves_def)
  obtain job q' where q': "ip_dispatchQueue p = job # q'" using q by (cases "ip_dispatchQueue p") auto
  let ?q = "p\<lparr>ip_dispatchQueue := q', ip_calls := ip_calls p @ [new_invocation job]\<rparr>"
  have "pool_act (WorkerRecv 0) p = Some (set_worker 0 (Busy d (length (ip_calls p))) ?q)"
    using w d q' by (simp add: invokeWorker_recv_def)
  moreover have "pool_rank (set_worker 0 (Busy d (length (ip_calls p))) ?q) < pool_rank p"
    using pool_rank_set_worker [of 0 ?q "Busy d (length (ip_calls p))"] w d q'
    by (simp add: pool_rank_def iv_rank_def new_invocation_def)
  ultimately show ?thesis using nc by (intro steps_downI [of "WorkerRecv 0"]) (simp_all add: closes_in_def)
qed

lemma shutdown_steps_down:
  assumes inv: "pool_inv p" and nc: "\<not> ip_crashed p" and na: "\<not> ip_adding p" and q: "ip_dispatchQueue p = []"
    and over: "\<And>c. c \<in> set (ip_calls p) \<Longrightarrow> call_over (iv_call c) \<and> iv_watch c \<noteq> Reporting \<and> iv_watch c \<noteq> WatchReleasing"
    and ns: "ip_shutdown p \<noteq> ShutReturned"
  shows "steps_down out p"
proof -
  have "released c" if c: "c \<in> set (ip_calls p)" for c
  proof -
    have "one_winner c" using inv c by (simp add: pool_inv_def)
    then show ?thesis using over [OF c] by (cases "iv_call c"; cases "iv_watch c") (auto simp: one_winner_def released_def)
  qed
  then have wg: "ip_wg p = 0" using inv na q sum_unreleased_zero [of "ip_calls p"] by (simp add: pool_inv_def)
  show ?thesis
  proof (cases "ip_shutdown p")
    case NotShut
    then show ?thesis using na nc
      by (intro steps_downI [of ShutdownRefuse _ "p\<lparr>ip_accepting := False, ip_shutdown := ShutStopping\<rparr>"]) (simp_all add: shutdown_refuse_def closes_in_def pool_rank_def)
  next
    case ShutStopping
    then show ?thesis using nc
      by (intro steps_downI [of ShutdownClose _ "p\<lparr>ip_stop := True, ip_shutdown := ShutWaiting\<rparr>"]) (simp_all add: shutdown_close_def closes_in_def pool_rank_def)
  next
    case ShutWaiting
    then show ?thesis using nc wg
      by (intro steps_downI [of ShutdownWait _ "p\<lparr>ip_shutdown := ShutReturned\<rparr>"]) (simp_all add: shutdown_wait_def closes_in_def pool_rank_def)
  qed (use ns in simp)
qed

lemma pool_progress:
  assumes inv: "pool_inv p" "worker_inv p" and nc: "\<not> ip_crashed p" and ns: "ip_shutdown p \<noteq> ShutReturned"
  shows "steps_down out p"
proof (cases "ip_adding p")
  case True
  then have wg: "- 1 \<le> ip_wg p" using inv(1) sum_unreleased_nonneg [of "ip_calls p"] by (simp add: pool_inv_def)
  have act: "pool_act EnqueueAdd p = Some ((wg_add 1 p)\<lparr>ip_adding := False\<rparr>)" using True by (simp add: enqueue_add_def)
  show ?thesis using True nc wg
    by (intro steps_downI [OF act]) (simp_all add: closes_in_def pool_rank_def wg_add_def)
next
  case na: False
  show ?thesis
  proof (cases "\<exists>k < length (ip_calls p). iv_watch (ip_calls p ! k) = Reporting \<or> iv_watch (ip_calls p ! k) = WatchReleasing")
    case True
    then show ?thesis using watcher_steps_down [OF inv(1) nc na] by blast
  next
    case nw: False
    show ?thesis
    proof (cases "\<exists>i k. serves p i k")
      case True
      then obtain i k where "serves p i k" by blast
      then show ?thesis using inv(2) by (intro call_steps_down [OF inv(1) nc na]) (auto simp: worker_inv_def)
    next
      case ni: False
      show ?thesis
      proof (cases "ip_dispatchQueue p = []")
        case True
        have "call_over (iv_call (ip_calls p ! k))" if "k < length (ip_calls p)" for k
          using that ni inv(2) by (auto simp: worker_inv_def)
        then show ?thesis using nw
          by (intro shutdown_steps_down [OF inv(1) nc na True _ ns]) (auto simp: in_set_conv_nth)
      qed (use recv_steps_down [OF inv(2) nc] ni in blast)
    qed
  qed
qed

lemma pool_completes:
  "pool_inv p \<Longrightarrow> worker_inv p \<Longrightarrow> drain_inv p \<Longrightarrow> \<not> ip_crashed p \<Longrightarrow>
     \<exists>bs p'. pool_run bs p = Some p' \<and> list_all (closes_in out) bs \<and> \<not> ip_crashed p' \<and> ip_shutdown p' = ShutReturned"
proof (induction "pool_rank p" arbitrary: p rule: less_induct)
  case less
  show ?case
  proof (cases "ip_shutdown p = ShutReturned")
    case True
    then show ?thesis using less.prems by (intro exI [of _ "[]"]) simp
  next
    case False
    then have "steps_down out p" using less.prems by (intro pool_progress)
    then obtain a q where a: "pool_act a p = Some q" "closes_in out a" "\<not> ip_crashed q" "pool_rank q < pool_rank p"
      by (auto simp: steps_down_def)
    moreover have "pool_inv q" "worker_inv q" "drain_inv q"
      using a(1) less.prems by (auto intro: pool_act_inv worker_inv_act drain_inv_act)
    ultimately obtain bs p' where "pool_run bs q = Some p'" "list_all (closes_in out) bs" "\<not> ip_crashed p'"
      "ip_shutdown p' = ShutReturned" using less.hyps by blast
    then show ?thesis using a less.prems by (intro exI [of _ "a # bs"] exI [of _ p']) simp
  qed
qed

lemma closes_accepted:
  "pool_run bs p = Some p' \<Longrightarrow> list_all (closes_in out) bs \<Longrightarrow> ip_accepted p' = ip_accepted p"
proof (induction bs arbitrary: p)
  case (Cons b bs)
  then obtain q where q: "pool_act b p = Some q" "pool_run bs q = Some p'"
    by (auto simp: bind_eq_Some_conv split: if_splits)
  have "ip_accepted q = ip_accepted p" using q(1) Cons.prems(2)
    by (cases b) (auto simp: closes_in_def pool_steps on_call_def on_watch_def wg_add_def upd_call_def set_worker_def
        split: if_splits worker.splits list.splits call_phase.splits)
  then show ?case using Cons.IH [OF q(2)] Cons.prems(2) by simp
qed simp

text \<open>
  C32. The shutdown can always complete. From every state the running pool can be in, whatever was
  enqueued and wherever the workers, the watchers and a shutdown are, and however the handlers
  that still run end, there is a continuation without further jobs and without any deadline
  passing in which the shutdown returns, with every job that was ever accepted answered exactly
  once.
\<close>

theorem pool_shutdown_completes:
  assumes "pool_run as started_pool = Some p" and "\<not> ip_crashed p"
  shows "\<exists>bs p'. pool_run bs p = Some p' \<and> list_all (closes_in out) bs \<and> \<not> ip_crashed p'
     \<and> ip_shutdown p' = ShutReturned \<and> ip_dispatchQueue p' = []
     \<and> image_mset sink_correlationID (mset (ip_sink p')) = mset (map dj_correlationID (ip_accepted p'))
     \<and> ip_accepted p' = ip_accepted p"
proof -
  have inv: "pool_inv p" using pool_run_inv [OF assms(1) pool_inv_started] .
  moreover have "worker_inv p" "drain_inv p"
    using worker_inv_run [OF assms(1)] worker_inv_started pool_inv_started by blast+
  ultimately obtain bs p' where r: "pool_run bs p = Some p'" "list_all (closes_in out) bs" "\<not> ip_crashed p'"
    "ip_shutdown p' = ShutReturned" using pool_completes [of p out] assms(2) by blast
  have inv': "pool_inv p'" by (rule pool_run_inv [OF r(1) inv])
  then have "ip_dispatchQueue p' = []" using r(4) by (simp add: pool_inv_def)
  then show ?thesis using r returned_answers [OF inv'] closes_accepted [OF r(1,2)] by blast
qed

text \<open>Two jobs are accepted, one is in its handler, and a shutdown has begun.\<close>

definition sample_busy_run :: "unit pool_action list" where
  "sample_busy_run = [Enqueue sample_job, EnqueueAdd, WorkerRecv 3, Enqueue sample_job, EnqueueAdd, ShutdownRefuse]"

lemma sample_busy:
  "\<exists>p. pool_run sample_busy_run started_pool = Some p \<and> \<not> ip_crashed p \<and> ip_accepted p = [sample_job, sample_job]"
  by (simp add: sample_busy_run_def pool_eval sample_job_def eval_nat_numeral)

theorem pool_shutdown_completes_witness:
  "\<exists>p bs p'. pool_run sample_busy_run started_pool = Some p \<and> pool_run bs p = Some p'
     \<and> list_all (closes_in (HandlerPanics ''boom'')) bs \<and> ip_shutdown p' = ShutReturned
     \<and> image_mset sink_correlationID (mset (ip_sink p')) = {#7, 7#}"
proof -
  obtain p where p: "pool_run sample_busy_run started_pool = Some p" "\<not> ip_crashed p"
    "ip_accepted p = [sample_job, sample_job]" using sample_busy by blast
  obtain bs p' where "pool_run bs p = Some p'" "list_all (closes_in (HandlerPanics ''boom'')) bs"
    "ip_shutdown p' = ShutReturned" "ip_accepted p' = ip_accepted p"
    "image_mset sink_correlationID (mset (ip_sink p')) = mset (map dj_correlationID (ip_accepted p'))"
    using pool_shutdown_completes [OF p(1,2), of "HandlerPanics ''boom''"] by blast
  moreover from this have "image_mset sink_correlationID (mset (ip_sink p')) = {#7, 7#}"
    using p(3) by (simp add: sample_job_def)
  ultimately show ?thesis using p(1) by blast
qed

end
