(* ===== verification/Go_Host.thy ===== *)
theory Go_Host
  imports FFI_Ctx Go_Pool
begin

text \<open>
  The bindings of the Go host: \<open>registry.go\<close>, \<open>lifecycle.go\<close>, \<open>pinnedhandle.go\<close>, \<open>ffi.go\<close>,
  \<open>connection.go\<close>, \<open>context.go\<close> and \<open>log_sink.go\<close> of \<open>internal/libddrcffi\<close>. They are composed
  with the pool of handlers and with the functions of the C interface: a call that crosses the
  boundary is the model of the Rust function behind it. The marshalling of protocol buffers is
  the parameter \<open>go_proto\<close>.

  The methods of a connection hold its lock, so each is one step of the host; \<open>Close\<close> waits for the
  pool while it holds the lock and has a step before and after the wait. The pools, the callbacks of
  the library and the methods of all connections interleave freely.
\<close>

section \<open>Errors\<close>

text \<open>The error values of the package; the other ones keep what their text is made of.\<close>

datatype go_error =
    ErrConnectionClosed
  | ErrConnectionNotConnected
  | ErrConnectionAlreadyConnected
  | ErrEmptyPayload
  | ErrContextClosed
  | ErrHandlerExists
  | ErrHandlerNotFound
  | ErrLogSinkAlreadySet
  | ErrText string
  | ErrConnRet string conn_ret
  | ErrRecvRet recv_ret
  | ErrLogSinkRet log_sink_ret
  | ErrWrapped string go_error

section \<open>The registry of handlers\<close>

text \<open>A string of Go is its bytes.\<close>

type_synonym 'h handler_registry = "bytes \<Rightarrow> 'h option"

definition registry_register ::
  "bytes \<Rightarrow> 'h \<Rightarrow> 'h handler_registry \<Rightarrow> go_error option \<times> 'h handler_registry" where
  "registry_register uri h d =
     (if d uri \<noteq> None then (Some ErrHandlerExists, d) else (None, d(uri \<mapsto> h)))"

definition registry_unregister ::
  "bytes \<Rightarrow> 'h handler_registry \<Rightarrow> go_error option \<times> 'h handler_registry" where
  "registry_unregister uri d =
     (if d uri = None then (Some ErrHandlerNotFound, d) else (None, d(uri := None)))"

definition registry_lookup :: "bytes \<Rightarrow> 'h handler_registry \<Rightarrow> 'h option" where
  "registry_lookup uri d = d uri"

section \<open>The lifecycle of a connection\<close>

record conn_lifecycle =
  cl_closed :: bool
  cl_connected :: bool

definition markConnected :: "conn_lifecycle \<Rightarrow> go_error option \<times> conn_lifecycle" where
  "markConnected l =
     (if cl_closed l then (Some ErrConnectionClosed, l)
      else if cl_connected l then (Some ErrConnectionAlreadyConnected, l)
      else (None, l\<lparr>cl_connected := True\<rparr>))"

definition markClosed :: "conn_lifecycle \<Rightarrow> (go_error + bool) \<times> conn_lifecycle" where
  "markClosed l =
     (if cl_closed l then (Err ErrConnectionClosed, l)
      else (Ok (cl_connected l), l\<lparr>cl_closed := True\<rparr>))"

definition checkRecvable :: "conn_lifecycle \<Rightarrow> go_error option" where
  "checkRecvable l =
     (if cl_closed l then Some ErrConnectionClosed
      else if \<not> cl_connected l then Some ErrConnectionNotConnected
      else None)"

section \<open>Handles\<close>

text \<open>
  The handles of \<open>runtime/cgo\<close>: a handle is a fresh number and is the address given to the library
  as well; the use and the release of one that is not live panic.
\<close>

record 'v cgo_handles =
  cg_values :: "nat \<Rightarrow> 'v option"
  cg_next :: nat

definition newPinnedHandle :: "'v \<Rightarrow> 'v cgo_handles \<Rightarrow> nat \<times> 'v cgo_handles" where
  "newPinnedHandle v t =
     (cg_next t, t\<lparr>cg_values := (cg_values t)(cg_next t \<mapsto> v), cg_next := Suc (cg_next t)\<rparr>)"

definition handle_misuse :: string where
  "handle_misuse = ''runtime/cgo: misuse of an invalid Handle''"

definition handle_release :: "nat \<Rightarrow> 'v cgo_handles \<Rightarrow> 'v cgo_handles run" where
  "handle_release h t =
     (if cg_values t h = None then Panic handle_misuse
      else Ret (t\<lparr>cg_values := (cg_values t)(h := None)\<rparr>))"

definition connStateFromUserData :: "'v cgo_handles \<Rightarrow> user_data \<Rightarrow> 'v option run" where
  "connStateFromUserData t userData =
     (if userData = 0 then Ret None
      else case cg_values t userData of None \<Rightarrow> Panic handle_misuse | Some st \<Rightarrow> Ret (Some st))"

text \<open>A callback that panics returns the given value and has changed nothing.\<close>

definition recoverCallback :: "'a \<Rightarrow> 'a run \<Rightarrow> 'a" where
  "recoverCallback onPanic m = (case m of Ret r \<Rightarrow> r | Panic _ \<Rightarrow> onPanic)"

section \<open>The calls into the library\<close>

text \<open>The addresses of the exported callbacks.\<close>

definition goDispatchCb_addr :: callback where
  "goDispatchCb_addr = 1"

definition goSendCb_addr :: callback where
  "goSendCb_addr = 2"

definition newCgoConn ::
  "bool \<Rightarrow> 'w ffi_env \<Rightarrow> nat \<Rightarrow> user_data \<Rightarrow> ffi_heap \<times> 'w \<Rightarrow> ((go_error + nat) \<times> ffi_heap \<times> 'w) comp" where
  "newCgoConn debug F ctxPtr userData x =
     comp_bind (Some (rc_conn_new F ctxPtr goDispatchCb_addr userData x)) (\<lambda>(ptr, y).
       if ptr = 0 then done_with (Err (ErrText ''ddrc: rc_conn_new returned a nil connection''), y)
       else comp_bind (rc_conn_send_callback debug ptr goSendCb_addr userData y) (\<lambda>(ret, z).
         done_with (Ok ptr, z)))"

text \<open>The address of the first byte of an empty slice cannot be taken.\<close>

definition first_byte :: "bytes \<Rightarrow> 'a comp \<Rightarrow> 'a comp" where
  "first_byte data k = (if data = [] then Some (Panic ''index out of range [0] with length 0'') else k)"

definition cgo_connected ::
  "bool \<Rightarrow> 'w ffi_env \<Rightarrow> nat \<Rightarrow> bytes \<Rightarrow> ffi_heap \<times> 'w \<Rightarrow> (go_error option \<times> ffi_heap \<times> 'w) comp" where
  "cgo_connected debug F ptr endpointHostname x =
     first_byte endpointHostname
       (comp_bind (rc_conn_connected debug F ptr (Some endpointHostname) x) (\<lambda>(ret, y).
          done_with (if ret \<noteq> ConnSuccess then Some (ErrConnRet ''ddrc: rc_conn_connected returned'' ret) else None, y)))"

definition cgo_recv ::
  "bool \<Rightarrow> proto_codec \<Rightarrow> 'w ffi_env \<Rightarrow> nat \<Rightarrow> bytes \<Rightarrow> ffi_heap \<times> 'w
     \<Rightarrow> (go_error option \<times> ffi_heap \<times> 'w) comp" where
  "cgo_recv debug P F ptr data x =
     first_byte data
       (comp_bind (rc_conn_recv debug P F ptr (Some data) x) (\<lambda>(ret, y).
          done_with (if ret \<noteq> RecvSuccess then Some (ErrRecvRet ret) else None, y)))"

text \<open>A result that is not a success is only logged.\<close>

definition cgo_disconnected :: "bool \<Rightarrow> 'w ffi_env \<Rightarrow> nat \<Rightarrow> ffi_heap \<times> 'w \<Rightarrow> (ffi_heap \<times> 'w) comp" where
  "cgo_disconnected debug F ptr x = comp_bind (rc_conn_disconnected debug F ptr x) (\<lambda>(ret, y). done_with y)"

definition cgo_dispatchResult ::
  "proto_codec \<Rightarrow> 'w ffi_env \<Rightarrow> nat \<Rightarrow> u64 \<Rightarrow> bytes \<Rightarrow> ffi_heap \<times> 'w \<Rightarrow> (ffi_heap \<times> 'w) comp" where
  "cgo_dispatchResult P F ptr correlationID encoded x =
     first_byte encoded (rc_conn_dispatch_result P F ptr correlationID (Some encoded) x)"

definition cgo_dispatchError ::
  "'w ffi_env \<Rightarrow> nat \<Rightarrow> u64 \<Rightarrow> dispatch_host_error \<Rightarrow> ffi_heap \<times> 'w \<Rightarrow> (ffi_heap \<times> 'w) comp" where
  "cgo_dispatchError F ptr correlationID errorCode x = rc_conn_dispatch_error F ptr correlationID errorCode x"

definition cgo_free :: "bool \<Rightarrow> 'w ffi_env \<Rightarrow> nat \<Rightarrow> ffi_heap \<times> 'w \<Rightarrow> (ffi_heap \<times> 'w) comp" where
  "cgo_free debug F ptr x = comp_bind (rc_conn_free debug F ptr x) (\<lambda>(ret, y). done_with y)"

section \<open>A connection\<close>

definition outgoingQueueCap :: nat where
  "outgoingQueueCap = 100"

definition maxStringLen :: nat where
  "maxStringLen = 255"

text \<open>
  \<open>gc_mu\<close> is the local variable \<open>wasConnected\<close> of the \<open>Close\<close> that holds the lock and waits for the
  pool, and \<open>gc_forget\<close> is a \<open>Close\<close> that has released the lock and not yet told the context.
\<close>

record 'h go_connection =
  gc_lifecycle :: conn_lifecycle
  gc_mu :: "bool option"
  gc_forget :: bool
  gc_conn :: nat
  gc_pool :: "'h invoke_pool"
  gc_outgoing :: "bytes list"
  gc_outgoing_closed :: bool
  gc_handle :: nat

definition new_go_connection :: "nat \<Rightarrow> nat \<Rightarrow> 'h go_connection" where
  "new_go_connection ptr handle = \<lparr>gc_lifecycle = \<lparr>cl_closed = False, cl_connected = False\<rparr>, gc_mu = None,
     gc_forget = False, gc_conn = ptr, gc_pool = pool_start new_invoke_pool, gc_outgoing = [],
     gc_outgoing_closed = False, gc_handle = handle\<rparr>"

definition Connection_Connected ::
  "bool \<Rightarrow> 'w ffi_env \<Rightarrow> bytes \<Rightarrow> 'h go_connection \<times> ffi_heap \<times> 'w
     \<Rightarrow> (go_error option \<times> 'h go_connection \<times> ffi_heap \<times> 'w) comp" where
  "Connection_Connected debug F endpointHostname = (\<lambda>(c, x).
     if endpointHostname = [] then
       done_with (Some (ErrText ''libddrc: endpointHostname must not be empty''), c, x)
     else if maxStringLen < length endpointHostname then
       done_with (Some (ErrText ''libddrc: endpointHostname must not be longer than 255 bytes''), c, x)
     else
       (case markConnected (gc_lifecycle c) of
          (Some err, l) \<Rightarrow> done_with (Some err, c\<lparr>gc_lifecycle := l\<rparr>, x)
        | (None, l) \<Rightarrow>
            comp_bind (cgo_connected debug F (gc_conn c) endpointHostname x) (\<lambda>(err, y).
              done_with (err, c\<lparr>gc_lifecycle := l\<rparr>, y))))"

definition Connection_Recv ::
  "bool \<Rightarrow> proto_codec \<Rightarrow> 'w ffi_env \<Rightarrow> bytes \<Rightarrow> 'h go_connection \<times> ffi_heap \<times> 'w
     \<Rightarrow> (go_error option \<times> 'h go_connection \<times> ffi_heap \<times> 'w) comp" where
  "Connection_Recv debug P F data = (\<lambda>(c, x).
     if data = [] then done_with (Some ErrEmptyPayload, c, x)
     else
       (case checkRecvable (gc_lifecycle c) of
          Some err \<Rightarrow> done_with (Some err, c, x)
        | None \<Rightarrow>
            comp_bind (cgo_recv debug P F (gc_conn c) data x) (\<lambda>(err, y). done_with (err, c, y))))"

text \<open>\<open>Close\<close> up to the wait for the pool, and from the end of the wait to the release of the lock.\<close>

definition Connection_Close_begin :: "'h go_connection \<Rightarrow> go_error option \<times> 'h go_connection" where
  "Connection_Close_begin c =
     (case markClosed (gc_lifecycle c) of
        (Inl err, l) \<Rightarrow> (Some err, c\<lparr>gc_lifecycle := l\<rparr>)
      | (Inr wasConnected, l) \<Rightarrow> (None, c\<lparr>gc_lifecycle := l, gc_mu := Some wasConnected\<rparr>))"

definition Connection_Close_end ::
  "bool \<Rightarrow> 'w ffi_env \<Rightarrow> bool \<Rightarrow> 'h go_connection \<times> nat cgo_handles \<times> ffi_heap \<times> 'w
     \<Rightarrow> ('h go_connection \<times> nat cgo_handles \<times> ffi_heap \<times> 'w) comp" where
  "Connection_Close_end debug F wasConnected = (\<lambda>(c, t, x).
     comp_bind (if wasConnected then cgo_disconnected debug F (gc_conn c) x else done_with x) (\<lambda>y.
     comp_bind (cgo_free debug F (gc_conn c) y) (\<lambda>z.
     comp_bind (Some (handle_release (gc_handle c) t)) (\<lambda>t'.
       if gc_outgoing_closed c then Some (Panic ''close of closed channel'')
       else done_with (c\<lparr>gc_outgoing_closed := True, gc_mu := None, gc_forget := True\<rparr>, t', z)))))"

text \<open>The response of a handler on the wire, and the marshalling library.\<close>

datatype magic_tunnel_response = MtHandlerError string | MtResponse bytes

record magic_tunnel_request =
  mt_uri :: bytes
  mt_request :: bytes

record go_proto =
  gp_marshal :: "magic_tunnel_response \<Rightarrow> string + bytes"
  gp_unmarshal :: "bytes \<Rightarrow> string + magic_tunnel_request option"

definition marshalDispatchResponse :: "go_proto \<Rightarrow> bytes \<Rightarrow> string option \<Rightarrow> string + bytes" where
  "marshalDispatchResponse G response handlerErr =
     gp_marshal G (case handlerErr of Some e \<Rightarrow> MtHandlerError e | None \<Rightarrow> MtResponse response)"

definition invalid_empty_response :: string where
  "invalid_empty_response = ''sendDispatchResult: invalid empty serialised response''"

definition sendDispatchResult ::
  "proto_codec \<Rightarrow> go_proto \<Rightarrow> 'w ffi_env \<Rightarrow> nat \<Rightarrow> go_dispatch_result \<Rightarrow> ffi_heap \<times> 'w
     \<Rightarrow> (ffi_heap \<times> 'w) comp" where
  "sendDispatchResult P G F ptr result x =
     (let send = (\<lambda>encoded. cgo_dispatchResult P F ptr (gr_correlationID result)
            (if encoded = [] then
               (case marshalDispatchResponse G [] (Some invalid_empty_response) of Inl _ \<Rightarrow> [] | Inr e \<Rightarrow> e)
             else encoded) x)
      in case marshalDispatchResponse G (gr_response result) (gr_err result) of
           Inr encoded \<Rightarrow> send encoded
         | Inl err \<Rightarrow>
             (case marshalDispatchResponse G [] (Some err) of
                Inl _ \<Rightarrow> done_with x
              | Inr encoded \<Rightarrow> send encoded))"

definition sendDispatchError ::
  "'w ffi_env \<Rightarrow> nat \<Rightarrow> u64 \<Rightarrow> dispatch_host_error \<Rightarrow> ffi_heap \<times> 'w \<Rightarrow> (ffi_heap \<times> 'w) comp" where
  "sendDispatchError F ptr correlationID errorCode x = cgo_dispatchError F ptr correlationID errorCode x"

section \<open>The callbacks\<close>

text \<open>
  A callback changes the state behind its user data. \<open>None\<close> is a callback that waits for the lock of
  the pool.
\<close>

definition goDispatchCb ::
  "go_proto \<Rightarrow> 'h handler_registry \<Rightarrow> nat cgo_handles \<Rightarrow> (nat \<Rightarrow> 'h invoke_pool) \<Rightarrow> u64 \<Rightarrow> bytes \<Rightarrow> user_data
     \<Rightarrow> (dispatch_ret \<times> (nat \<times> 'h invoke_pool) option) option" where
  "goDispatchCb G registry t pools correlationID data userData =
     recoverCallback (Some (DispatchUnknown, None))
       (run_bind (connStateFromUserData t userData) (\<lambda>st.
          Ret (case st of
             None \<Rightarrow> Some (DispatchUnknown, None)
           | Some i \<Rightarrow>
               (case gp_unmarshal G data of
                  Inl _ \<Rightarrow> Some (DispatchUnknownPayload, None)
                | Inr None \<Rightarrow> Some (DispatchUnknownPayload, None)
                | Inr (Some mt) \<Rightarrow>
                    (case registry_lookup (mt_uri mt) registry of
                       None \<Rightarrow> Some (DispatchNoHandler, None)
                     | Some handler \<Rightarrow>
                         map_option (\<lambda>(accepted, pool).
                             (if accepted then DispatchSuccess else DispatchQueueFull, Some (i, pool)))
                           (enqueue \<lparr>dj_correlationID = correlationID, dj_handler = handler,
                             dj_request = mt_request mt\<rparr> (pools i)))))))"

definition goSendCb ::
  "nat cgo_handles \<Rightarrow> (nat \<Rightarrow> 'h go_connection) \<Rightarrow> bytes \<Rightarrow> user_data \<Rightarrow> send_ret \<times> (nat \<times> bytes list) option" where
  "goSendCb t conns payload userData =
     recoverCallback (SendUnknown, None)
       (run_bind (connStateFromUserData t userData) (\<lambda>st.
          case st of
            None \<Rightarrow> Ret (SendUnknown, None)
          | Some i \<Rightarrow>
              (if gc_outgoing_closed (conns i) then Panic ''send on closed channel''
               else if length (gc_outgoing (conns i)) < outgoingQueueCap
               then Ret (SendSuccess, Some (i, gc_outgoing (conns i) @ [payload]))
               else Ret (SendUnknown, None))))"

section \<open>The context\<close>

definition Init ::
  "'w ctx_env \<Rightarrow> (io_handle, 'v, 'w) runtime \<Rightarrow> bytes \<Rightarrow> bytes \<Rightarrow> ctx_heap \<times> 'w
     \<Rightarrow> ((go_error + nat) \<times> ctx_heap \<times> 'w) comp" where
  "Init C R appName version x =
     (if appName = [] then done_with (Err (ErrText ''libddrc: appName must not be empty''), x)
      else if maxStringLen < length appName then
        done_with (Err (ErrText ''libddrc: appName must not be longer than 255 bytes''), x)
      else if version = [] then done_with (Err (ErrText ''libddrc: version must not be empty''), x)
      else if maxStringLen < length version then
        done_with (Err (ErrText ''libddrc: version must not be longer than 255 bytes''), x)
      else comp_bind (rc_init C R (Some appName) (Some version) x) (\<lambda>(ptr, y).
        if ptr = 0 then done_with (Err (ErrText ''libddrc: rc_init returned a nil context''), y)
        else done_with (Ok ptr, y)))"

text \<open>
  The state of a process with one context: the fields of \<open>X509Context\<close> (\<open>gh_closing\<close> are the
  connections that a running \<open>Close\<close> of the context has still to close), every connection it ever
  made, in the order of their creation, the tables of the process and the library behind it.
\<close>

record ('h, 'w) go_host =
  gh_ptr :: nat
  gh_closed :: bool
  gh_conns :: "nat list"
  gh_closing :: "nat list option"
  gh_connections :: "'h go_connection list"
  gh_handles :: "nat cgo_handles"
  gh_registry :: "'h handler_registry"
  gh_heap :: ffi_heap
  gh_ctxs :: ctx_heap
  gh_world :: 'w

record ('v, 'w) host_env =
  he_debug :: bool
  he_codec :: proto_codec
  he_proto :: go_proto
  he_ffi :: "'w ffi_env"
  he_ctx :: "'w ctx_env"
  he_runtime :: "(io_handle, 'v, 'w) runtime"

definition new_host :: "nat \<Rightarrow> ctx_heap \<Rightarrow> 'w \<Rightarrow> ('h, 'w) go_host" where
  "new_host ptr ctxs w = \<lparr>gh_ptr = ptr, gh_closed = False, gh_conns = [], gh_closing = None,
     gh_connections = [], gh_handles = \<lparr>cg_values = (\<lambda>_. None), cg_next = 1\<rparr>, gh_registry = (\<lambda>_. None),
     gh_heap = empty_heap, gh_ctxs = ctxs, gh_world = w\<rparr>"

definition NewConnection ::
  "('v, 'w) host_env \<Rightarrow> ('h, 'w) go_host \<Rightarrow> (go_error option \<times> ('h, 'w) go_host) comp" where
  "NewConnection E s =
     (if gh_closed s then done_with (Some ErrContextClosed, s)
      else
        (let i = length (gh_connections s);
             (handle, t) = newPinnedHandle i (gh_handles s)
         in comp_bind (newCgoConn (he_debug E) (he_ffi E) (gh_ptr s) handle (gh_heap s, gh_world s)) (\<lambda>(r, h, w).
              case r of
                Inl err \<Rightarrow>
                  comp_bind (Some (handle_release handle t)) (\<lambda>t'.
                    done_with (Some err, s\<lparr>gh_handles := t', gh_heap := h, gh_world := w\<rparr>))
              | Inr nc \<Rightarrow>
                  done_with (None, s\<lparr>gh_handles := t, gh_heap := h, gh_world := w, gh_conns := i # gh_conns s,
                    gh_connections := gh_connections s @ [new_go_connection nc handle]\<rparr>))))"

definition Context_Close_begin :: "nat list \<Rightarrow> ('h, 'w) go_host \<Rightarrow> go_error option \<times> ('h, 'w) go_host" where
  "Context_Close_begin conns s =
     (if gh_closed s then (Some ErrContextClosed, s)
      else (None, s\<lparr>gh_closed := True, gh_closing := Some conns\<rparr>))"

definition Context_Close_end :: "('v, 'w) host_env \<Rightarrow> ('h, 'w) go_host \<Rightarrow> ('h, 'w) go_host comp" where
  "Context_Close_end E s =
     comp_bind (rc_free (he_ctx E) (he_runtime E) (gh_ptr s) (gh_ctxs s, gh_world s)) (\<lambda>(ctxs, w).
       done_with (s\<lparr>gh_ctxs := ctxs, gh_world := w, gh_ptr := 0, gh_closing := None\<rparr>))"

definition forget :: "nat \<Rightarrow> ('h, 'w) go_host \<Rightarrow> ('h, 'w) go_host" where
  "forget i s = s\<lparr>gh_conns := filter (\<lambda>j. j \<noteq> i) (gh_conns s)\<rparr>"

section \<open>Runs of the host\<close>

definition upd_conn :: "nat \<Rightarrow> 'h go_connection \<Rightarrow> ('h, 'w) go_host \<Rightarrow> ('h, 'w) go_host" where
  "upd_conn i c s = s\<lparr>gh_connections := (gh_connections s)[i := c]\<rparr>"

definition set_lib :: "ffi_heap \<times> 'w \<Rightarrow> ('h, 'w) go_host \<Rightarrow> ('h, 'w) go_host" where
  "set_lib x s = s\<lparr>gh_heap := fst x, gh_world := snd x\<rparr>"

text \<open>
  The answers of a pool reach the library through the connection. A wait group below zero ends the
  process.
\<close>

definition sink_send :: "('v, 'w) host_env \<Rightarrow> nat \<Rightarrow> sink_call \<Rightarrow> ffi_heap \<times> 'w \<Rightarrow> (ffi_heap \<times> 'w) comp" where
  "sink_send E ptr call x =
     (case call of
        SendDispatchResult result \<Rightarrow> sendDispatchResult (he_codec E) (he_proto E) (he_ffi E) ptr result x
      | SendDispatchError correlationID errorCode \<Rightarrow> sendDispatchError (he_ffi E) ptr correlationID errorCode x)"

fun sink_sends :: "('v, 'w) host_env \<Rightarrow> nat \<Rightarrow> sink_call list \<Rightarrow> ffi_heap \<times> 'w \<Rightarrow> (ffi_heap \<times> 'w) comp" where
  "sink_sends E ptr [] x = done_with x"
| "sink_sends E ptr (call # calls) x = comp_bind (sink_send E ptr call x) (sink_sends E ptr calls)"

definition negative_counter :: string where
  "negative_counter = ''sync: negative WaitGroup counter''"

definition pool_moves ::
  "('v, 'w) host_env \<Rightarrow> 'h invoke_pool \<Rightarrow> 'h go_connection \<times> ffi_heap \<times> 'w
     \<Rightarrow> ('h go_connection \<times> ffi_heap \<times> 'w) comp" where
  "pool_moves E pool = (\<lambda>(c, x).
     if ip_crashed pool then Some (Panic negative_counter)
     else comp_bind (sink_sends E (gc_conn c) (drop (length (ip_sink (gc_pool c))) (ip_sink pool)) x) (\<lambda>y.
       done_with (c\<lparr>gc_pool := pool\<rparr>, y)))"

text \<open>The goroutines of a pool, and of a \<open>Close\<close> that waits for it, by themselves.\<close>

fun own_action :: "bool option \<Rightarrow> 'h pool_action \<Rightarrow> bool" where
  "own_action mu (Enqueue job) = False"
| "own_action mu ShutdownRefuse = (mu \<noteq> None)"
| "own_action mu ShutdownClose = (mu \<noteq> None)"
| "own_action mu ShutdownWait = (mu \<noteq> None)"
| "own_action mu _ = True"

datatype 'h host_action =
    HRegister bytes 'h
  | HUnregister bytes
  | HNewConnection
  | HConnected nat bytes
  | HRecv nat bytes
  | HOutgoing nat
  | HClose nat
  | HPool nat "'h pool_action"
  | HCloseEnd nat
  | HForget nat
  | HDispatchCb user_data u64 bytes
  | HSendCb user_data bytes
  | HCtxClose "nat list"
  | HCtxNext
  | HCtxFree

text \<open>
  What an action is without the connection it is about, and what it does to that connection and the
  library. \<open>None\<close> is an action that cannot happen now: a lock is held, or there is nothing to do.
\<close>

definition unlocked :: "nat \<Rightarrow> ('h, 'w) go_host \<Rightarrow> bool" where
  "unlocked i s \<longleftrightarrow> i < length (gh_connections s) \<and> gc_mu (gh_connections s ! i) = None"

definition on_conn ::
  "nat \<Rightarrow> ('h go_connection \<times> ffi_heap \<times> 'w \<Rightarrow> ('h go_connection \<times> ffi_heap \<times> 'w) comp)
     \<Rightarrow> ('h, 'w) go_host \<Rightarrow> ('h, 'w) go_host comp" where
  "on_conn i f s =
     comp_bind (f (gh_connections s ! i, gh_heap s, gh_world s)) (\<lambda>(c, x). done_with (set_lib x (upd_conn i c s)))"

definition close_conn :: "nat \<Rightarrow> ('h, 'w) go_host \<Rightarrow> ('h, 'w) go_host" where
  "close_conn i s = upd_conn i (snd (Connection_Close_begin (gh_connections s ! i))) s"

fun host_act :: "('v, 'w) host_env \<Rightarrow> 'h host_action \<Rightarrow> ('h, 'w) go_host \<Rightarrow> ('h, 'w) go_host comp option" where
  "host_act E (HRegister uri h) s =
     Some (done_with (s\<lparr>gh_registry := snd (registry_register uri h (gh_registry s))\<rparr>))"
| "host_act E (HUnregister uri) s =
     Some (done_with (s\<lparr>gh_registry := snd (registry_unregister uri (gh_registry s))\<rparr>))"
| "host_act E HNewConnection s = Some (comp_bind (NewConnection E s) (\<lambda>(err, s'). done_with s'))"
| "host_act E (HConnected i host) s =
     (if unlocked i s then
        Some (on_conn i (\<lambda>cx. comp_bind (Connection_Connected (he_debug E) (he_ffi E) host cx) (\<lambda>(err, cx'). done_with cx')) s)
      else None)"
| "host_act E (HRecv i data) s =
     (if unlocked i s then
        Some (on_conn i (\<lambda>cx. comp_bind (Connection_Recv (he_debug E) (he_codec E) (he_ffi E) data cx) (\<lambda>(err, cx'). done_with cx')) s)
      else None)"
| "host_act E (HOutgoing i) s =
     (if i < length (gh_connections s) then
        (case gc_outgoing (gh_connections s ! i) of
           [] \<Rightarrow> None
         | msg # rest \<Rightarrow> Some (done_with (upd_conn i ((gh_connections s ! i)\<lparr>gc_outgoing := rest\<rparr>) s)))
      else None)"
| "host_act E (HClose i) s = (if unlocked i s then Some (done_with (close_conn i s)) else None)"
| "host_act E (HPool i a) s =
     (if i < length (gh_connections s) \<and> own_action (gc_mu (gh_connections s ! i)) a then
        map_option (\<lambda>pool. on_conn i (pool_moves E pool) s) (pool_act a (gc_pool (gh_connections s ! i)))
      else None)"
| "host_act E (HCloseEnd i) s =
     (if i < length (gh_connections s) \<and> ip_shutdown (gc_pool (gh_connections s ! i)) = ShutReturned then
        (case gc_mu (gh_connections s ! i) of
           None \<Rightarrow> None
         | Some wasConnected \<Rightarrow>
             Some (comp_bind (Connection_Close_end (he_debug E) (he_ffi E) wasConnected
                 (gh_connections s ! i, gh_handles s, gh_heap s, gh_world s)) (\<lambda>(c, t, x).
               done_with ((set_lib x (upd_conn i c s))\<lparr>gh_handles := t\<rparr>))))
      else None)"
| "host_act E (HForget i) s =
     (if i < length (gh_connections s) \<and> gc_forget (gh_connections s ! i) then
        Some (done_with (forget i (upd_conn i ((gh_connections s ! i)\<lparr>gc_forget := False\<rparr>) s)))
      else None)"
| "host_act E (HDispatchCb userData correlationID data) s =
     map_option (\<lambda>(ret, change). done_with (case change of
          None \<Rightarrow> s
        | Some (i, pool) \<Rightarrow> upd_conn i ((gh_connections s ! i)\<lparr>gc_pool := pool\<rparr>) s))
       (goDispatchCb (he_proto E) (gh_registry s) (gh_handles s) (\<lambda>i. gc_pool (gh_connections s ! i))
          correlationID data userData)"
| "host_act E (HSendCb userData payload) s =
     Some (done_with (case goSendCb (gh_handles s) (\<lambda>i. gh_connections s ! i) payload userData of
          (ret, None) \<Rightarrow> s
        | (ret, Some (i, outgoing)) \<Rightarrow> upd_conn i ((gh_connections s ! i)\<lparr>gc_outgoing := outgoing\<rparr>) s))"
| "host_act E (HCtxClose conns) s =
     (if set conns = set (gh_conns s) then Some (done_with (snd (Context_Close_begin conns s))) else None)"
| "host_act E HCtxNext s =
     (case gh_closing s of
        Some (i # rest) \<Rightarrow>
          (if \<not> unlocked i s then None
           else if cl_closed (gc_lifecycle (gh_connections s ! i))
           then Some (done_with (s\<lparr>gh_closing := Some rest\<rparr>))
           else Some (done_with (close_conn i s)))
      | _ \<Rightarrow> None)"
| "host_act E HCtxFree s =
     (if gh_closing s = Some [] then Some (Context_Close_end E s) else None)"

inductive host_reaches :: "('v, 'w) host_env \<Rightarrow> ('h, 'w) go_host \<Rightarrow> bool" for E where
  host_start: "Init (he_ctx E) (he_runtime E) appName version (\<lparr>ch_ctxs = (\<lambda>_. None), ch_next = 1\<rparr>, w)
       = Some (Ret (Ok ptr, ctxs, w')) \<Longrightarrow> host_reaches E (new_host ptr ctxs w')"
| host_step: "host_reaches E s \<Longrightarrow> host_act E a s = Some (Some (Ret s')) \<Longrightarrow> host_reaches E s'"

section \<open>What the library does with an admitted call\<close>

text \<open>
  What the host relies on: the runtime of the library takes events and its tasks and worker end
  without a panic, and a marshalled response is never empty (it carries at least the tag of its
  field).
\<close>

definition healthy :: "('v, 'w) host_env \<Rightarrow> bool" where
  "healthy E \<longleftrightarrow>
     (\<forall>u w. fst (fe_publish (he_ffi E) u w) = Ok ())
     \<and> (\<forall>k w r w'. fe_join (he_ffi E) k w = Some (r, w') \<longrightarrow> r = Ok ())
     \<and> (\<forall>k w r w'. cx_join (he_ctx E) k w = Some (r, w') \<longrightarrow> r = Ok ())
     \<and> (\<forall>m b. gp_marshal (he_proto E) m = Ok b \<longrightarrow> b \<noteq> [])"

definition tasks_held :: "connected \<Rightarrow> bool" where
  "tasks_held cn \<longleftrightarrow> (\<exists>a b. cn_io_task cn = abort_on_drop_from a \<and> cn_dispatch_task cn = abort_on_drop_from b)"

lemma healthy_publish:
  assumes "healthy E" shows "\<exists>w'. publish_event (he_ffi E) e w = Ret w'"
proof -
  have "fst (fe_publish (he_ffi E) (ConnectionUpdate e) w) = Ok ()" using assms by (simp add: healthy_def)
  then show ?thesis by (auto simp: publish_event_def split: prod.splits)
qed

lemma healthy_join:
  assumes "healthy E"
  obtains "join_task (he_ffi E) (abort_on_drop_from k) msg w = None"
  | w' where "join_task (he_ffi E) (abort_on_drop_from k) msg w = Some (Ret w')"
proof (cases "fe_join (he_ffi E) k w")
  case None
  then show thesis by (intro that(1)) (simp add: join_task_def abort_on_drop_from_def)
next
  case (Some x)
  moreover obtain r w' where x: "x = (r, w')" by fastforce
  ultimately have "r = Ok ()" using assms unfolding healthy_def by blast
  then show thesis using Some x by (intro that(2)) (simp add: join_task_def abort_on_drop_from_def)
qed

lemma start_tasks_held:
  "start_tasks F c cb u w = ((cn, io, pub), w') \<Longrightarrow> tasks_held cn"
  by (auto simp: start_tasks_def Let_def tasks_held_def split: prod.splits)

lemma connected_call:
  assumes "healthy E" "hp_conns h p = Some c" "p \<noteq> 0" "fc_state c = FConfigured cb u" "utf8_valid host"
  shows "\<exists>cn w'. rc_conn_connected debug (he_ffi E) p (Some host) (h, w)
      = Some (Ret (ConnSuccess, heap_set h p (Some (c\<lparr>fc_state := FConnected cn\<rparr>)), w')) \<and> tasks_held cn"
proof -
  obtain cn io pub w1 where st: "start_tasks (he_ffi E) c cb u w = ((cn, io, pub), w1)" by (metis surj_pair)
  obtain name where n: "from_utf8 host = Ok name" using assms(5) by (simp add: from_utf8_def)
  obtain w2 where "publish_event (he_ffi E) (ConnConnected io pub (ClientEndpointHostname name)) w1 = Ret w2"
    using healthy_publish [OF assms(1)] by blast
  then show ?thesis using assms st n start_tasks_held [OF st]
    by (intro exI [of _ cn] exI [of _ w2]) (simp add: call_defs set_connected_def)
qed

lemma disconnected_call:
  assumes "healthy E" "hp_conns h p = Some c" "p \<noteq> 0" "fc_state c = FConnected cn" "tasks_held cn"
  shows "rc_conn_disconnected debug (he_ffi E) p (h, w) = None
    \<or> (\<exists>w'. rc_conn_disconnected debug (he_ffi E) p (h, w)
         = Some (Ret (ConnSuccess, heap_set h p (Some (c\<lparr>fc_state := FDisconnected\<rparr>)), w')))"
proof -
  obtain a b where t: "cn_io_task cn = abort_on_drop_from a" "cn_dispatch_task cn = abort_on_drop_from b"
    using assms(5) by (auto simp: tasks_held_def)
  let ?w = "fe_cancel (he_ffi E) (cn_dispatch_task_stop cn) (fe_cancel (he_ffi E) (cn_io_task_stop cn) w)"
  have eq: "rc_conn_disconnected debug (he_ffi E) p (h, w) =
     update_conn h p (comp_bind (join_task (he_ffi E) (abort_on_drop_from a) ''i/o task shutdown'' ?w) (\<lambda>w3.
       comp_bind (join_task (he_ffi E) (abort_on_drop_from b) ''dispatch task shutdown'' w3) (\<lambda>w4.
         Some (run_bind (publish_event (he_ffi E) ConnDisconnected w4) (\<lambda>w5.
           Ret (ConnSuccess, c\<lparr>fc_state := FDisconnected\<rparr>, w5))))))"
    using assms(2-4) by (simp add: rc_conn_disconnected_def not_null_def deref_def set_disconnected_def t Let_def)
  show ?thesis
  proof (rule healthy_join [OF assms(1), of a "''i/o task shutdown''" ?w])
    fix w3
    assume 1: "join_task (he_ffi E) (abort_on_drop_from a) ''i/o task shutdown'' ?w = Some (Ret w3)"
    show ?thesis
    proof (rule healthy_join [OF assms(1), of b "''dispatch task shutdown''" w3])
      fix w4
      assume 2: "join_task (he_ffi E) (abort_on_drop_from b) ''dispatch task shutdown'' w3 = Some (Ret w4)"
      obtain w5 where "publish_event (he_ffi E) ConnDisconnected w4 = Ret w5"
        using healthy_publish [OF assms(1)] by blast
      then show ?thesis using 1 2 by (simp add: eq update_conn_def)
    qed (use 1 in \<open>simp add: eq update_conn_def\<close>)
  qed (simp add: eq update_conn_def)
qed

lemma free_call:
  assumes "healthy E" "hp_conns h p = Some c" "p \<noteq> 0" "\<And>cn. fc_state c \<noteq> FConnected cn"
  shows "\<exists>w'. rc_conn_free debug (he_ffi E) p (h, w) = Some (Ret (ConnSuccess, heap_set h p None, w'))"
proof -
  obtain w' where "publish_event (he_ffi E) ConnRelease w = Ret w'" using healthy_publish [OF assms(1)] by blast
  then show ?thesis using assms(2-4) by (auto simp: call_defs ffi_free_def split: ffi_state.splits)
qed

lemma recv_call:
  assumes "hp_conns h p = Some c" "p \<noteq> 0" "fc_state c = FConnected cn"
  shows "rc_conn_recv debug P F p (Some data) (h, w) = None
    \<or> (\<exists>w'. rc_conn_recv debug P F p (Some data) (h, w) = Some (Ret (RecvSuccess, h, w')))"
  using assms by (auto simp: call_defs recv_incoming_def Let_def split: option.split)

lemma result_calls:
  assumes "hp_conns h p = Some c" "p \<noteq> 0"
  shows "rc_conn_dispatch_result P F p i (Some data) (h, w) = None
    \<or> (\<exists>w'. rc_conn_dispatch_result P F p i (Some data) (h, w) = Some (Ret (h, w')))"
    and "rc_conn_dispatch_error F p i e (h, w) = None
    \<or> (\<exists>w'. rc_conn_dispatch_error F p i e (h, w) = Some (Ret (h, w')))"
  using assms by (auto simp: call_defs Let_def split: option.split)

lemma new_call:
  assumes "healthy E" "ctx \<noteq> 0" "0 < hp_next h"
  shows "\<exists>fc h' w'. newCgoConn debug (he_ffi E) ctx u (h, w) = Some (Ret (Ok (hp_next h), h', w'))
      \<and> hp_next h' = Suc (hp_next h) \<and> hp_conns h' = (hp_conns h)(hp_next h \<mapsto> fc)
      \<and> fc_state fc = FConfigured goSendCb_addr u"
proof -
  obtain w' where "publish_event (he_ffi E) ConnInit w = Ret w'" using healthy_publish [OF assms(1)] by blast
  then show ?thesis using assms(2,3)
    by (intro exI [of _ "\<lparr>fc_dispatch = goDispatchCb_addr, fc_dispatch_user_data = u,
          fc_state = FConfigured goSendCb_addr u\<rparr>"])
      (simp add: newCgoConn_def rc_conn_new_def ffi_connection_new_def goDispatchCb_addr_def goSendCb_addr_def
        call_defs set_send_callback_def heap_set_def)
qed

section \<open>The invariant\<close>

text \<open>
  A connection that is not closed, or whose \<open>Close\<close> waits for the pool, has its library connection,
  which is connected exactly when the host has marked it so; a closed one has released everything,
  and its pool gives no further answer.
\<close>

definition marked :: "bool \<Rightarrow> ffi_connection \<Rightarrow> bool" where
  "marked b fc \<longleftrightarrow> (if b then \<exists>cn. fc_state fc = FConnected cn \<and> tasks_held cn
     else \<exists>cb u. fc_state fc = FConfigured cb u)"

definition conn_live :: "ffi_heap \<Rightarrow> nat cgo_handles \<Rightarrow> 'h go_connection \<Rightarrow> bool" where
  "conn_live h t c \<longleftrightarrow>
     (\<exists>fc. hp_conns h (gc_conn c) = Some fc \<and> marked (cl_connected (gc_lifecycle c)) fc)
     \<and> \<not> gc_outgoing_closed c \<and> cg_values t (gc_handle c) \<noteq> None"

definition conn_released :: "ffi_heap \<Rightarrow> nat cgo_handles \<Rightarrow> 'h go_connection \<Rightarrow> bool" where
  "conn_released h t c \<longleftrightarrow>
     hp_conns h (gc_conn c) = None \<and> cg_values t (gc_handle c) = None \<and> gc_outgoing_closed c
     \<and> ip_shutdown (gc_pool c) = ShutReturned"

definition shut :: "'h go_connection \<Rightarrow> bool" where
  "shut c \<longleftrightarrow> cl_closed (gc_lifecycle c) \<and> gc_mu c = None"

definition conn_inv :: "ffi_heap \<Rightarrow> nat cgo_handles \<Rightarrow> 'h go_connection \<Rightarrow> bool" where
  "conn_inv h t c \<longleftrightarrow>
     gc_conn c \<noteq> 0 \<and> gc_conn c < hp_next h \<and> gc_handle c < cg_next t
     \<and> pool_inv (gc_pool c) \<and> \<not> ip_crashed (gc_pool c)
     \<and> (if shut c then conn_released h t c else conn_live h t c)
     \<and> (\<forall>b. gc_mu c = Some b \<longrightarrow> cl_closed (gc_lifecycle c) \<and> b = cl_connected (gc_lifecycle c))
     \<and> (gc_mu c = None \<longrightarrow> \<not> shut c \<longrightarrow> ip_shutdown (gc_pool c) = NotShut)
     \<and> (gc_forget c \<longrightarrow> shut c)"

definition host_inv :: "('h, 'w) go_host \<Rightarrow> bool" where
  "host_inv s \<longleftrightarrow>
     0 < hp_next (gh_heap s)
     \<and> distinct (map gc_conn (gh_connections s)) \<and> distinct (map gc_handle (gh_connections s))
     \<and> (\<forall>c \<in> set (gh_connections s). conn_inv (gh_heap s) (gh_handles s) c)
     \<and> (\<forall>i < length (gh_connections s). i \<in> set (gh_conns s) \<or> shut (gh_connections s ! i))
     \<and> (\<forall>ks. gh_closing s = Some ks \<longrightarrow> gh_closed s \<and> gh_ptr s \<noteq> 0
          \<and> (\<forall>i < length (gh_connections s). i \<in> set ks \<or> shut (gh_connections s ! i)))
     \<and> (gh_ptr s = 0 \<longrightarrow> gh_closed s \<and> (\<forall>c \<in> set (gh_connections s). shut c))
     \<and> (gh_ptr s \<noteq> 0 \<longrightarrow> ch_ctxs (gh_ctxs s) (gh_ptr s) \<noteq> None)"

lemma conn_frame [simp]:
  "shut (c\<lparr>gc_outgoing := out\<rparr>) = shut c" "shut (c\<lparr>gc_forget := b\<rparr>) = shut c"
  "conn_live h t (c\<lparr>gc_outgoing := out\<rparr>) = conn_live h t c" "conn_live h t (c\<lparr>gc_forget := b\<rparr>) = conn_live h t c"
  "conn_released h t (c\<lparr>gc_outgoing := out\<rparr>) = conn_released h t c"
  "conn_released h t (c\<lparr>gc_forget := b\<rparr>) = conn_released h t c"
  by (simp_all add: shut_def conn_live_def conn_released_def)

lemma conn_inv_update [simp]:
  "conn_inv h t (c\<lparr>gc_outgoing := out\<rparr>) = conn_inv h t c"
  "conn_inv h t c \<Longrightarrow> conn_inv h t (c\<lparr>gc_forget := False\<rparr>)"
  by (simp_all add: conn_inv_def)

lemma conn_inv_pool:
  assumes "conn_inv h t c" and "pool_inv pool" and "\<not> ip_crashed pool"
    and sd: "shut c \<Longrightarrow> ip_shutdown pool = ShutReturned" "gc_mu c = None \<Longrightarrow> \<not> shut c \<Longrightarrow> ip_shutdown pool = NotShut"
  shows "conn_inv h t (c\<lparr>gc_pool := pool\<rparr>)"
proof -
  have same: "shut (c\<lparr>gc_pool := pool\<rparr>) = shut c" "conn_live h t (c\<lparr>gc_pool := pool\<rparr>) = conn_live h t c"
    by (simp_all add: shut_def conn_live_def)
  have "conn_released h t c \<Longrightarrow> shut c \<Longrightarrow> conn_released h t (c\<lparr>gc_pool := pool\<rparr>)"
    using sd(1) by (simp add: conn_released_def)
  then show ?thesis using assms by (simp add: conn_inv_def same)
qed

definition changes_at :: "nat \<Rightarrow> ffi_heap \<Rightarrow> ffi_heap \<Rightarrow> bool" where
  "changes_at p h h' \<longleftrightarrow> hp_next h' = hp_next h \<and> (\<forall>q. q \<noteq> p \<longrightarrow> hp_conns h' q = hp_conns h q)"

lemma changes_at_refl [simp]: "changes_at p h h"
  by (simp add: changes_at_def)

lemma changes_at_set [simp]: "changes_at p h (heap_set h p c)"
  by (simp add: changes_at_def heap_set_def)

lemma changes_at_trans: "changes_at p h h' \<Longrightarrow> changes_at p h' h'' \<Longrightarrow> changes_at p h h''"
  by (simp add: changes_at_def)

lemma conn_inv_frame:
  assumes "conn_inv h t c" and "hp_conns h' (gc_conn c) = hp_conns h (gc_conn c)"
    and "hp_next h \<le> hp_next h'" and "cg_values t' (gc_handle c) = cg_values t (gc_handle c)"
    and "cg_next t \<le> cg_next t'"
  shows "conn_inv h' t' c"
  using assms by (auto simp: conn_inv_def conn_live_def conn_released_def)

text \<open>A step of one connection leaves the other ones alone.\<close>

lemma host_inv_step:
  assumes inv: "host_inv s" and i: "i < length (gh_connections s)"
    and same: "gc_conn c' = gc_conn (gh_connections s ! i)" "gc_handle c' = gc_handle (gh_connections s ! i)"
    and h: "changes_at (gc_conn c') (gh_heap s) h'"
    and t: "cg_next t' = cg_next (gh_handles s)" "\<And>q. q \<noteq> gc_handle c' \<Longrightarrow> cg_values t' q = cg_values (gh_handles s) q"
    and c': "conn_inv h' t' c'" and shut: "shut (gh_connections s ! i) \<Longrightarrow> shut c'"
  shows "host_inv ((set_lib (h', w') (upd_conn i c' s))\<lparr>gh_handles := t'\<rparr>)"
proof -
  let ?cs = "gh_connections s"
  have d: "distinct (map gc_conn ?cs)" "distinct (map gc_handle ?cs)"
    and all: "\<And>c. c \<in> set ?cs \<Longrightarrow> conn_inv (gh_heap s) (gh_handles s) c"
    using inv by (auto simp: host_inv_def)
  have ids: "map gc_conn (?cs[i := c']) = map gc_conn ?cs" "map gc_handle (?cs[i := c']) = map gc_handle ?cs"
    using i same by (simp_all add: map_update list_update_same_conv)
  have other: "conn_inv h' t' (?cs ! j)" if "j < length ?cs" "j \<noteq> i" for j
  proof (rule conn_inv_frame [OF all])
    show "?cs ! j \<in> set ?cs" using that by simp
    have "gc_conn (?cs ! j) \<noteq> gc_conn (?cs ! i)" "gc_handle (?cs ! j) \<noteq> gc_handle (?cs ! i)"
      using that i d by (simp_all add: distinct_conv_nth)
    then show "hp_conns h' (gc_conn (?cs ! j)) = hp_conns (gh_heap s) (gc_conn (?cs ! j))"
      "cg_values t' (gc_handle (?cs ! j)) = cg_values (gh_handles s) (gc_handle (?cs ! j))"
      using h t same by (simp_all add: changes_at_def)
  qed (use h t in \<open>simp_all add: changes_at_def\<close>)
  have "conn_inv h' t' c" if "c \<in> set (?cs[i := c'])" for c
    using that other c' i by (auto simp: in_set_conv_nth nth_list_update split: if_splits)
  moreover have "shut (?cs[i := c'] ! j)" if "j < length ?cs" "shut (?cs ! j)" for j
    using that shut i by (cases "j = i") auto
  moreover have "\<forall>c \<in> set (?cs[i := c']). shut c" if "\<forall>c \<in> set ?cs. shut c"
    using that shut i by (intro list_update_all) auto
  moreover have "0 < hp_next h'" using inv h by (simp add: host_inv_def changes_at_def)
  ultimately show ?thesis using inv d ids
    unfolding host_inv_def by (simp add: set_lib_def upd_conn_def) blast
qed

text \<open>What a step of a connection with the library may be: it waits for ever, or keeps the invariant.\<close>

definition safe_step ::
  "ffi_heap \<Rightarrow> nat cgo_handles \<Rightarrow> 'h go_connection \<Rightarrow> ('h go_connection \<times> ffi_heap \<times> 'w) comp \<Rightarrow> bool" where
  "safe_step h t c m \<longleftrightarrow> m = None \<or> (\<exists>c' h' w'. m = Some (Ret (c', h', w'))
     \<and> gc_conn c' = gc_conn c \<and> gc_handle c' = gc_handle c \<and> changes_at (gc_conn c) h h'
     \<and> conn_inv h' t c' \<and> (shut c \<longrightarrow> shut c'))"

lemma safe_stepI:
  "conn_inv h' t c' \<Longrightarrow> gc_conn c' = gc_conn c \<Longrightarrow> gc_handle c' = gc_handle c \<Longrightarrow> changes_at (gc_conn c) h h' \<Longrightarrow>
     (shut c \<Longrightarrow> shut c') \<Longrightarrow> safe_step h t c (done_with (c', h', w'))"
  by (auto simp: safe_step_def)

lemma safe_step_None [simp]: "safe_step h t c None"
  by (simp add: safe_step_def)

lemma conn_inv_cases:
  assumes "conn_inv h t c" "\<not> shut c"
  obtains fc where "hp_conns h (gc_conn c) = Some fc" "marked (cl_connected (gc_lifecycle c)) fc" "gc_conn c \<noteq> 0"
    "\<not> gc_outgoing_closed c" "cg_values t (gc_handle c) \<noteq> None"
  using assms by (auto simp: conn_inv_def conn_live_def)

lemma Connected_safe:
  assumes H: "healthy E" and inv: "conn_inv h t c" and mu: "gc_mu c = None"
    and m_def: "m = comp_bind (Connection_Connected debug (he_ffi E) host (c, h, w)) (\<lambda>(err, cx'). done_with cx')"
  shows "\<not> utf8_valid host \<and> m = Some (Panic ''endpoint_hostname must be valid UTF-8'') \<or> safe_step h t c m"
proof -
  have same: "safe_step h t c (done_with (c, h, w))" by (rule safe_stepI) (use inv in simp_all)
  show ?thesis
  proof (cases "host = [] \<or> maxStringLen < length host \<or> cl_closed (gc_lifecycle c) \<or> cl_connected (gc_lifecycle c)")
    case True
    then show ?thesis using same by (auto simp: m_def Connection_Connected_def markConnected_def)
  next
    case False
    then have open': "\<not> shut c" "cl_connected (gc_lifecycle c) = False" "cl_closed (gc_lifecycle c) = False"
      by (simp_all add: shut_def)
    obtain fc where fc: "hp_conns h (gc_conn c) = Some fc" "gc_conn c \<noteq> 0" "marked False fc"
      using conn_inv_cases [OF inv open'(1)] open'(2) by metis
    then obtain cb ud where st: "fc_state fc = FConfigured cb ud" by (auto simp: marked_def)
    show ?thesis
    proof (cases "utf8_valid host")
      case False
      then show ?thesis using \<open>\<not> (host = [] \<or> _)\<close> fc(2)
        by (simp add: m_def Connection_Connected_def markConnected_def cgo_connected_def first_byte_def
            rc_conn_connected_def not_null_def with_data_def from_utf8_def)
    next
      case True
      from connected_call [OF H fc(1,2) st True] obtain cn w' where
        r: "rc_conn_connected debug (he_ffi E) (gc_conn c) (Some host) (h, w)
          = Some (Ret (ConnSuccess, heap_set h (gc_conn c) (Some (fc\<lparr>fc_state := FConnected cn\<rparr>)), w'))"
        and held: "tasks_held cn" by blast
      let ?c = "c\<lparr>gc_lifecycle := (gc_lifecycle c)\<lparr>cl_connected := True\<rparr>\<rparr>"
      let ?h = "heap_set h (gc_conn c) (Some (fc\<lparr>fc_state := FConnected cn\<rparr>))"
      have "conn_inv ?h t ?c" using inv open' held mu
        by (simp add: conn_inv_def conn_live_def shut_def marked_def heap_set_def)
      then have "safe_step h t c (done_with (?c, ?h, w'))" using open' by (intro safe_stepI) simp_all
      then show ?thesis using False open' r
        by (simp add: m_def Connection_Connected_def markConnected_def cgo_connected_def first_byte_def)
    qed
  qed
qed

lemma Recv_safe:
  assumes inv: "conn_inv h t c" and mu: "gc_mu c = None"
  shows "safe_step h t c (comp_bind (Connection_Recv debug P F data (c, h, w)) (\<lambda>(err, cx'). done_with cx'))"
proof -
  have same: "safe_step h t c (done_with (c, h, w'))" for w' by (rule safe_stepI) (use inv in simp_all)
  show ?thesis
  proof (cases "data = [] \<or> cl_closed (gc_lifecycle c) \<or> \<not> cl_connected (gc_lifecycle c)")
    case True
    then show ?thesis using same by (auto simp: Connection_Recv_def checkRecvable_def)
  next
    case False
    then have "\<not> shut c" by (simp add: shut_def)
    then obtain fc where fc: "hp_conns h (gc_conn c) = Some fc" "gc_conn c \<noteq> 0" "marked True fc"
      using conn_inv_cases [OF inv] False by metis
    then obtain cn where "fc_state fc = FConnected cn" by (auto simp: marked_def)
    then show ?thesis using False same recv_call [OF fc(1,2), of cn debug P F data w]
      by (auto simp: Connection_Recv_def checkRecvable_def cgo_recv_def first_byte_def)
  qed
qed

lemma sink_sends_safe:
  assumes H: "healthy E" and fc: "hp_conns h p = Some fc" "p \<noteq> 0"
  shows "sink_sends E p calls (h, w) = None \<or> (\<exists>w'. sink_sends E p calls (h, w) = Some (Ret (h, w')))"
proof (induction calls arbitrary: w)
  case (Cons call calls)
  have ne: "gp_marshal (he_proto E) m = Ok b \<Longrightarrow> b \<noteq> []" for m b using H by (auto simp: healthy_def)
  have "sink_send E p call (h, w) = None \<or> (\<exists>w'. sink_send E p call (h, w) = Some (Ret (h, w')))"
  proof (cases call)
    case (SendDispatchResult r)
    then show ?thesis
      using result_calls(1) [OF fc, of "he_codec E" "he_ffi E" "gr_correlationID r" _ w] ne
      by (auto simp: sink_send_def sendDispatchResult_def marshalDispatchResponse_def cgo_dispatchResult_def
          first_byte_def Let_def split: sum.split)
  next
    case (SendDispatchError i e)
    then show ?thesis using result_calls(2) [OF fc, of "he_ffi E" i e w]
      by (simp add: sink_send_def sendDispatchError_def cgo_dispatchError_def)
  qed
  then show ?case
  proof
    assume "\<exists>w'. sink_send E p call (h, w) = Some (Ret (h, w'))"
    then obtain w' where "sink_send E p call (h, w) = Some (Ret (h, w'))" by blast
    then show ?case using Cons.IH [of w'] by simp
  qed simp
qed simp

lemma own_shutdown:
  "own_action None a \<Longrightarrow> pool_act a p = Some p' \<Longrightarrow> ip_shutdown p' = ip_shutdown p"
  by (cases a) (auto simp: pool_steps on_call_def on_watch_def wg_add_def upd_call_def set_worker_def
      split: if_splits worker.splits list.splits call_phase.splits)

lemma pool_moves_safe:
  assumes H: "healthy E" and inv: "conn_inv h t c" and own: "own_action (gc_mu c) a"
    and act: "pool_act a (gc_pool c) = Some pool"
  shows "ip_crashed pool \<and> pool_moves E pool (c, h, w) = Some (Panic negative_counter)
    \<or> safe_step h t c (pool_moves E pool (c, h, w))"
proof (cases "ip_crashed pool")
  case False
  have pinv: "pool_inv (gc_pool c)" "pool_inv pool" using inv pool_act_inv [OF act] by (auto simp: conn_inv_def)
  let ?c = "c\<lparr>gc_pool := pool\<rparr>"
  show ?thesis
  proof (cases "shut c")
    case True
    then have "ip_shutdown (gc_pool c) = ShutReturned" using inv by (simp add: conn_inv_def conn_released_def)
    then have f: "ip_sink pool = ip_sink (gc_pool c)" "ip_shutdown pool = ShutReturned"
      using returned_final [OF act pinv(1)] by auto
    then have "conn_inv h t ?c" using True by (intro conn_inv_pool [OF inv pinv(2) False]) simp_all
    then have "safe_step h t c (done_with (?c, h, w))" using True by (intro safe_stepI) (simp_all add: shut_def)
    then show ?thesis using False f by (simp add: pool_moves_def)
  next
    case False
    obtain fc where fc: "hp_conns h (gc_conn c) = Some fc" "gc_conn c \<noteq> 0" using conn_inv_cases [OF inv False] by metis
    have "gc_mu c = None \<Longrightarrow> ip_shutdown pool = ip_shutdown (gc_pool c)" using own own_shutdown [OF _ act] by simp
    moreover have "gc_mu c = None \<Longrightarrow> ip_shutdown (gc_pool c) = NotShut" using inv False by (simp add: conn_inv_def)
    ultimately have "conn_inv h t ?c" using False by (intro conn_inv_pool [OF inv pinv(2) \<open>\<not> ip_crashed pool\<close>]) simp_all
    then have "safe_step h t c (done_with (?c, h, w'))" for w' using False by (intro safe_stepI) simp_all
    then show ?thesis
      using \<open>\<not> ip_crashed pool\<close> sink_sends_safe [OF H fc, of "drop (length (ip_sink (gc_pool c))) (ip_sink pool)" w]
      by (auto simp: pool_moves_def)
  qed
qed (simp add: pool_moves_def)

lemma Close_end_safe:
  assumes H: "healthy E" and inv: "conn_inv h t c" and mu: "gc_mu c = Some b"
    and sd: "ip_shutdown (gc_pool c) = ShutReturned"
  shows "Connection_Close_end debug (he_ffi E) b (c, t, h, w) = None
    \<or> (\<exists>w' h' t' c'. Connection_Close_end debug (he_ffi E) b (c, t, h, w) = Some (Ret (c', t', h', w'))
        \<and> gc_conn c' = gc_conn c \<and> gc_handle c' = gc_handle c \<and> changes_at (gc_conn c) h h'
        \<and> cg_next t' = cg_next t \<and> (\<forall>q. q \<noteq> gc_handle c \<longrightarrow> cg_values t' q = cg_values t q)
        \<and> conn_inv h' t' c' \<and> shut c')"
proof -
  have ns: "\<not> shut c" and b: "b = cl_connected (gc_lifecycle c)" and cl: "cl_closed (gc_lifecycle c)"
    using inv mu by (auto simp: shut_def conn_inv_def)
  obtain fc where fc: "hp_conns h (gc_conn c) = Some fc" "marked b fc" "gc_conn c \<noteq> 0"
    "\<not> gc_outgoing_closed c" "cg_values t (gc_handle c) \<noteq> None"
    unfolding b by (rule conn_inv_cases [OF inv ns])
  let ?c = "c\<lparr>gc_outgoing_closed := True, gc_mu := None, gc_forget := True\<rparr>"
  let ?t = "t\<lparr>cg_values := (cg_values t)(gc_handle c := None)\<rparr>"
  have fin: "conn_inv h' ?t ?c" if "hp_next h' = hp_next h" "hp_conns h' (gc_conn c) = None" for h'
    using inv that cl sd by (auto simp: conn_inv_def shut_def conn_released_def)
  have rel: "handle_release (gc_handle c) t = Ret ?t" using fc by (simp add: handle_release_def)
  show ?thesis
  proof (cases b)
    case True
    then obtain cn where cn: "fc_state fc = FConnected cn" "tasks_held cn" using fc(2) by (auto simp: marked_def)
    let ?h = "heap_set h (gc_conn c) (Some (fc\<lparr>fc_state := FDisconnected\<rparr>))"
    have live: "hp_conns ?h (gc_conn c) = Some (fc\<lparr>fc_state := FDisconnected\<rparr>)" by (simp add: heap_set_def)
    show ?thesis using disconnected_call [OF H fc(1,3) cn, of debug w]
    proof
      assume "\<exists>w'. rc_conn_disconnected debug (he_ffi E) (gc_conn c) (h, w) = Some (Ret (ConnSuccess, ?h, w'))"
      then obtain w1 where 1: "rc_conn_disconnected debug (he_ffi E) (gc_conn c) (h, w) = Some (Ret (ConnSuccess, ?h, w1))"
        by blast
      obtain w2 where 2: "rc_conn_free debug (he_ffi E) (gc_conn c) (?h, w1)
          = Some (Ret (ConnSuccess, heap_set ?h (gc_conn c) None, w2))"
        using free_call [OF H live fc(3)] by fastforce
      have "Connection_Close_end debug (he_ffi E) b (c, t, h, w)
          = Some (Ret (?c, ?t, heap_set ?h (gc_conn c) None, w2))"
        using True 1 2 rel fc(4) by (simp add: Connection_Close_end_def cgo_disconnected_def cgo_free_def)
      moreover have "conn_inv (heap_set ?h (gc_conn c) None) ?t ?c" by (rule fin) (simp_all add: heap_set_def)
      ultimately show ?thesis using cl by (auto simp: shut_def heap_set_def changes_at_def)
    qed (use True in \<open>simp add: Connection_Close_end_def cgo_disconnected_def\<close>)
  next
    case False
    then obtain cb u where "fc_state fc = FConfigured cb u" using fc(2) by (auto simp: marked_def)
    then obtain w2 where 2: "rc_conn_free debug (he_ffi E) (gc_conn c) (h, w)
        = Some (Ret (ConnSuccess, heap_set h (gc_conn c) None, w2))"
      using free_call [OF H fc(1,3)] by fastforce
    have "Connection_Close_end debug (he_ffi E) b (c, t, h, w) = Some (Ret (?c, ?t, heap_set h (gc_conn c) None, w2))"
      using False 2 rel fc(4) by (simp add: Connection_Close_end_def cgo_free_def)
    moreover have "conn_inv (heap_set h (gc_conn c) None) ?t ?c" by (rule fin) (simp_all add: heap_set_def)
    ultimately show ?thesis using cl by (auto simp: shut_def heap_set_def changes_at_def)
  qed
qed

definition safe_host :: "('h, 'w) go_host comp \<Rightarrow> bool" where
  "safe_host m \<longleftrightarrow> m = None \<or> (\<exists>s'. m = Some (Ret s') \<and> host_inv s')"

lemma safe_host_done [simp]: "safe_host (done_with s) \<longleftrightarrow> host_inv s"
  by (simp add: safe_host_def)

lemma host_conn: "host_inv s \<Longrightarrow> i < length (gh_connections s) \<Longrightarrow> conn_inv (gh_heap s) (gh_handles s) (gh_connections s ! i)"
  by (simp add: host_inv_def)

lemma set_lib_handles [simp]:
  "(set_lib x (upd_conn i c s))\<lparr>gh_handles := gh_handles s\<rparr> = set_lib x (upd_conn i c s)"
  by (simp add: set_lib_def upd_conn_def)

lemma on_conn_safe:
  assumes inv: "host_inv s" and i: "i < length (gh_connections s)"
    and step: "safe_step (gh_heap s) (gh_handles s) (gh_connections s ! i) (f (gh_connections s ! i, gh_heap s, gh_world s))"
  shows "safe_host (on_conn i f s)"
  using step unfolding safe_step_def
proof
  assume "\<exists>c' h' w'. f (gh_connections s ! i, gh_heap s, gh_world s) = Some (Ret (c', h', w'))
     \<and> gc_conn c' = gc_conn (gh_connections s ! i) \<and> gc_handle c' = gc_handle (gh_connections s ! i)
     \<and> changes_at (gc_conn (gh_connections s ! i)) (gh_heap s) h'
     \<and> conn_inv h' (gh_handles s) c' \<and> (shut (gh_connections s ! i) \<longrightarrow> shut c')"
  then obtain c' h' w' where f: "f (gh_connections s ! i, gh_heap s, gh_world s) = Some (Ret (c', h', w'))"
    and same: "gc_conn c' = gc_conn (gh_connections s ! i)" "gc_handle c' = gc_handle (gh_connections s ! i)"
    and rest: "changes_at (gc_conn (gh_connections s ! i)) (gh_heap s) h'" "conn_inv h' (gh_handles s) c'"
      "shut (gh_connections s ! i) \<longrightarrow> shut c'" by blast
  have "host_inv ((set_lib (h', w') (upd_conn i c' s))\<lparr>gh_handles := gh_handles s\<rparr>)"
    by (rule host_inv_step [OF inv i same]) (use rest same in simp_all)
  then show ?thesis using f by (simp add: on_conn_def safe_host_def)
qed (simp add: on_conn_def safe_host_def)

text \<open>A change of a connection that leaves the library alone.\<close>

lemma upd_conn_safe:
  assumes inv: "host_inv s" and i: "i < length (gh_connections s)"
    and same: "gc_conn c' = gc_conn (gh_connections s ! i)" "gc_handle c' = gc_handle (gh_connections s ! i)"
    and c': "conn_inv (gh_heap s) (gh_handles s) c'" "shut (gh_connections s ! i) \<Longrightarrow> shut c'"
  shows "host_inv (upd_conn i c' s)"
proof -
  have "host_inv ((set_lib (gh_heap s, gh_world s) (upd_conn i c' s))\<lparr>gh_handles := gh_handles s\<rparr>)"
    by (rule host_inv_step [OF inv i same]) (use c' in simp_all)
  then show ?thesis by (simp add: set_lib_def upd_conn_def)
qed

lemma close_conn_safe:
  assumes inv: "host_inv s" and u: "unlocked i s"
  shows "host_inv (close_conn i s)"
proof -
  let ?c = "gh_connections s ! i"
  have i: "i < length (gh_connections s)" and mu: "gc_mu ?c = None" using u by (simp_all add: unlocked_def)
  have ci: "conn_inv (gh_heap s) (gh_handles s) ?c" by (rule host_conn [OF inv i])
  show ?thesis
  proof (cases "cl_closed (gc_lifecycle ?c)")
    case True
    then show ?thesis using inv i
      by (simp add: close_conn_def Connection_Close_begin_def markClosed_def upd_conn_def)
  next
    case False
    let ?c' = "?c\<lparr>gc_lifecycle := (gc_lifecycle ?c)\<lparr>cl_closed := True\<rparr>, gc_mu := Some (cl_connected (gc_lifecycle ?c))\<rparr>"
    have "conn_inv (gh_heap s) (gh_handles s) ?c'" using ci False mu
      by (auto simp: conn_inv_def shut_def conn_live_def)
    then have "host_inv (upd_conn i ?c' s)" using False by (intro upd_conn_safe [OF inv i]) (simp_all add: shut_def)
    then show ?thesis using False by (simp add: close_conn_def Connection_Close_begin_def markClosed_def)
  qed
qed

lemma NewConnection_safe:
  fixes s :: "('h, 'w) go_host"
  assumes H: "healthy E" and inv: "host_inv s"
  shows "safe_host (comp_bind (NewConnection E s) (\<lambda>(err, s'). done_with s'))"
proof (cases "gh_closed s")
  case True
  then show ?thesis using inv by (simp add: NewConnection_def)
next
  case False
  let ?cs = "gh_connections s"
  let ?n = "cg_next (gh_handles s)"
  have ptr: "gh_ptr s \<noteq> 0" and nx: "0 < hp_next (gh_heap s)" using inv False by (auto simp: host_inv_def)
  from new_call [OF H ptr nx, of "he_debug E" ?n "gh_world s"] obtain fc h' w' where
    new: "newCgoConn (he_debug E) (he_ffi E) (gh_ptr s) ?n (gh_heap s, gh_world s) = Some (Ret (Ok (hp_next (gh_heap s)), h', w'))"
    and h': "hp_next h' = Suc (hp_next (gh_heap s))" "hp_conns h' = (hp_conns (gh_heap s))(hp_next (gh_heap s) \<mapsto> fc)"
    and fc: "fc_state fc = FConfigured goSendCb_addr ?n" by blast
  define t where "t = snd (newPinnedHandle (length ?cs) (gh_handles s))"
  define c :: "'h go_connection" where "c = new_go_connection (hp_next (gh_heap s)) ?n"
  let ?s = "s\<lparr>gh_handles := t, gh_heap := h', gh_world := w', gh_conns := length ?cs # gh_conns s,
    gh_connections := ?cs @ [c]\<rparr>"
  have ids: "gc_conn c = hp_next (gh_heap s)" "gc_handle c = ?n" by (simp_all add: c_def new_go_connection_def)
  have old: "conn_inv h' t d" "gc_conn d \<noteq> hp_next (gh_heap s)" "gc_handle d \<noteq> ?n" if "d \<in> set ?cs" for d
  proof -
    have di: "conn_inv (gh_heap s) (gh_handles s) d" using inv that by (simp add: host_inv_def)
    then show "gc_conn d \<noteq> hp_next (gh_heap s)" "gc_handle d \<noteq> ?n" by (auto simp: conn_inv_def)
    then show "conn_inv h' t d" by (intro conn_inv_frame [OF di]) (simp_all add: h' t_def newPinnedHandle_def)
  qed
  have "conn_inv h' t c"
    using nx fc pool_inv_started
    by (simp add: conn_inv_def c_def new_go_connection_def h' t_def newPinnedHandle_def shut_def conn_live_def marked_def
        started_pool_def pool_start_def new_invoke_pool_def)
  moreover have "hp_next (gh_heap s) \<notin> gc_conn ` set ?cs" "?n \<notin> gc_handle ` set ?cs" using old(2,3) by fastforce+
  then have "distinct (map gc_conn (?cs @ [c]))" "distinct (map gc_handle (?cs @ [c]))"
    using inv by (simp_all add: host_inv_def ids)
  moreover have "gh_closing s = None" using inv False by (cases "gh_closing s") (auto simp: host_inv_def)
  moreover have "\<forall>i < length (?cs @ [c]). i \<in> set (length ?cs # gh_conns s) \<or> shut ((?cs @ [c]) ! i)"
    using inv by (simp add: host_inv_def nth_append less_Suc_eq)
  moreover have "\<forall>d \<in> set ?cs. conn_inv h' t d" using old(1) by blast
  moreover have "ch_ctxs (gh_ctxs s) (gh_ptr s) \<noteq> None" using inv ptr by (simp add: host_inv_def)
  ultimately have "host_inv ?s" using ptr h' unfolding host_inv_def by simp
  then show ?thesis using False new by (simp add: NewConnection_def newPinnedHandle_def Let_def t_def c_def)
qed

lemma goDispatchCb_change:
  assumes "goDispatchCb G reg t pools corr data u = Some (ret, Some (i, pool))"
  obtains job b where "enqueue job (pools i) = Some (b, pool)"
  using assms
  by (auto simp: goDispatchCb_def recoverCallback_def run_bind_def split: run.splits option.splits sum.splits)

lemma enqueue_frame:
  "enqueue job p = Some (b, p') \<Longrightarrow> ip_crashed p' = ip_crashed p \<and> ip_shutdown p' = ip_shutdown p"
  by (auto simp: enqueue_def split: if_splits)

lemma DispatchCb_safe:
  assumes inv: "host_inv s" and act: "host_act E (HDispatchCb u corr data) s = Some m"
  shows "safe_host m"
proof -
  obtain ret change where cb: "goDispatchCb (he_proto E) (gh_registry s) (gh_handles s)
      (\<lambda>i. gc_pool (gh_connections s ! i)) corr data u = Some (ret, change)"
    and m: "m = done_with (case change of None \<Rightarrow> s
        | Some (i, pool) \<Rightarrow> upd_conn i ((gh_connections s ! i)\<lparr>gc_pool := pool\<rparr>) s)"
    using act by auto
  show ?thesis
  proof (cases change)
    case None
    then show ?thesis using inv m by simp
  next
    case (Some x)
    obtain i pool where x: "x = (i, pool)" by fastforce
    then obtain job b where e: "enqueue job (gc_pool (gh_connections s ! i)) = Some (b, pool)"
      using cb Some goDispatchCb_change by metis
    let ?c = "(gh_connections s ! i)\<lparr>gc_pool := pool\<rparr>"
    have "host_inv (upd_conn i ?c s)"
    proof (cases "i < length (gh_connections s)")
      case True
      have ci: "conn_inv (gh_heap s) (gh_handles s) (gh_connections s ! i)" by (rule host_conn [OF inv True])
      then have pinv: "pool_inv pool" "\<not> ip_crashed pool" "ip_shutdown pool = ip_shutdown (gc_pool (gh_connections s ! i))"
        using enqueue_inv [OF e] enqueue_frame [OF e] by (simp_all add: conn_inv_def)
      have "conn_inv (gh_heap s) (gh_handles s) ?c"
        using ci pinv(3) by (intro conn_inv_pool [OF ci pinv(1,2)]) (simp_all add: conn_inv_def conn_released_def)
      then show ?thesis by (intro upd_conn_safe [OF inv True]) (simp_all add: shut_def)
    qed (use inv in \<open>simp add: upd_conn_def list_update_beyond\<close>)
    then show ?thesis using m Some x by simp
  qed
qed

lemma outgoing_safe:
  assumes inv: "host_inv s"
  shows "host_inv (upd_conn i ((gh_connections s ! i)\<lparr>gc_outgoing := out\<rparr>) s)"
proof (cases "i < length (gh_connections s)")
  case True
  then show ?thesis by (intro upd_conn_safe [OF inv True]) (simp_all add: host_conn [OF inv True])
qed (use inv in \<open>simp add: upd_conn_def list_update_beyond\<close>)

lemma forget_safe:
  assumes inv: "host_inv s" and i: "i < length (gh_connections s)" and f: "gc_forget (gh_connections s ! i)"
  shows "host_inv (forget i (upd_conn i ((gh_connections s ! i)\<lparr>gc_forget := False\<rparr>) s))"
proof -
  let ?s = "upd_conn i ((gh_connections s ! i)\<lparr>gc_forget := False\<rparr>) s"
  have sh: "shut (gh_connections s ! i)" using host_conn [OF inv i] f by (simp add: conn_inv_def)
  have inv': "host_inv ?s" by (intro upd_conn_safe [OF inv i]) (simp_all add: host_conn [OF inv i])
  have sh': "shut (gh_connections ?s ! i)" using sh i by (simp add: upd_conn_def)
  have same: "gh_connections (forget i ?s) = gh_connections ?s" by (simp add: forget_def)
  have "j \<in> set (gh_conns (forget i ?s)) \<or> shut (gh_connections ?s ! j)" if "j < length (gh_connections ?s)" for j
    using that inv' sh' by (cases "j = i") (simp_all add: host_inv_def forget_def)
  then show ?thesis using inv' unfolding host_inv_def same by (simp add: forget_def)
qed

lemma ctx_free_safe:
  assumes H: "healthy E" and inv: "host_inv s" and cl: "gh_closing s = Some []"
  shows "safe_host (Context_Close_end E s)"
proof -
  have ptr: "gh_ptr s \<noteq> 0" and sh: "\<forall>i < length (gh_connections s). shut (gh_connections s ! i)" and closed: "gh_closed s"
    using inv cl by (auto simp: host_inv_def)
  obtain c where c: "ch_ctxs (gh_ctxs s) (gh_ptr s) = Some c" using inv ptr by (auto simp: host_inv_def)
  define w where "w = cx_drop_sender (he_ctx E) (cx_connection_events c)
    (shutdown_now (he_runtime E) (cx_shutdown c) (gh_world s))"
  have eq: "ctx_shutdown (he_ctx E) (he_runtime E) c (gh_world s) =
      Option.bind (cx_join (he_ctx E) (cx_runtime_thread c) w) (\<lambda>(r, w3).
        Some (expect r ''rc-x509-client worker thread panic'' (\<lambda>_. Ret w3)))"
    by (simp add: ctx_shutdown_def Let_def w_def)
  have fin: "host_inv (s\<lparr>gh_ctxs := ctxs, gh_world := w', gh_ptr := 0, gh_closing := None\<rparr>)" for ctxs w'
    using inv sh closed by (auto simp: host_inv_def in_set_conv_nth)
  show ?thesis
  proof (cases "cx_join (he_ctx E) (cx_runtime_thread c) w")
    case None
    then show ?thesis using ptr c by (simp add: Context_Close_end_def rc_free_def eq safe_host_def)
  next
    case (Some x)
    obtain r w' where x: "x = (r, w')" by fastforce
    then have "r = Ok ()" using H Some unfolding healthy_def by blast
    then show ?thesis using ptr c Some x fin by (simp add: Context_Close_end_def rc_free_def eq)
  qed
qed

definition utf8_panic :: string where
  "utf8_panic = ''endpoint_hostname must be valid UTF-8''"

lemma host_act_safe:
  assumes H: "healthy E" and inv: "host_inv s" and act: "host_act E a s = Some m"
  shows "safe_host m
    \<or> (\<exists>i host. a = HConnected i host \<and> \<not> utf8_valid host \<and> m = Some (Panic utf8_panic))
    \<or> (\<exists>i pa. a = HPool i pa \<and> m = Some (Panic negative_counter))"
proof (cases a)
  case (HRegister uri h)
  then show ?thesis using act inv by (auto simp: host_inv_def)
next
  case (HUnregister uri)
  then show ?thesis using act inv by (auto simp: host_inv_def)
next
  case HNewConnection
  then show ?thesis using act NewConnection_safe [OF H inv] by auto
next
  case (HConnected i host)
  then have i: "i < length (gh_connections s)" "gc_mu (gh_connections s ! i) = None" and m: "m = on_conn i
      (\<lambda>cx. comp_bind (Connection_Connected (he_debug E) (he_ffi E) host cx) (\<lambda>(err, cx'). done_with cx')) s"
    using act by (auto simp: unlocked_def split: if_splits)
  from Connected_safe [OF H host_conn [OF inv i(1)] i(2) refl, of host "he_debug E" "gh_world s"]
  show ?thesis
  proof
    assume "\<not> utf8_valid host \<and> comp_bind (Connection_Connected (he_debug E) (he_ffi E) host
       (gh_connections s ! i, gh_heap s, gh_world s)) (\<lambda>(err, cx'). done_with cx')
         = Some (Panic ''endpoint_hostname must be valid UTF-8'')"
    then show ?thesis using m HConnected by (simp add: on_conn_def utf8_panic_def)
  next
    assume "safe_step (gh_heap s) (gh_handles s) (gh_connections s ! i)
      (comp_bind (Connection_Connected (he_debug E) (he_ffi E) host (gh_connections s ! i, gh_heap s, gh_world s))
        (\<lambda>(err, cx'). done_with cx'))"
    then have "safe_host m" unfolding m by (rule on_conn_safe [OF inv i(1)])
    then show ?thesis by blast
  qed
next
  case (HRecv i data)
  then have i: "i < length (gh_connections s)" "gc_mu (gh_connections s ! i) = None" and m: "m = on_conn i
      (\<lambda>cx. comp_bind (Connection_Recv (he_debug E) (he_codec E) (he_ffi E) data cx) (\<lambda>(err, cx'). done_with cx')) s"
    using act by (auto simp: unlocked_def split: if_splits)
  have "safe_host m" unfolding m
    by (rule on_conn_safe [OF inv i(1)]) (rule Recv_safe [OF host_conn [OF inv i(1)] i(2)])
  then show ?thesis by blast
next
  case (HOutgoing i)
  then show ?thesis using act outgoing_safe [OF inv] by (auto split: if_splits list.splits)
next
  case (HClose i)
  then show ?thesis using act close_conn_safe [OF inv] by (auto split: if_splits)
next
  case (HPool i pa)
  then obtain pool where i: "i < length (gh_connections s)" "own_action (gc_mu (gh_connections s ! i)) pa"
    "pool_act pa (gc_pool (gh_connections s ! i)) = Some pool" and m: "m = on_conn i (pool_moves E pool) s"
    using act by (auto split: if_splits)
  from pool_moves_safe [OF H host_conn [OF inv i(1)] i(2,3), of "gh_world s"] show ?thesis
  proof
    assume "ip_crashed pool \<and> pool_moves E pool (gh_connections s ! i, gh_heap s, gh_world s) = Some (Panic negative_counter)"
    then show ?thesis using m HPool by (simp add: on_conn_def)
  qed (use on_conn_safe [OF inv i(1)] m in blast)
next
  case (HCloseEnd i)
  let ?c = "gh_connections s ! i"
  from HCloseEnd act obtain b where i: "i < length (gh_connections s)" "ip_shutdown (gc_pool ?c) = ShutReturned"
    "gc_mu ?c = Some b" and m: "m = comp_bind (Connection_Close_end (he_debug E) (he_ffi E) b
       (?c, gh_handles s, gh_heap s, gh_world s)) (\<lambda>(c, t, x). done_with ((set_lib x (upd_conn i c s))\<lparr>gh_handles := t\<rparr>))"
    by (auto split: if_splits option.splits)
  from Close_end_safe [OF H host_conn [OF inv i(1)] i(3,2), of "he_debug E" "gh_world s"] show ?thesis
  proof
    assume "\<exists>w' h' t' c'. Connection_Close_end (he_debug E) (he_ffi E) b (?c, gh_handles s, gh_heap s, gh_world s)
        = Some (Ret (c', t', h', w')) \<and> gc_conn c' = gc_conn ?c \<and> gc_handle c' = gc_handle ?c
        \<and> changes_at (gc_conn ?c) (gh_heap s) h' \<and> cg_next t' = cg_next (gh_handles s)
        \<and> (\<forall>q. q \<noteq> gc_handle ?c \<longrightarrow> cg_values t' q = cg_values (gh_handles s) q)
        \<and> conn_inv h' t' c' \<and> shut c'"
    then obtain w' h' t' c' where r: "Connection_Close_end (he_debug E) (he_ffi E) b (?c, gh_handles s, gh_heap s, gh_world s)
        = Some (Ret (c', t', h', w'))" and same: "gc_conn c' = gc_conn ?c" "gc_handle c' = gc_handle ?c"
      and rest: "changes_at (gc_conn ?c) (gh_heap s) h'" "cg_next t' = cg_next (gh_handles s)"
        "\<forall>q. q \<noteq> gc_handle ?c \<longrightarrow> cg_values t' q = cg_values (gh_handles s) q" "conn_inv h' t' c'" "shut c'" by blast
    have "host_inv ((set_lib (h', w') (upd_conn i c' s))\<lparr>gh_handles := t'\<rparr>)"
      by (rule host_inv_step [OF inv i(1) same]) (use rest same in simp_all)
    then show ?thesis using m r by simp
  qed (use m in \<open>simp add: safe_host_def\<close>)
next
  case (HForget i)
  then show ?thesis using act forget_safe [OF inv] by (auto split: if_splits)
next
  case (HDispatchCb u corr data)
  then show ?thesis using act DispatchCb_safe [OF inv] by blast
next
  case (HSendCb u payload)
  then show ?thesis using act inv outgoing_safe [OF inv] by (auto split: prod.splits option.splits)
next
  case (HCtxClose conns)
  then show ?thesis using act inv by (auto simp: Context_Close_begin_def host_inv_def split: if_splits)
next
  case HCtxNext
  then obtain i rest where cl: "gh_closing s = Some (i # rest)" and u: "unlocked i s"
    and m: "m = done_with (if cl_closed (gc_lifecycle (gh_connections s ! i)) then s\<lparr>gh_closing := Some rest\<rparr>
      else close_conn i s)"
    using act by (auto split: option.splits list.splits if_splits)
  have "host_inv (s\<lparr>gh_closing := Some rest\<rparr>)" if "cl_closed (gc_lifecycle (gh_connections s ! i))"
  proof -
    have "shut (gh_connections s ! i)" using that u by (simp add: shut_def unlocked_def)
    moreover have "j \<in> set (i # rest) \<or> shut (gh_connections s ! j)" if "j < length (gh_connections s)" for j
      using inv cl that by (auto simp: host_inv_def)
    ultimately have "j \<in> set rest \<or> shut (gh_connections s ! j)" if "j < length (gh_connections s)" for j
      using that by fastforce
    then show ?thesis using inv cl by (simp add: host_inv_def)
  qed
  then show ?thesis using m close_conn_safe [OF inv u] by simp
next
  case HCtxFree
  then show ?thesis using act ctx_free_safe [OF H inv] by (auto split: if_splits)
qed

section \<open>Debug and release builds\<close>

lemma connected_build:
  assumes "hp_conns h p = Some c" "fc_state c = FConfigured cb u"
  shows "rc_conn_connected debug F p host (h, w) = rc_conn_connected debug' F p host (h, w)"
  using assms by (auto simp: call_defs set_connected_def split: option.split)

lemma recv_build:
  assumes "hp_conns h p = Some c" "fc_state c = FConnected cn"
  shows "rc_conn_recv debug P F p data (h, w) = rc_conn_recv debug' P F p data (h, w)"
  using assms by (auto simp: call_defs recv_incoming_def Let_def split: option.split)

lemma disconnected_build:
  assumes "hp_conns h p = Some c" "fc_state c = FConnected cn"
  shows "rc_conn_disconnected debug F p (h, w) = rc_conn_disconnected debug' F p (h, w)"
  using assms by (simp add: call_defs set_disconnected_def)

lemma free_build:
  assumes "hp_conns h p = Some c" "\<And>cn. fc_state c \<noteq> FConnected cn"
  shows "rc_conn_free debug F p (h, w) = rc_conn_free debug' F p (h, w)"
  using assms by (auto simp: call_defs ffi_free_def split: ffi_state.split)

lemma newCgoConn_build: "newCgoConn debug F ctx u x = newCgoConn debug' F ctx u x"
  by (cases x) (auto simp: newCgoConn_def rc_conn_new_def ffi_connection_new_def call_defs set_send_callback_def
      heap_set_def run_bind_def assert_that_def split: run.split)

lemma Connected_build:
  assumes inv: "conn_inv h t c" and mu: "gc_mu c = None"
  shows "Connection_Connected debug F host (c, h, w) = Connection_Connected debug' F host (c, h, w)"
proof (cases "cl_closed (gc_lifecycle c) \<or> cl_connected (gc_lifecycle c)")
  case True
  then show ?thesis by (auto simp: Connection_Connected_def markConnected_def)
next
  case False
  then have "\<not> shut c" "cl_connected (gc_lifecycle c) = False" by (simp_all add: shut_def)
  then obtain fc where fc: "hp_conns h (gc_conn c) = Some fc" "marked False fc" using conn_inv_cases [OF inv] by metis
  then obtain cb u where "fc_state fc = FConfigured cb u" by (auto simp: marked_def)
  then have "cgo_connected debug F (gc_conn c) host (h, w) = cgo_connected debug' F (gc_conn c) host (h, w)"
    using connected_build [OF fc(1), of cb u debug F "Some host" w debug'] by (simp add: cgo_connected_def)
  then show ?thesis by (simp add: Connection_Connected_def split: prod.split option.split)
qed

lemma Recv_build:
  assumes inv: "conn_inv h t c" and mu: "gc_mu c = None"
  shows "Connection_Recv debug P F data (c, h, w) = Connection_Recv debug' P F data (c, h, w)"
proof (cases "cl_closed (gc_lifecycle c) \<or> \<not> cl_connected (gc_lifecycle c)")
  case True
  then show ?thesis by (auto simp: Connection_Recv_def checkRecvable_def)
next
  case False
  then have "\<not> shut c" "cl_connected (gc_lifecycle c) = True" by (simp_all add: shut_def)
  then obtain fc where fc: "hp_conns h (gc_conn c) = Some fc" "marked True fc" using conn_inv_cases [OF inv] by metis
  then obtain cn where "fc_state fc = FConnected cn" by (auto simp: marked_def)
  then have "cgo_recv debug P F (gc_conn c) data (h, w) = cgo_recv debug' P F (gc_conn c) data (h, w)"
    using recv_build [OF fc(1), of cn debug P F "Some data" w debug'] by (simp add: cgo_recv_def)
  then show ?thesis by (simp add: Connection_Recv_def split: option.split)
qed

lemma Close_end_build:
  assumes H: "healthy E" and inv: "conn_inv h t c" and mu: "gc_mu c = Some b"
  shows "Connection_Close_end debug (he_ffi E) b (c, t, h, w) = Connection_Close_end debug' (he_ffi E) b (c, t, h, w)"
proof -
  have ns: "\<not> shut c" and b: "b = cl_connected (gc_lifecycle c)" using inv mu by (auto simp: shut_def conn_inv_def)
  obtain fc where fc: "hp_conns h (gc_conn c) = Some fc" "gc_conn c \<noteq> 0" "marked b fc"
    unfolding b by (rule conn_inv_cases [OF inv ns])
  show ?thesis
  proof (cases b)
    case True
    then obtain cn where cn: "fc_state fc = FConnected cn" "tasks_held cn" using fc(3) by (auto simp: marked_def)
    let ?h = "heap_set h (gc_conn c) (Some (fc\<lparr>fc_state := FDisconnected\<rparr>))"
    have live: "hp_conns ?h (gc_conn c) = Some (fc\<lparr>fc_state := FDisconnected\<rparr>)" by (simp add: heap_set_def)
    have free: "cgo_free debug (he_ffi E) (gc_conn c) (?h, w') = cgo_free debug' (he_ffi E) (gc_conn c) (?h, w')" for w'
      using free_build [OF live, of debug "he_ffi E" w' debug'] by (simp add: cgo_free_def)
    have "cgo_disconnected debug (he_ffi E) (gc_conn c) (h, w) = cgo_disconnected debug' (he_ffi E) (gc_conn c) (h, w)"
      using disconnected_build [OF fc(1) cn(1), of debug "he_ffi E" w debug'] by (simp add: cgo_disconnected_def)
    moreover have "cgo_disconnected debug' (he_ffi E) (gc_conn c) (h, w) = None
      \<or> (\<exists>w'. cgo_disconnected debug' (he_ffi E) (gc_conn c) (h, w) = Some (Ret (?h, w')))"
      using disconnected_call [OF H fc(1,2) cn, of debug' w] by (auto simp: cgo_disconnected_def)
    ultimately show ?thesis using True free by (auto simp: Connection_Close_end_def)
  next
    case False
    then have "cgo_free debug (he_ffi E) (gc_conn c) (h, w) = cgo_free debug' (he_ffi E) (gc_conn c) (h, w)"
      using free_build [OF fc(1), of debug "he_ffi E" w debug'] fc(3) by (auto simp: cgo_free_def marked_def)
    then show ?thesis using False by (simp add: Connection_Close_end_def)
  qed
qed

lemma host_act_build:
  fixes a :: "'h host_action"
  assumes H: "healthy E" and inv: "host_inv s"
  shows "host_act (E\<lparr>he_debug := debug\<rparr>) a s = host_act E a s"
proof (cases a)
  case HNewConnection
  have "newCgoConn debug (he_ffi E) (gh_ptr s) u x = newCgoConn (he_debug E) (he_ffi E) (gh_ptr s) u x" for u x
    by (rule newCgoConn_build)
  then show ?thesis using HNewConnection by (simp add: NewConnection_def)
next
  case (HConnected i host)
  then show ?thesis using Connected_build [OF host_conn [OF inv], of i debug "he_ffi E" host "gh_world s" "he_debug E"]
    by (simp add: on_conn_def unlocked_def)
next
  case (HRecv i data)
  then show ?thesis using Recv_build [OF host_conn [OF inv], of i debug "he_codec E" "he_ffi E" data "gh_world s" "he_debug E"]
    by (simp add: on_conn_def unlocked_def)
next
  case (HCloseEnd i)
  then show ?thesis using Close_end_build [OF H host_conn [OF inv], of i _ debug "gh_world s" "he_debug E"]
    by (simp split: option.split)
next
  case (HPool i pa)
  have "sink_sends (E\<lparr>he_debug := debug\<rparr>) p calls x = sink_sends E p calls x" for p calls x
  proof (induction calls arbitrary: x)
    case (Cons call calls)
    have "sink_send (E\<lparr>he_debug := debug\<rparr>) p call x = sink_send E p call x" by (cases call) (simp_all add: sink_send_def)
    then show ?case using Cons.IH by (simp add: comp_bind_def split: option.split run.split)
  qed simp
  then have "pool_moves (E\<lparr>he_debug := debug\<rparr>) pool = pool_moves E pool" for pool :: "'h invoke_pool"
    by (simp add: pool_moves_def fun_eq_iff)
  then show ?thesis using HPool by simp
next
  case HCtxFree
  then show ?thesis by (simp add: Context_Close_end_def)
qed simp_all

section \<open>Properties\<close>

lemma Init_ok:
  assumes "Init C R appName version (\<lparr>ch_ctxs = (\<lambda>_. None), ch_next = 1\<rparr>, w) = Some (Ret (Ok ptr, ctxs, w'))"
  shows "ptr = 1 \<and> ch_ctxs ctxs ptr \<noteq> None"
  using assms
  by (auto simp: Init_def rc_init_def with_data_def outcome_simps split: if_splits)

lemma host_reaches_inv:
  assumes "host_reaches E s" and H: "healthy E"
  shows "host_inv s"
  using assms(1)
proof induction
  case (host_start appName version w ptr ctxs w')
  from Init_ok [OF this] show ?case by (auto simp: host_inv_def new_host_def empty_heap_def)
next
  case (host_step s a s')
  show ?case using host_act_safe [OF H host_step.IH host_step.hyps(2)] by (auto simp: safe_host_def)
qed

section \<open>A run of the host\<close>

fun host_run :: "('v, 'w) host_env \<Rightarrow> 'h host_action list \<Rightarrow> ('h, 'w) go_host \<Rightarrow> ('h, 'w) go_host option" where
  "host_run E [] s = Some s"
| "host_run E (a # as) s = (case host_act E a s of Some (Some (Ret s')) \<Rightarrow> host_run E as s' | _ \<Rightarrow> None)"

lemma host_run_reaches: "host_run E as s = Some s' \<Longrightarrow> host_reaches E s \<Longrightarrow> host_reaches E s'"
  by (induction as arbitrary: s) (auto split: option.splits run.splits intro: host_step)

definition sample_env :: "(unit, nat) host_env" where
  "sample_env = \<lparr>he_debug = True, he_codec = tagging_codec,
     he_proto = \<lparr>gp_marshal = (\<lambda>m. Ok [1]), gp_unmarshal = (\<lambda>b. Ok (Some \<lparr>mt_uri = [7], mt_request = b\<rparr>))\<rparr>,
     he_ffi = numbering_ffi, he_ctx = numbering_ctx, he_runtime = numbering_runtime\<rparr>"

lemma sample_env_healthy: "healthy sample_env"
  by (simp add: healthy_def sample_env_def numbering_ffi_def numbering_ctx_def)

definition sample_ctx :: ctx where
  "sample_ctx = \<lparr>cx_runtime_thread = 2, cx_runtime_handle = 3, cx_shutdown = ShutdownCtl 0, cx_connection_events = 1\<rparr>"

lemma sample_utf8: "from_utf8 [97] = Ok ''a''" "from_utf8 [49] = Ok ''1''"
  by (simp_all add: from_utf8_def utf8_width_def char_of_def bit_0)

lemma sample_host_start:
  "host_reaches sample_env (new_host 1 \<lparr>ch_ctxs = [1 \<mapsto> sample_ctx], ch_next = 2\<rparr> 4)"
proof (rule host_start [of _ "[97]" "[49]" 0])
  show "Init (he_ctx sample_env) (he_runtime sample_env) [97] [49] (\<lparr>ch_ctxs = (\<lambda>_. None), ch_next = 1\<rparr>, 0)
    = Some (Ret (Ok 1, \<lparr>ch_ctxs = [1 \<mapsto> sample_ctx], ch_next = 2\<rparr>, 4))"
    by (simp add: Init_def maxStringLen_def rc_init_def with_data_def sample_utf8 ctx_new_def shutdown_signal_new_def
        sample_env_def numbering_ctx_def numbering_runtime_def numbering_def sample_ctx_def eval_nat_numeral)
qed

lemmas host_eval = sample_env_def new_host_def NewConnection_def newPinnedHandle_def newCgoConn_def rc_conn_new_def
  ffi_connection_new_def publish_event_def numbering_ffi_def numbering_def goDispatchCb_addr_def goSendCb_addr_def
  call_defs set_send_callback_def heap_set_def empty_heap_def new_go_connection_def on_conn_def unlocked_def
  Connection_Connected_def markConnected_def cgo_connected_def first_byte_def set_connected_def start_tasks_def
  new_dispatcher_interconnect_def abort_on_drop_from_def io_handle_new_def set_lib_def upd_conn_def maxStringLen_def
  sample_utf8 registry_register_def registry_lookup_def goDispatchCb_def recoverCallback_def connStateFromUserData_def
  close_conn_def Connection_Close_begin_def markClosed_def pool_moves_def sink_send_def sendDispatchResult_def
  marshalDispatchResponse_def cgo_dispatchResult_def handle_dispatch_result_def tagging_codec_def
  Connection_Close_end_def cgo_disconnected_def set_disconnected_def join_task_def cgo_free_def ffi_free_def
  handle_release_def forget_def Context_Close_begin_def Context_Close_end_def rc_free_def ctx_shutdown_def
  numbering_ctx_def numbering_runtime_def

definition sample_host :: "(unit, nat) go_host" where
  "sample_host = new_host 1 \<lparr>ch_ctxs = [1 \<mapsto> sample_ctx], ch_next = 2\<rparr> 4"

definition sample_open :: "unit host_action list" where
  "sample_open = [HRegister [7] (), HNewConnection, HConnected 0 [97], HDispatchCb 1 7 [9], HPool 0 EnqueueAdd]"

lemma sample_new: "\<exists>s. host_run sample_env [HNewConnection] sample_host = Some s
    \<and> (\<exists>msg. host_act sample_env (HConnected 0 [0xFF]) s = Some (Some (Panic msg)))"
  by (simp add: host_eval sample_host_def from_utf8_def utf8_width_def)

lemma sample_opened: "\<exists>s. host_run sample_env sample_open sample_host = Some s \<and> gh_connections s \<noteq> []
    \<and> \<not> shut (gh_connections s ! 0)"
  by (simp add: host_eval sample_host_def sample_open_def pool_eval shut_def)

definition sample_close :: "unit host_action list" where
  "sample_close = [HPool 0 (WorkerRecv 0), HClose 0, HPool 0 ShutdownRefuse, HPool 0 ShutdownClose,
     HPool 0 (HandlerEnds 0 (HandlerReturns [2] None)), HPool 0 (HandlerReturn 0), HPool 0 (JobSend 0),
     HPool 0 (JobDone 0), HPool 0 ShutdownWait, HCloseEnd 0, HForget 0, HCtxClose [], HCtxFree]"

lemma sample_closed: "\<exists>s. host_run sample_env (sample_open @ sample_close) sample_host = Some s
    \<and> gh_ptr s = 0 \<and> gh_connections s \<noteq> []"
  by (simp add: host_eval sample_host_def sample_open_def sample_close_def pool_eval sample_ctx_def)

section \<open>Safety of the host\<close>



text \<open>
  C33. The package never depends on the build of the library: in every reachable state every step
  does the same with a debug build, where a call out of order is a panic, and with a release build,
  where it is reported and ignored.
\<close>

theorem go_host_build_independent:
  assumes "healthy E" and "host_reaches E s"
  shows "host_act (E\<lparr>he_debug := debug\<rparr>) a s = host_act E a s"
  by (rule host_act_build [OF assms(1) host_reaches_inv [OF assms(2,1)]])

theorem go_host_build_independent_witness:
  "\<exists>s. host_run sample_env (sample_open @ sample_close) sample_host = Some s
     \<and> host_act (sample_env\<lparr>he_debug := False\<rparr>) (HRecv 0 [1]) s = host_act sample_env (HRecv 0 [1]) s"
proof -
  obtain s where s: "host_run sample_env (sample_open @ sample_close) sample_host = Some s" using sample_closed by blast
  have r: "host_reaches sample_env s" using host_run_reaches [OF s] sample_host_start by (simp add: sample_host_def)
  show ?thesis using s go_host_build_independent [OF sample_env_healthy r] by blast
qed



section \<open>The registry of handlers\<close>

text \<open>
  A lookup after a registration or its removal, and the errors of both: a name that is taken is not
  registered again, and one that is not registered cannot be removed.
\<close>

lemma registry_laws:
  "registry_lookup uri (snd (registry_register uri' h d)) =
     (if uri = uri' \<and> registry_lookup uri' d = None then Some h else registry_lookup uri d)"
  "registry_lookup uri (snd (registry_unregister uri' d)) = (if uri = uri' then None else registry_lookup uri d)"
  "fst (registry_register uri h d) = (if registry_lookup uri d = None then None else Some ErrHandlerExists)"
  "fst (registry_unregister uri d) = (if registry_lookup uri d = None then Some ErrHandlerNotFound else None)"
  by (auto simp: registry_register_def registry_unregister_def registry_lookup_def)

lemma lifecycle_terminal:
  "cl_closed l \<Longrightarrow> markConnected l = (Some ErrConnectionClosed, l)"
  "cl_closed l \<Longrightarrow> markClosed l = (Err ErrConnectionClosed, l)"
  "cl_closed l \<Longrightarrow> checkRecvable l = Some ErrConnectionClosed"
  by (simp_all add: markConnected_def markClosed_def checkRecvable_def)

section \<open>The log sink\<close>

text \<open>
  \<open>EnableLogSink\<close> for the duplication of a descriptor by the operating system, whose failures are an
  error number of it.
\<close>

record 'w os_files =
  os_dup :: "fd \<Rightarrow> 'w \<Rightarrow> (string + fd) \<times> 'w"
  os_close :: "fd \<Rightarrow> 'w \<Rightarrow> 'w"

definition dupLogSinkFile :: "'w os_files \<Rightarrow> fd \<Rightarrow> 'w \<Rightarrow> (go_error + fd) \<times> 'w" where
  "dupLogSinkFile S f w =
     (case os_dup S f w of (Inl e, w') \<Rightarrow> (Err (ErrText e), w') | (Inr g, w') \<Rightarrow> (Ok g, w'))"

definition EnableLogSink ::
  "('f, 'w) tracing_lib \<Rightarrow> 'w os_files \<Rightarrow> fd \<Rightarrow> bool \<times> 'w \<Rightarrow> (go_error option \<times> bool \<times> 'w) run" where
  "EnableLogSink G S f = (\<lambda>(installed, w).
     case dupLogSinkFile S f w of
       (Inl err, w1) \<Rightarrow> Ret (Some err, installed, w1)
     | (Inr ffiFd, w1) \<Rightarrow>
         run_bind (rc_enable_log_sink G ffiFd (installed, w1)) (\<lambda>(ret, installed', w2).
           let w3 = (if ret \<noteq> LogSinkSuccess then os_close S ffiFd w2 else w2)
           in Ret ((case ret of
                LogSinkSuccess \<Rightarrow> None
              | LogSinkAlreadySet \<Rightarrow> Some ErrLogSinkAlreadySet
              | _ \<Rightarrow> Some (ErrLogSinkRet ret)), installed', w3)))"

text \<open>The duplicate is closed exactly when the library did not take it.\<close>

lemma log_sink_descriptor:
  assumes "os_dup S f w = (Ok g, w1)"
  shows "EnableLogSink G S f (True, w) = Ret (Some ErrLogSinkAlreadySet, True, os_close S g w1)"
    and "install_subscriber G g w1 = Ret w2 \<Longrightarrow> EnableLogSink G S f (False, w) = Ret (None, True, w2)"
  using assms by (simp_all add: EnableLogSink_def dupLogSinkFile_def rc_enable_log_sink_def enable_log_sink_def)

end
