(* ===== verification/Go_Client.thy ===== *)
theory Go_Client
  imports Complex_Main Go_Host
begin

text \<open>
  The client of the Go package: \<open>backoff.go\<close>, \<open>client.go\<close> and \<open>session.go\<close> of \<open>rcx509\<close>. The interfaces
  \<open>FFIContext\<close>, \<open>FFIConnection\<close>, \<open>WebsocketDialer\<close> and \<open>WebsocketConnection\<close> that the client is written
  against, the clock, the random numbers and the Go contexts are the parameter \<open>'w client_env\<close>;
  a call of it that may wait for ever has an optional result. A \<open>float64\<close> is a real number.
\<close>

section \<open>Backoff\<close>

text \<open>A \<open>time.Duration\<close> is its nanoseconds.\<close>

definition second :: int where
  "second = 1000000000"

definition defaultInitialBackoff :: int where
  "defaultInitialBackoff = 1 * second"

definition defaultMaxBackoff :: int where
  "defaultMaxBackoff = 30 * second"

definition defaultBackoffMultiplier :: real where
  "defaultBackoffMultiplier = 2"

record backoff =
  bo_initial :: int
  bo_max :: int
  bo_multiplier :: real
  bo_attempt :: nat

definition newBackoff :: "int \<Rightarrow> int \<Rightarrow> real \<Rightarrow> backoff" where
  "newBackoff initial mx multiplier =
     \<lparr>bo_initial = initial, bo_max = mx, bo_multiplier = multiplier, bo_attempt = 0\<rparr>"

definition backoff_base :: "backoff \<Rightarrow> real" where
  "backoff_base b =
     (let d = of_int (bo_initial b) * bo_multiplier b ^ bo_attempt b
      in if d > of_int (bo_max b) then of_int (bo_max b) else d)"

text \<open>\<open>Next\<close> for the number of \<open>rand.Float64\<close>. The conversion to a duration drops the fraction.\<close>

definition backoff_Next :: "real \<Rightarrow> backoff \<Rightarrow> int \<times> backoff" where
  "backoff_Next rand b =
     (let d = backoff_base b
      in (\<lfloor>d / 2 + rand * d / 2\<rfloor>, b\<lparr>bo_attempt := Suc (bo_attempt b)\<rparr>))"

definition backoff_Reset :: "backoff \<Rightarrow> backoff" where
  "backoff_Reset b = b\<lparr>bo_attempt := 0\<rparr>"

section \<open>The interfaces of the client\<close>

datatype message_type = MessageText | MessageBinary

datatype session_event = SelDone | SelIncoming "bytes option" | SelOutgoing "bytes option"

text \<open>
  \<open>ce_select\<close> is the \<open>select\<close> of the session over the end of its context, the channel of the reader
  and the outgoing channel of the connection, where \<open>None\<close> is a closed channel. \<open>ce_join_reader\<close>
  cancels the context of the reader and waits for it.
\<close>

record 'w client_env =
  ce_NewConnection :: "'w \<Rightarrow> (go_error + nat) \<times> 'w"
  ce_Connected :: "nat \<Rightarrow> bytes \<Rightarrow> 'w \<Rightarrow> go_error option \<times> 'w"
  ce_Close :: "nat \<Rightarrow> 'w \<Rightarrow> (go_error option \<times> 'w) option"
  ce_Recv :: "nat \<Rightarrow> bytes \<Rightarrow> 'w \<Rightarrow> (go_error option \<times> 'w) option"
  ce_Outgoing :: "nat \<Rightarrow> 'w \<Rightarrow> (bytes option \<times> 'w) option"
  ce_Dial :: "bytes \<Rightarrow> 'w \<Rightarrow> (go_error + nat) \<times> 'w"
  ce_Read :: "nat \<Rightarrow> 'w \<Rightarrow> ((go_error + message_type \<times> bytes) \<times> 'w) option"
  ce_Write :: "nat \<Rightarrow> message_type \<Rightarrow> bytes \<Rightarrow> 'w \<Rightarrow> go_error option \<times> 'w"
  ce_CloseNow :: "nat \<Rightarrow> 'w \<Rightarrow> 'w"
  ce_go_reader :: "nat \<Rightarrow> 'w \<Rightarrow> nat \<times> 'w"
  ce_offer :: "nat \<Rightarrow> bytes \<Rightarrow> 'w \<Rightarrow> (bool \<times> 'w) option"
  ce_close_chan :: "nat \<Rightarrow> 'w \<Rightarrow> 'w"
  ce_join_reader :: "nat \<Rightarrow> 'w \<Rightarrow> 'w option"
  ce_select :: "nat \<Rightarrow> nat \<Rightarrow> 'w \<Rightarrow> (session_event \<times> 'w) option"
  ce_ctx_err :: "'w \<Rightarrow> bool"
  ce_timer :: "int \<Rightarrow> 'w \<Rightarrow> bool \<times> 'w"
  ce_now :: "'w \<Rightarrow> int"
  ce_rand :: "'w \<Rightarrow> real \<times> 'w"

definition errNonBinaryFrame :: go_error where
  "errNonBinaryFrame = ErrText ''rcx509: received a non-binary or empty frame''"

definition errEmptyPayload :: go_error where
  "errEmptyPayload = ErrText ''rcx509: received an empty payload''"

definition errFFIConnectionReleased :: go_error where
  "errFFIConnectionReleased = ErrText ''rcx509: FFI connection was released''"

definition ctx_canceled :: go_error where
  "ctx_canceled = ErrText ''context canceled''"

fun errors_Is :: "go_error \<Rightarrow> go_error \<Rightarrow> bool" where
  "errors_Is (ErrWrapped s e) target = (ErrWrapped s e = target \<or> errors_Is e target)"
| "errors_Is e target = (e = target)"

section \<open>Messages\<close>

definition readMessage :: "'w client_env \<Rightarrow> nat \<Rightarrow> 'w \<Rightarrow> ((go_error + bytes) \<times> 'w) option" where
  "readMessage C ws w =
     (case ce_Read C ws w of
        None \<Rightarrow> None
      | Some (Inl err, w') \<Rightarrow> Some (Err err, w')
      | Some (Inr (typ, data), w') \<Rightarrow>
          Some (if typ \<noteq> MessageBinary then Err errNonBinaryFrame
                else if length data = 0 then Err errEmptyPayload
                else Ok data, w'))"

definition writeMessage :: "'w client_env \<Rightarrow> nat \<Rightarrow> bytes \<Rightarrow> 'w \<Rightarrow> go_error option \<times> 'w" where
  "writeMessage C ws msg w = ce_Write C ws MessageBinary msg w"

definition read_round ::
  "'w client_env \<Rightarrow> nat \<Rightarrow> nat \<Rightarrow> 'w \<Rightarrow> ('w + go_error \<times> 'w) comp" where
  "read_round C ws messages w =
     (case readMessage C ws w of
        None \<Rightarrow> None
      | Some (Inl err, w1) \<Rightarrow> done_with (Inr (err, w1))
      | Some (Inr message, w1) \<Rightarrow>
          (case ce_offer C messages message w1 of
             None \<Rightarrow> None
           | Some (True, w2) \<Rightarrow> done_with (Inl w2)
           | Some (False, w2) \<Rightarrow> done_with (Inr (ctx_canceled, w2))))"

definition readWorker :: "'w client_env \<Rightarrow> nat \<Rightarrow> nat \<Rightarrow> 'w \<Rightarrow> (go_error \<times> 'w) comp" where
  "readWorker C ws messages w =
     comp_bind (rust_loop (read_round C ws messages) w) (\<lambda>(err, w').
       done_with (err, ce_close_chan C messages w'))"

definition drain_round :: "'w client_env \<Rightarrow> nat \<Rightarrow> nat \<Rightarrow> bool \<times> 'w \<Rightarrow> ((bool \<times> 'w) + 'w) comp" where
  "drain_round C ws conn = (\<lambda>(writable, w).
     case ce_Outgoing C conn w of
       None \<Rightarrow> None
     | Some (None, w1) \<Rightarrow> done_with (Inr w1)
     | Some (Some msg, w1) \<Rightarrow>
         (if \<not> writable then done_with (Inl (writable, w1))
          else case writeMessage C ws msg w1 of
              (Some err, w2) \<Rightarrow> done_with (Inl (False, w2))
            | (None, w2) \<Rightarrow> done_with (Inl (writable, w2))))"

definition drainOutgoing :: "'w client_env \<Rightarrow> nat \<Rightarrow> nat \<Rightarrow> 'w \<Rightarrow> 'w comp" where
  "drainOutgoing C ws conn w = rust_loop (drain_round C ws conn) (True, w)"

section \<open>Sessions\<close>

definition session_round ::
  "'w client_env \<Rightarrow> nat \<Rightarrow> nat \<Rightarrow> nat \<Rightarrow> 'w \<Rightarrow> ('w + go_error option \<times> 'w) comp" where
  "session_round C conn ws incoming w =
     (case ce_select C conn incoming w of
        None \<Rightarrow> None
      | Some (SelDone, w1) \<Rightarrow> done_with (Inr (Some ctx_canceled, w1))
      | Some (SelIncoming None, w1) \<Rightarrow> done_with (Inr (None, w1))
      | Some (SelIncoming (Some msg), w1) \<Rightarrow>
          (case ce_Recv C conn msg w1 of
             None \<Rightarrow> None
           | Some (None, w2) \<Rightarrow> done_with (Inl w2)
           | Some (Some err, w2) \<Rightarrow>
               if errors_Is err ErrConnectionClosed \<or> errors_Is err ErrConnectionNotConnected
               then done_with (Inr (Some (ErrWrapped ''rcx509: failed to deliver message to FFI layer'' err), w2))
               else done_with (Inl w2))
      | Some (SelOutgoing None, w1) \<Rightarrow> done_with (Inr (Some errFFIConnectionReleased, w1))
      | Some (SelOutgoing (Some msg), w1) \<Rightarrow>
          (case writeMessage C ws msg w1 of
             (Some err, w2) \<Rightarrow> done_with (Inr (Some (ErrWrapped ''rcx509: websocket write failed'' err), w2))
           | (None, w2) \<Rightarrow> done_with (Inl w2)))"

text \<open>The deferred function of \<open>runSession\<close>, then \<open>runSession\<close>.\<close>

definition session_cleanup :: "'w client_env \<Rightarrow> nat \<Rightarrow> nat \<Rightarrow> nat \<Rightarrow> 'w \<Rightarrow> 'w comp" where
  "session_cleanup C conn ws incoming w =
     (case ce_Close C conn w of
        None \<Rightarrow> None
      | Some (err, w1) \<Rightarrow>
          comp_bind (drainOutgoing C ws conn w1) (\<lambda>w2.
            map_option Ret (ce_join_reader C incoming (ce_CloseNow C ws w2))))"

definition runSession :: "'w client_env \<Rightarrow> nat \<Rightarrow> nat \<Rightarrow> 'w \<Rightarrow> (go_error option \<times> 'w) comp" where
  "runSession C conn ws w =
     (case ce_go_reader C ws w of
        (incoming, w1) \<Rightarrow>
          comp_bind (rust_loop (session_round C conn ws incoming) w1) (\<lambda>(err, w2).
            comp_bind (session_cleanup C conn ws incoming w2) (\<lambda>w3. done_with (err, w3))))"

text \<open>An error of \<open>Close\<close> is ignored here.\<close>

definition establishConnection ::
  "'w client_env \<Rightarrow> bytes \<Rightarrow> bytes \<Rightarrow> 'w \<Rightarrow> ((go_error + nat \<times> nat) \<times> 'w) option" where
  "establishConnection C url endpointHostname w =
     (case ce_NewConnection C w of
        (Inl err, w1) \<Rightarrow> Some (Err (ErrWrapped ''rcx509: failed to create FFI connection'' err), w1)
      | (Inr conn, w1) \<Rightarrow>
          (case ce_Dial C url w1 of
             (Inl err, w2) \<Rightarrow>
               map_option (\<lambda>(_, w3). (Err (ErrWrapped ''rcx509: failed to dial'' err), w3)) (ce_Close C conn w2)
           | (Inr ws, w2) \<Rightarrow>
               (case ce_Connected C conn endpointHostname w2 of
                  (Some err, w3) \<Rightarrow>
                    map_option (\<lambda>(_, w4). (Err (ErrWrapped ''rcx509: failed to mark FFI connection as connected'' err),
                        ce_CloseNow C ws w4)) (ce_Close C conn w3)
                | (None, w3) \<Rightarrow> Some (Ok (conn, ws), w3))))"

section \<open>The client\<close>

definition resetThreshold :: int where
  "resetThreshold = 5 * second"

definition shouldResetBackoff :: "int \<Rightarrow> bool" where
  "shouldResetBackoff sessionDuration \<longleftrightarrow> sessionDuration \<ge> resetThreshold"

definition sleepCtx :: "'w client_env \<Rightarrow> int \<Rightarrow> 'w \<Rightarrow> bool \<times> 'w" where
  "sleepCtx C d w = (if d \<le> 0 then (True, w) else ce_timer C d w)"

definition wait_backoff :: "'w client_env \<Rightarrow> backoff \<Rightarrow> 'w \<Rightarrow> ((backoff \<times> 'w) + 'w) comp" where
  "wait_backoff C b w =
     (case ce_rand C w of
        (rand, w1) \<Rightarrow>
          (case backoff_Next rand b of
             (d, b') \<Rightarrow>
               (case sleepCtx C d w1 of
                  (True, w2) \<Rightarrow> done_with (Inl (b', w2))
                | (False, w2) \<Rightarrow> done_with (Inr w2))))"

definition run_round ::
  "'w client_env \<Rightarrow> bytes \<Rightarrow> bytes \<Rightarrow> backoff \<times> 'w \<Rightarrow> ((backoff \<times> 'w) + 'w) comp" where
  "run_round C url endpointHostname = (\<lambda>(b, w).
     case establishConnection C url endpointHostname w of
       None \<Rightarrow> None
     | Some (Inl err, w1) \<Rightarrow> (if ce_ctx_err C w1 then done_with (Inr w1) else wait_backoff C b w1)
     | Some (Inr (conn, ws), w1) \<Rightarrow>
         comp_bind (runSession C conn ws w1) (\<lambda>(err, w2).
           if ce_ctx_err C w2 then done_with (Inr w2)
           else wait_backoff C
             (if shouldResetBackoff (ce_now C w2 - ce_now C w1) then backoff_Reset b else b) w2))"

definition client_run :: "'w client_env \<Rightarrow> bytes \<Rightarrow> bytes \<Rightarrow> backoff \<Rightarrow> 'w \<Rightarrow> 'w comp" where
  "client_run C url endpointHostname b w = rust_loop (run_round C url endpointHostname) (b, w)"

section \<open>Start and Close\<close>

text \<open>
  The fields of \<open>Client\<close> under its lock, the context that \<open>cancel\<close> ends, whether the loop runs and
  whether a \<open>Close\<close> waits for it, and how often the context of the library was closed.
\<close>

datatype client_error = ErrAlreadyStarted | ErrClientClosed

record client_life =
  lf_started :: bool
  lf_closed :: bool
  lf_cancel :: bool
  lf_canceled :: bool
  lf_wg :: int
  lf_running :: bool
  lf_waiting :: bool
  lf_ctx_closes :: nat

definition new_client_life :: client_life where
  "new_client_life = \<lparr>lf_started = False, lf_closed = False, lf_cancel = False, lf_canceled = False, lf_wg = 0,
     lf_running = False, lf_waiting = False, lf_ctx_closes = 0\<rparr>"

text \<open>\<open>Start\<close> up to the loop, and its deferred \<open>Done\<close> once the loop has returned.\<close>

definition Client_Start :: "client_life \<Rightarrow> client_error option \<times> client_life" where
  "Client_Start c =
     (if lf_closed c then (Some ErrClientClosed, c)
      else if lf_started c then (Some ErrAlreadyStarted, c)
      else (None, c\<lparr>lf_started := True, lf_cancel := True, lf_wg := lf_wg c + 1, lf_running := True\<rparr>))"

definition Client_Start_end :: "client_life \<Rightarrow> client_life option" where
  "Client_Start_end c =
     (if lf_running c then Some (c\<lparr>lf_running := False, lf_wg := lf_wg c - 1\<rparr>) else None)"

text \<open>\<open>Close\<close> up to the wait, and from its end.\<close>

definition Client_Close :: "client_life \<Rightarrow> client_error option \<times> client_life" where
  "Client_Close c =
     (if lf_closed c then (Some ErrClientClosed, c)
      else (None, c\<lparr>lf_closed := True, lf_canceled := lf_canceled c \<or> lf_cancel c, lf_waiting := True\<rparr>))"

definition Client_Close_end :: "client_life \<Rightarrow> client_life option" where
  "Client_Close_end c =
     (if lf_waiting c \<and> lf_wg c = 0
      then Some (c\<lparr>lf_waiting := False, lf_ctx_closes := Suc (lf_ctx_closes c)\<rparr>) else None)"

datatype client_call = CallStart | RunReturns | CallClose | CloseGoesOn

fun client_act :: "client_call \<Rightarrow> client_life \<Rightarrow> client_life option" where
  "client_act CallStart c = Some (snd (Client_Start c))"
| "client_act RunReturns c = Client_Start_end c"
| "client_act CallClose c = Some (snd (Client_Close c))"
| "client_act CloseGoesOn c = Client_Close_end c"

fun client_acts :: "client_call list \<Rightarrow> client_life \<Rightarrow> client_life option" where
  "client_acts [] c = Some c"
| "client_acts (a # as) c = Option.bind (client_act a c) (client_acts as)"

section \<open>A new client\<close>

text \<open>The parser of URLs, the rest of \<open>net/url\<close>, is a parameter.\<close>

record url =
  url_Scheme :: string
  url_Host :: bytes
  url_Hostname :: bytes

definition parseURL :: "(bytes \<Rightarrow> string + url) \<Rightarrow> bytes \<Rightarrow> go_error + url" where
  "parseURL url_Parse rawURL =
     (case url_Parse rawURL of
        Inl err \<Rightarrow> Err (ErrWrapped ''rcx509: invalid url'' (ErrText err))
      | Inr u \<Rightarrow>
          if url_Scheme u \<noteq> ''ws'' \<and> url_Scheme u \<noteq> ''wss''
          then Err (ErrText (''rcx509: url scheme must be ws or wss, got '' @ url_Scheme u))
          else if url_Host u = [] then Err (ErrText ''rcx509: url must have a non-empty host'')
          else Ok u)"

record 'h client_options =
  op_apiKey :: bytes
  op_httpClient :: "'h option"
  op_endpoint :: bytes

datatype 'h client_option = WithAPIKey bytes | WithHTTPClient 'h | WithDCHostname bytes

fun apply_option :: "'h client_option \<Rightarrow> 'h client_options \<Rightarrow> 'h client_options" where
  "apply_option (WithAPIKey key) o' = o'\<lparr>op_apiKey := key\<rparr>"
| "apply_option (WithHTTPClient client) o' = o'\<lparr>op_httpClient := Some client\<rparr>"
| "apply_option (WithDCHostname endpoint) o' = o'\<lparr>op_endpoint := endpoint\<rparr>"

record 'h client =
  cl_ffiCtx :: nat
  cl_url :: bytes
  cl_endpointHostname :: bytes
  cl_dialer_key :: bytes
  cl_dialer_http :: "'h option"
  cl_backoff :: backoff
  cl_life :: client_life

definition NewClient ::
  "(bytes \<Rightarrow> string + url) \<Rightarrow> 'w ctx_env \<Rightarrow> (io_handle, 'v, 'w) runtime \<Rightarrow> bytes \<Rightarrow> bytes \<Rightarrow> bytes
     \<Rightarrow> 'h client_option list \<Rightarrow> ctx_heap \<times> 'w \<Rightarrow> ((go_error + 'h client) \<times> ctx_heap \<times> 'w) comp" where
  "NewClient url_Parse C R rawURL appName version opts x =
     (case parseURL url_Parse rawURL of
        Inl err \<Rightarrow> done_with (Err err, x)
      | Inr u \<Rightarrow>
          (let cfg = fold apply_option opts \<lparr>op_apiKey = [], op_httpClient = None, op_endpoint = url_Hostname u\<rparr>
           in comp_bind (Init C R appName version x) (\<lambda>(r, y).
                done_with (case r of
                    Inl err \<Rightarrow> Err err
                  | Inr ctx \<Rightarrow> Ok \<lparr>cl_ffiCtx = ctx, cl_url = rawURL, cl_endpointHostname = op_endpoint cfg,
                      cl_dialer_key = op_apiKey cfg, cl_dialer_http = op_httpClient cfg,
                      cl_backoff = newBackoff defaultInitialBackoff defaultMaxBackoff defaultBackoffMultiplier,
                      cl_life = new_client_life\<rparr>, y))))"

section \<open>The dialer\<close>

text \<open>
  \<open>websocket.Dial\<close> is a parameter, called with the time its context allows. Of an HTTP client only the
  timeout matters here.
\<close>

record 'r http_client =
  hc_Timeout :: int
  hc_rest :: 'r

record 'r dial_options =
  do_HTTPClient :: "'r http_client option"
  do_apiKeyHeader :: "bytes option"

definition defaultDialTimeout :: int where
  "defaultDialTimeout = 10 * second"

definition defaultReadLimit :: nat where
  "defaultReadLimit = 52428800"

definition CoderWebsocketDialer_Dial ::
  "(int \<Rightarrow> bytes \<Rightarrow> 'r dial_options option \<Rightarrow> 'w \<Rightarrow> (go_error + nat) \<times> 'w) \<Rightarrow> (nat \<Rightarrow> nat \<Rightarrow> 'w \<Rightarrow> 'w)
     \<Rightarrow> bytes \<Rightarrow> 'r http_client option \<Rightarrow> bytes \<Rightarrow> int \<Rightarrow> 'w \<Rightarrow> (go_error + nat) \<times> 'w" where
  "CoderWebsocketDialer_Dial websocket_Dial setReadLimit apiKey httpClient url dialTimeout w =
     (let timeout = (case httpClient of
            Some h \<Rightarrow> if hc_Timeout h > 0 then min dialTimeout (hc_Timeout h) else dialTimeout
          | None \<Rightarrow> dialTimeout);
          opts = (case httpClient of
            Some h \<Rightarrow> Some \<lparr>do_HTTPClient = Some (if hc_Timeout h > 0 then h\<lparr>hc_Timeout := 0\<rparr> else h),
              do_apiKeyHeader = None\<rparr>
          | None \<Rightarrow> None);
          opts' = (if apiKey \<noteq> [] then
            Some ((case opts of Some o' \<Rightarrow> o' | None \<Rightarrow> \<lparr>do_HTTPClient = None, do_apiKeyHeader = None\<rparr>)
              \<lparr>do_apiKeyHeader := Some apiKey\<rparr>)
          else opts)
      in case websocket_Dial timeout url opts' w of
           (Inl err, w') \<Rightarrow> (Err (ErrWrapped ''rcx509: failed to dial'' err), w')
         | (Inr ws, w') \<Rightarrow> (Ok ws, setReadLimit ws defaultReadLimit w'))"

section \<open>Bounds of the backoff\<close>

definition sane_backoff :: "backoff \<Rightarrow> bool" where
  "sane_backoff b \<longleftrightarrow> 0 < bo_initial b \<and> bo_initial b \<le> bo_max b \<and> 1 \<le> bo_multiplier b"

lemma backoff_base_bounds:
  assumes "sane_backoff b"
  shows "of_int (bo_initial b) \<le> backoff_base b" and "backoff_base b \<le> of_int (bo_max b)"
proof -
  have "1 \<le> bo_multiplier b ^ bo_attempt b" using assms by (simp add: sane_backoff_def)
  then have "of_int (bo_initial b) * 1 \<le> of_int (bo_initial b) * bo_multiplier b ^ bo_attempt b"
    using assms by (intro mult_left_mono) (simp_all add: sane_backoff_def)
  then show "of_int (bo_initial b) \<le> backoff_base b" "backoff_base b \<le> of_int (bo_max b)"
    using assms by (simp_all add: backoff_base_def Let_def sane_backoff_def)
qed

lemma backoff_base_mono:
  assumes "sane_backoff b"
  shows "backoff_base b \<le> backoff_base (b\<lparr>bo_attempt := Suc (bo_attempt b)\<rparr>)"
proof -
  have "bo_multiplier b ^ bo_attempt b \<le> bo_multiplier b ^ Suc (bo_attempt b)"
    using assms by (intro power_increasing) (simp_all add: sane_backoff_def)
  then have "of_int (bo_initial b) * bo_multiplier b ^ bo_attempt b
      \<le> of_int (bo_initial b) * bo_multiplier b ^ Suc (bo_attempt b)"
    using assms by (intro mult_left_mono) (simp_all add: sane_backoff_def)
  then show ?thesis by (simp add: backoff_base_def Let_def)
qed

lemma backoff_delay_bounds:
  assumes "sane_backoff b" and "0 \<le> r" and "r < 1" and "backoff_Next r b = (d, b')"
  shows "\<lfloor>backoff_base b / 2\<rfloor> \<le> d" and "real_of_int d \<le> backoff_base b"
    and "bo_initial b div 2 \<le> d" and "d \<le> bo_max b"
proof -
  let ?d = "backoff_base b"
  have pos: "0 < ?d" and mx: "?d \<le> of_int (bo_max b)" and mn: "of_int (bo_initial b) \<le> ?d"
    using backoff_base_bounds [OF assms(1)] assms(1) by (simp_all add: sane_backoff_def)
  have d: "d = \<lfloor>?d / 2 + r * ?d / 2\<rfloor>" using assms(4) by (simp add: backoff_Next_def Let_def)
  have lo: "?d / 2 \<le> ?d / 2 + r * ?d / 2" using assms(2) pos by simp
  have "r * ?d \<le> 1 * ?d" using assms(3) pos by (intro mult_right_mono) simp_all
  then have hi: "?d / 2 + r * ?d / 2 \<le> ?d" by simp
  show "\<lfloor>?d / 2\<rfloor> \<le> d" unfolding d using lo by (rule floor_mono)
  moreover have "\<lfloor>real_of_int (bo_initial b) / 2\<rfloor> \<le> \<lfloor>?d / 2\<rfloor>" using mn by (intro floor_mono) simp
  moreover have "\<lfloor>real_of_int (bo_initial b) / 2\<rfloor> = bo_initial b div 2"
    using floor_divide_of_int_eq [of "bo_initial b" 2, where ?'a = real] by simp
  ultimately show "bo_initial b div 2 \<le> d" by simp
  show le: "real_of_int d \<le> ?d" unfolding d using hi by linarith
  show "d \<le> bo_max b" using le mx by linarith
qed

section \<open>Observed calls\<close>

datatype client_event =
    CNew nat
  | CDial nat
  | CConnected nat bytes
  | CRecv nat bytes
  | CWrite nat bytes
  | CClose nat
  | CCloseNow nat
  | CSleep int

definition logged_client :: "'w client_env \<Rightarrow> ('w \<times> client_event list) client_env" where
  "logged_client C = \<lparr>
     ce_NewConnection = (\<lambda>(w, l). let (r, w') = ce_NewConnection C w in
       (r, w', case r of Inl _ \<Rightarrow> l | Inr c \<Rightarrow> l @ [CNew c])),
     ce_Connected = (\<lambda>c h (w, l). let (r, w') = ce_Connected C c h w in (r, w', l @ [CConnected c h])),
     ce_Close = (\<lambda>c (w, l). map_option (\<lambda>(r, w'). (r, w', l @ [CClose c])) (ce_Close C c w)),
     ce_Recv = (\<lambda>c m (w, l). map_option (\<lambda>(r, w'). (r, w', l @ [CRecv c m])) (ce_Recv C c m w)),
     ce_Outgoing = (\<lambda>c (w, l). map_option (\<lambda>(r, w'). (r, w', l)) (ce_Outgoing C c w)),
     ce_Dial = (\<lambda>u (w, l). let (r, w') = ce_Dial C u w in
       (r, w', case r of Inl _ \<Rightarrow> l | Inr s \<Rightarrow> l @ [CDial s])),
     ce_Read = (\<lambda>s (w, l). map_option (\<lambda>(r, w'). (r, w', l)) (ce_Read C s w)),
     ce_Write = (\<lambda>s t m (w, l). let (r, w') = ce_Write C s t m w in (r, w', l @ [CWrite s m])),
     ce_CloseNow = (\<lambda>s (w, l). (ce_CloseNow C s w, l @ [CCloseNow s])),
     ce_go_reader = (\<lambda>s (w, l). let (r, w') = ce_go_reader C s w in (r, w', l)),
     ce_offer = (\<lambda>c m (w, l). map_option (\<lambda>(r, w'). (r, w', l)) (ce_offer C c m w)),
     ce_close_chan = (\<lambda>c (w, l). (ce_close_chan C c w, l)),
     ce_join_reader = (\<lambda>c (w, l). map_option (\<lambda>w'. (w', l)) (ce_join_reader C c w)),
     ce_select = (\<lambda>c i (w, l). map_option (\<lambda>(r, w'). (r, w', l)) (ce_select C c i w)),
     ce_ctx_err = (\<lambda>(w, l). ce_ctx_err C w),
     ce_timer = (\<lambda>d (w, l). let (r, w') = ce_timer C d w in (r, w', l @ [CSleep d])),
     ce_now = (\<lambda>(w, l). ce_now C w),
     ce_rand = (\<lambda>(w, l). let (r, w') = ce_rand C w in (r, w', l))\<rparr>"

text \<open>
  What the client may do, in which order: one connection at a time, dialled, marked connected and
  used, then closed, its websocket still written to, then that closed; a failed attempt closes what
  it has; and a pause, half a second to thirty seconds, before the next connection.
\<close>

definition pause :: "int \<Rightarrow> bool" where
  "pause d \<longleftrightarrow> defaultInitialBackoff div 2 \<le> d \<and> d \<le> defaultMaxBackoff"

datatype client_phase = Unconnected | HasConn nat | HasBoth nat nat | HasWs nat | Resting

fun client_step :: "client_phase \<Rightarrow> client_event \<Rightarrow> client_phase option" where
  "client_step Unconnected (CNew c) = Some (HasConn c)"
| "client_step Unconnected (CSleep d) = (if pause d then Some Unconnected else None)"
| "client_step (HasConn c) (CDial s) = Some (HasBoth c s)"
| "client_step (HasConn c) (CClose c') = (if c' = c then Some Resting else None)"
| "client_step (HasBoth c s) (CConnected c' h) = (if c' = c then Some (HasBoth c s) else None)"
| "client_step (HasBoth c s) (CRecv c' m) = (if c' = c then Some (HasBoth c s) else None)"
| "client_step (HasBoth c s) (CWrite s' m) = (if s' = s then Some (HasBoth c s) else None)"
| "client_step (HasBoth c s) (CClose c') = (if c' = c then Some (HasWs s) else None)"
| "client_step (HasWs s) (CWrite s' m) = (if s' = s then Some (HasWs s) else None)"
| "client_step (HasWs s) (CCloseNow s') = (if s' = s then Some Resting else None)"
| "client_step Resting (CSleep d) = (if pause d then Some Unconnected else None)"
| "client_step _ _ = None"

fun client_steps :: "client_phase \<Rightarrow> client_event list \<Rightarrow> client_phase option" where
  "client_steps p [] = Some p"
| "client_steps p (e # es) = Option.bind (client_step p e) (\<lambda>q. client_steps q es)"

lemma client_steps_append:
  "client_steps p (es @ es') = Option.bind (client_steps p es) (\<lambda>q. client_steps q es')"
  by (induction es arbitrary: p) (auto simp: bind_assoc split: option.splits)

text \<open>A part of the client moves the log from one phase to another.\<close>

definition moves :: "client_event list \<Rightarrow> client_phase \<Rightarrow> client_event list \<Rightarrow> client_phase \<Rightarrow> bool" where
  "moves l p l' q \<longleftrightarrow> (\<exists>es. l' = l @ es \<and> client_steps p es = Some q)"

lemma moves_refl [simp]: "moves l p l p"
  by (simp add: moves_def)

lemma moves_trans [trans]: "moves l p l' q \<Longrightarrow> moves l' q l'' r \<Longrightarrow> moves l p l'' r"
  by (auto simp: moves_def client_steps_append)

lemma moves_step: "client_step p e = Some q \<Longrightarrow> moves l p (l @ [e]) q"
  by (simp add: moves_def)

lemma logged_ops:
  "ce_Close (logged_client C) c (w, l) = map_option (\<lambda>(r, w'). (r, w', l @ [CClose c])) (ce_Close C c w)"
  "ce_Recv (logged_client C) c m (w, l) = map_option (\<lambda>(r, w'). (r, w', l @ [CRecv c m])) (ce_Recv C c m w)"
  "ce_Outgoing (logged_client C) c (w, l) = map_option (\<lambda>(r, w'). (r, w', l)) (ce_Outgoing C c w)"
  "ce_select (logged_client C) c i (w, l) = map_option (\<lambda>(r, w'). (r, w', l)) (ce_select C c i w)"
  "ce_join_reader (logged_client C) i (w, l) = map_option (\<lambda>w'. (w', l)) (ce_join_reader C i w)"
  "ce_CloseNow (logged_client C) x (w, l) = (ce_CloseNow C x w, l @ [CCloseNow x])"
  "ce_ctx_err (logged_client C) (w, l) = ce_ctx_err C w" "ce_now (logged_client C) (w, l) = ce_now C w"
  "ce_go_reader (logged_client C) x (w, l) = (case ce_go_reader C x w of (r, w') \<Rightarrow> (r, w', l))"
  "ce_rand (logged_client C) (w, l) = (case ce_rand C w of (r, w') \<Rightarrow> (r, w', l))"
  "ce_timer (logged_client C) d (w, l) = (case ce_timer C d w of (r, w') \<Rightarrow> (r, w', l @ [CSleep d]))"
  "ce_NewConnection (logged_client C) (w, l) = (case ce_NewConnection C w of (r, w') \<Rightarrow>
     (r, w', case r of Inl _ \<Rightarrow> l | Inr c \<Rightarrow> l @ [CNew c]))"
  "ce_Dial (logged_client C) u (w, l) = (case ce_Dial C u w of (r, w') \<Rightarrow>
     (r, w', case r of Inl _ \<Rightarrow> l | Inr x \<Rightarrow> l @ [CDial x]))"
  "ce_Connected (logged_client C) c h (w, l) = (case ce_Connected C c h w of (r, w') \<Rightarrow> (r, w', l @ [CConnected c h]))"
  "writeMessage (logged_client C) x m (w, l) = (case writeMessage C x m w of (r, w') \<Rightarrow> (r, w', l @ [CWrite x m]))"
  by (simp_all add: logged_client_def writeMessage_def)

lemma drain_moves:
  assumes "drainOutgoing (logged_client C) ws conn (w, l) = Some (Ret (w', l'))"
  shows "moves l (HasWs ws) l' (HasWs ws)"
proof -
  have "moves (snd (snd s)) (HasWs ws) (snd r) (HasWs ws)"
    if "rust_loop (drain_round (logged_client C) ws conn) s = Some (Ret r)" for s r
    using that
  proof (induction rule: rust_loop_fold)
    case (leave s r)
    then show ?case
      by (cases s) (auto simp: drain_round_def logged_ops split: option.splits if_splits prod.splits)
  next
    case (continue s s' r)
    have "moves (snd (snd s)) (HasWs ws) (snd (snd s')) (HasWs ws)" using continue(1)
      by (cases s) (auto simp: drain_round_def logged_ops moves_step split: option.splits if_splits prod.splits)
    then show ?case using continue(2) by (rule moves_trans)
  qed
  from this [OF assms [unfolded drainOutgoing_def]] show ?thesis by simp
qed

lemma session_loop_moves:
  assumes "rust_loop (session_round (logged_client C) conn ws incoming) (w, l) = Some (Ret (err, w', l'))"
  shows "moves l (HasBoth conn ws) l' (HasBoth conn ws)"
proof -
  have "moves (snd s) (HasBoth conn ws) (snd (snd r)) (HasBoth conn ws)"
    if "rust_loop (session_round (logged_client C) conn ws incoming) s = Some (Ret r)" for s r
    using that
  proof (induction rule: rust_loop_fold)
    case (leave s r)
    then show ?case
      by (cases s) (auto simp: session_round_def logged_ops moves_step
          split: option.splits if_splits prod.splits session_event.splits)
  next
    case (continue s s' r)
    have "moves (snd s) (HasBoth conn ws) (snd s') (HasBoth conn ws)" using continue(1)
      by (cases s) (auto simp: session_round_def logged_ops moves_step
          split: option.splits if_splits prod.splits session_event.splits)
    then show ?case using continue(2) by (rule moves_trans)
  qed
  from this [OF assms] show ?thesis by simp
qed

lemma cleanup_moves:
  assumes "session_cleanup (logged_client C) conn ws incoming (w, l) = Some (Ret (w', l'))"
  shows "moves l (HasBoth conn ws) l' Resting"
proof -
  obtain err w1 w2 l2 w3 where c: "ce_Close C conn w = Some (err, w1)"
    and d: "drainOutgoing (logged_client C) ws conn (w1, l @ [CClose conn]) = Some (Ret (w2, l2))"
    and l': "l' = l2 @ [CCloseNow ws]"
    using assms by (auto simp: session_cleanup_def logged_ops comp_bind_eq_Ret split: option.splits prod.splits)
  have "moves l (HasBoth conn ws) (l @ [CClose conn]) (HasWs ws)" by (rule moves_step) simp
  also have "moves (l @ [CClose conn]) (HasWs ws) l2 (HasWs ws)" by (rule drain_moves [OF d])
  also have "moves l2 (HasWs ws) l' Resting" unfolding l' by (rule moves_step) simp
  finally show ?thesis .
qed

lemma session_moves:
  assumes "runSession (logged_client C) conn ws (w, l) = Some (Ret (err, w', l'))"
  shows "moves l (HasBoth conn ws) l' Resting"
proof -
  obtain incoming w1 where g: "ce_go_reader C ws w = (incoming, w1)" by fastforce
  obtain err' w2 l2 where 1: "rust_loop (session_round (logged_client C) conn ws incoming) (w1, l) = Some (Ret (err', w2, l2))"
    and 2: "session_cleanup (logged_client C) conn ws incoming (w2, l2) = Some (Ret (w', l'))"
    using assms by (auto simp: runSession_def logged_ops g comp_bind_eq_Ret)
  show ?thesis by (rule moves_trans [OF session_loop_moves [OF 1] cleanup_moves [OF 2]])
qed

lemma establish_moves:
  assumes "establishConnection (logged_client C) url host (w, l) = Some (r, w', l')"
  shows "case r of Inr (conn, ws) \<Rightarrow> moves l Unconnected l' (HasBoth conn ws)
    | Inl _ \<Rightarrow> moves l Unconnected l' Unconnected \<or> moves l Unconnected l' Resting"
proof -
  have new: "moves l Unconnected (l @ [CNew c]) (HasConn c)" for c by (rule moves_step) simp
  have dial: "moves l Unconnected (l @ [CNew c, CDial x, CConnected c host]) (HasBoth c x)" for c x
    by (simp add: moves_def)
  have fail: "moves l Unconnected (l @ [CNew c, CClose c]) Resting"
    "moves l Unconnected (l @ [CNew c, CDial x, CConnected c host, CClose c, CCloseNow x]) Resting" for c x
    by (simp_all add: moves_def)
  show ?thesis using assms dial fail
    by (auto simp: establishConnection_def logged_ops split: sum.splits prod.splits option.splits)
qed

definition default_backoff :: "backoff \<Rightarrow> bool" where
  "default_backoff b \<longleftrightarrow> bo_initial b = defaultInitialBackoff \<and> bo_max b = defaultMaxBackoff
     \<and> bo_multiplier b = defaultBackoffMultiplier"

lemma default_backoff_steps [simp]:
  "default_backoff (newBackoff defaultInitialBackoff defaultMaxBackoff defaultBackoffMultiplier)"
  "default_backoff b \<Longrightarrow> default_backoff (backoff_Reset b)"
  "default_backoff b \<Longrightarrow> default_backoff (snd (backoff_Next r b))"
  by (simp_all add: default_backoff_def newBackoff_def backoff_Reset_def backoff_Next_def Let_def)

lemma default_backoff_pause:
  assumes "default_backoff b" and "0 \<le> r" and "r < 1" and "backoff_Next r b = (d, b')"
  shows "pause d" and "0 < d"
proof -
  have "sane_backoff b" using assms(1)
    by (simp add: sane_backoff_def default_backoff_def defaultInitialBackoff_def defaultMaxBackoff_def
        defaultBackoffMultiplier_def second_def)
  from backoff_delay_bounds(3,4) [OF this assms(2-4)] show "pause d" "0 < d"
    using assms(1) by (simp_all add: pause_def default_backoff_def defaultInitialBackoff_def second_def)
qed

definition rand_unit :: "'w client_env \<Rightarrow> bool" where
  "rand_unit C \<longleftrightarrow> (\<forall>w. 0 \<le> fst (ce_rand C w) \<and> fst (ce_rand C w) < 1)"

lemma wait_moves:
  assumes R: "rand_unit C" and b: "default_backoff b" and p: "p = Unconnected \<or> p = Resting"
    and run: "wait_backoff (logged_client C) b (w, l) = Some (Ret x)"
  shows "case x of Inl (b', w', l') \<Rightarrow> default_backoff b' \<and> moves l p l' Unconnected | Inr (w', l') \<Rightarrow> moves l p l' Unconnected"
proof -
  obtain r w1 where r: "ce_rand C w = (r, w1)" by fastforce
  then have ru: "0 \<le> r" "r < 1" using R by (auto simp: rand_unit_def dest: spec [of _ w])
  obtain d b' where n: "backoff_Next r b = (d, b')" by fastforce
  note pd = default_backoff_pause [OF b ru n]
  have "default_backoff b'" using default_backoff_steps(3) [OF b, of r] n by simp
  moreover have "moves l p (l @ [CSleep d]) Unconnected" using p pd(1) by (auto intro: moves_step)
  ultimately show ?thesis using run pd(2)
    by (auto simp: wait_backoff_def logged_ops r n sleepCtx_def split: prod.splits bool.splits)
qed

lemma round_moves:
  assumes R: "rand_unit C" and b: "default_backoff b"
    and run: "run_round (logged_client C) url host (b, w, l) = Some (Ret x)"
  shows "case x of Inl (b', w', l') \<Rightarrow> default_backoff b' \<and> moves l Unconnected l' Unconnected
    | Inr (w', l') \<Rightarrow> moves l Unconnected l' Unconnected \<or> moves l Unconnected l' Resting"
proof -
  obtain r w1 l1 where e: "establishConnection (logged_client C) url host (w, l) = Some (r, w1, l1)"
    using run by (auto simp: run_round_def split: option.splits)
  note em = establish_moves [OF e]
  have wait: ?thesis if "moves l Unconnected l2 p" "p = Unconnected \<or> p = Resting" "default_backoff b2"
    "wait_backoff (logged_client C) b2 (w2, l2) = Some (Ret x)" for l2 p b2 w2
    using wait_moves [OF R that(3,2,4)] moves_trans [OF that(1)] by (auto split: sum.splits)
  show ?thesis
  proof (cases r)
    case (Inl err)
    then show ?thesis using run em e wait b
      by (auto simp: run_round_def logged_ops split: if_splits)
  next
    case (Inr cs)
    obtain conn ws where cs: "cs = (conn, ws)" by fastforce
    obtain err w2 l2 where 1: "runSession (logged_client C) conn ws (w1, l1) = Some (Ret (err, w2, l2))"
      and k: "(if ce_ctx_err C w2 then done_with (Inr (w2, l2)) else wait_backoff (logged_client C)
        (if shouldResetBackoff (ce_now (logged_client C) (w2, l2) - ce_now (logged_client C) (w1, l1))
         then backoff_Reset b else b) (w2, l2)) = Some (Ret x)"
      using run e Inr cs by (auto simp: run_round_def logged_ops comp_bind_eq_Ret)
    have m: "moves l Unconnected l2 Resting"
      using em Inr cs session_moves [OF 1] by (auto intro: moves_trans)
    show ?thesis
    proof (cases "ce_ctx_err C w2")
      case True
      then show ?thesis using k m by auto
    next
      case False
      show ?thesis by (rule wait [OF m]) (use k b False in \<open>auto split: if_splits\<close>)
    qed
  qed
qed

lemma rounds_moves:
  assumes R: "rand_unit C"
  shows "default_backoff b \<Longrightarrow> loop_rounds (run_round (logged_client C) url host) n (b, w, l) = Some (Ret x) \<Longrightarrow>
     (case x of Inl (b', w', l') \<Rightarrow> moves l Unconnected l' Unconnected
      | Inr (w', l') \<Rightarrow> moves l Unconnected l' Unconnected \<or> moves l Unconnected l' Resting)"
proof (induction n arbitrary: b w l)
  case (Suc n)
  obtain y where y: "run_round (logged_client C) url host (b, w, l) = Some (Ret y)"
    and k: "(case y of Inl s \<Rightarrow> loop_rounds (run_round (logged_client C) url host) n s | Inr r \<Rightarrow> done_with (Inr r)) = Some (Ret x)"
    using Suc.prems(2) by (auto simp: comp_bind_eq_Ret)
  note rm = round_moves [OF R Suc.prems(1) y]
  show ?case
  proof (cases y)
    case (Inl s)
    obtain b' w' l' where s: "s = (b', w', l')" by (cases s) auto
    show ?thesis using Suc.IH [of b' w' l'] rm k Inl s moves_trans by (auto split: sum.splits)
  next
    case (Inr r)
    then show ?thesis using rm k by auto
  qed
qed auto

section \<open>Properties\<close>

definition conns_made :: "client_event list \<Rightarrow> nat list" where
  "conns_made = List.map_filter (\<lambda>e. case e of CNew c \<Rightarrow> Some c | _ \<Rightarrow> None)"

definition conns_closed :: "client_event list \<Rightarrow> nat list" where
  "conns_closed = List.map_filter (\<lambda>e. case e of CClose c \<Rightarrow> Some c | _ \<Rightarrow> None)"

definition sockets_made :: "client_event list \<Rightarrow> nat list" where
  "sockets_made = List.map_filter (\<lambda>e. case e of CDial x \<Rightarrow> Some x | _ \<Rightarrow> None)"

definition sockets_closed :: "client_event list \<Rightarrow> nat list" where
  "sockets_closed = List.map_filter (\<lambda>e. case e of CCloseNow x \<Rightarrow> Some x | _ \<Rightarrow> None)"

fun held_conn :: "client_phase \<Rightarrow> nat list" where
  "held_conn (HasConn c) = [c]"
| "held_conn (HasBoth c x) = [c]"
| "held_conn _ = []"

fun held_socket :: "client_phase \<Rightarrow> nat list" where
  "held_socket (HasBoth c x) = [x]"
| "held_socket (HasWs x) = [x]"
| "held_socket _ = []"

lemmas made_defs = conns_made_def conns_closed_def sockets_made_def sockets_closed_def

lemma client_step_held:
  "client_step p e = Some q \<Longrightarrow>
     held_conn p @ conns_made [e] = conns_closed [e] @ held_conn q
     \<and> held_socket p @ sockets_made [e] = sockets_closed [e] @ held_socket q"
  by (cases "(p, e)" rule: client_step.cases) (auto simp: made_defs map_filter_def split: if_splits)

lemma made_Cons:
  "conns_made (e # es) = conns_made [e] @ conns_made es" "conns_closed (e # es) = conns_closed [e] @ conns_closed es"
  "sockets_made (e # es) = sockets_made [e] @ sockets_made es"
  "sockets_closed (e # es) = sockets_closed [e] @ sockets_closed es"
  by (simp_all add: made_defs map_filter_def)

lemma client_steps_held:
  "client_steps p es = Some q \<Longrightarrow>
     held_conn p @ conns_made es = conns_closed es @ held_conn q
     \<and> held_socket p @ sockets_made es = sockets_closed es @ held_socket q"
proof (induction es arbitrary: p)
  case Nil
  then show ?case by (simp add: made_defs map_filter_def)
next
  case (Cons e es)
  then obtain p' where p': "client_step p e = Some p'" "client_steps p' es = Some q"
    by (auto simp: bind_eq_Some_conv)
  note 1 = client_step_held [OF p'(1)] and 2 = Cons.IH [OF p'(2)]
  have "held_conn p @ conns_made (e # es) = conns_closed [e] @ held_conn p' @ conns_made es"
    "held_socket p @ sockets_made (e # es) = sockets_closed [e] @ held_socket p' @ sockets_made es"
    unfolding made_Cons [of e es] using 1 by (metis append_assoc)+
  then show ?case unfolding made_Cons [of e es] using 2 by simp
qed

text \<open>
  C10. The client leaks nothing and does not hammer the backend. However often it reconnects, and
  however attempts, sessions, reads, writes and its shutdown end, after any number of rounds of its
  loop every connection it made with the library was closed exactly once, before the next one was
  made, every websocket it dialled was closed exactly once, messages were only exchanged in between,
  and every two connections are separated by a pause of half a second to thirty seconds.
\<close>

theorem go_client_sessions:
  assumes "rand_unit C"
    and "loop_rounds (run_round (logged_client C) url host) n
      (newBackoff defaultInitialBackoff defaultMaxBackoff defaultBackoffMultiplier, w, []) = Some (Ret x)"
    and "l = (case x of Inl (b, w', l) \<Rightarrow> l | Inr (w', l) \<Rightarrow> l)"
  shows "client_steps Unconnected l \<in> {Some Unconnected, Some Resting}
    \<and> conns_made l = conns_closed l \<and> sockets_made l = sockets_closed l"
proof -
  have "moves [] Unconnected l Unconnected \<or> moves [] Unconnected l Resting"
    using rounds_moves [OF assms(1) default_backoff_steps(1) assms(2)] assms(3)
    by (auto split: sum.splits)
  then obtain q where q: "client_steps Unconnected l = Some q" "q = Unconnected \<or> q = Resting" by (auto simp: moves_def)
  from client_steps_held [OF q(1)] q show ?thesis by auto
qed

text \<open>A backend that refuses the first dial and ends the session of the second one.\<close>

definition sample_client :: "nat client_env" where
  "sample_client = \<lparr>
     ce_NewConnection = (\<lambda>w. (Ok w, Suc w)), ce_Connected = (\<lambda>c h w. (None, w)), ce_Close = (\<lambda>c w. Some (None, w)),
     ce_Recv = (\<lambda>c m w. Some (None, w)), ce_Outgoing = (\<lambda>c w. Some (None, w)),
     ce_Dial = (\<lambda>u w. if w = 1 then (Err (ErrText ''refused''), w) else (Ok 7, w)),
     ce_Read = (\<lambda>x w. None), ce_Write = (\<lambda>x t m w. (None, w)), ce_CloseNow = (\<lambda>x w. w),
     ce_go_reader = (\<lambda>x w. (9, w)), ce_offer = (\<lambda>c m w. Some (True, w)), ce_close_chan = (\<lambda>c w. w),
     ce_join_reader = (\<lambda>c w. Some w), ce_select = (\<lambda>c i w. Some (SelIncoming None, w)),
     ce_ctx_err = (\<lambda>w. w = 2), ce_timer = (\<lambda>d w. (True, w)), ce_now = (\<lambda>w. 0), ce_rand = (\<lambda>w. (0, w))\<rparr>"

definition sample_client_log :: "client_event list" where
  "sample_client_log = [CNew 0, CClose 0, CSleep 500000000, CNew 1, CDial 7, CConnected 1 [97], CClose 1, CCloseNow 7]"

lemma sample_client_run:
  "loop_rounds (run_round (logged_client sample_client) [] [97]) 2
     (newBackoff defaultInitialBackoff defaultMaxBackoff defaultBackoffMultiplier, 0, [])
   = Some (Ret (Inr (2, sample_client_log)))"
  by (simp add: numeral_2_eq_2 run_round_def establishConnection_def runSession_def session_cleanup_def
      drainOutgoing_def rust_loop.simps drain_round_def session_round_def logged_client_def sample_client_def
      wait_backoff_def backoff_Next_def backoff_base_def newBackoff_def sleepCtx_def defaultInitialBackoff_def
      defaultMaxBackoff_def defaultBackoffMultiplier_def second_def sample_client_log_def)

theorem go_client_sessions_witness:
  "client_steps Unconnected sample_client_log = Some Resting
    \<and> conns_made sample_client_log = conns_closed sample_client_log
    \<and> loop_rounds (run_round (logged_client sample_client) [] [97]) 2
     (newBackoff defaultInitialBackoff defaultMaxBackoff defaultBackoffMultiplier, 0, [])
       = Some (Ret (Inr (2, sample_client_log)))"
proof -
  have "rand_unit sample_client" by (simp add: rand_unit_def sample_client_def)
  from go_client_sessions [OF this sample_client_run, of sample_client_log] sample_client_run show ?thesis
    by (auto simp: sample_client_log_def pause_def defaultInitialBackoff_def defaultMaxBackoff_def second_def)
qed

section \<open>The shutdown of a client\<close>

definition life_inv :: "client_life \<Rightarrow> bool" where
  "life_inv c \<longleftrightarrow> lf_wg c = (if lf_running c then 1 else 0) \<and> (lf_running c \<longrightarrow> lf_started c)
     \<and> (lf_started c \<longrightarrow> lf_cancel c) \<and> (lf_closed c \<and> lf_started c \<longrightarrow> lf_canceled c)
     \<and> lf_ctx_closes c = (if lf_closed c \<and> \<not> lf_waiting c then 1 else 0)
     \<and> (lf_waiting c \<longrightarrow> lf_closed c) \<and> (lf_closed c \<and> \<not> lf_waiting c \<longrightarrow> \<not> lf_running c)"

lemmas life_defs = Client_Start_def Client_Start_end_def Client_Close_def Client_Close_end_def

lemma life_inv_act: "client_act a c = Some c' \<Longrightarrow> life_inv c \<Longrightarrow> life_inv c'"
  by (cases a) (auto simp: life_inv_def life_defs split: if_splits)

lemma life_inv_acts: "client_acts as c = Some c' \<Longrightarrow> life_inv c \<Longrightarrow> life_inv c'"
  by (induction as arbitrary: c) (auto simp: bind_eq_Some_conv life_inv_act)

lemma closed_stays: "client_acts as c = Some c' \<Longrightarrow> lf_closed c \<Longrightarrow> lf_closed c'"
proof (induction as arbitrary: c)
  case (Cons a as)
  then obtain c1 where c1: "client_act a c = Some c1" "client_acts as c1 = Some c'" by (auto simp: bind_eq_Some_conv)
  have "lf_closed c1" using c1(1) Cons.prems(2) by (cases a) (auto simp: life_defs split: if_splits)
  then show ?case using Cons.IH c1(2) by blast
qed simp

text \<open>
  The context of the library is closed at most once in the life of a client, only by a \<open>Close\<close>
  and never while the connection loop runs; a \<open>Close\<close> that waits for the loop has told it to stop;
  and from the first \<open>Close\<close> on the loop never starts again, whatever is called in whatever order.
\<close>

lemma go_client_close_order:
  assumes "client_acts as new_client_life = Some c"
  shows "lf_ctx_closes c \<le> 1 \<and> (lf_ctx_closes c = 1 \<longrightarrow> lf_closed c \<and> \<not> lf_running c)
    \<and> (lf_waiting c \<and> lf_running c \<longrightarrow> lf_canceled c)
    \<and> (lf_closed c \<and> client_acts bs c = Some c' \<longrightarrow> fst (Client_Start c') = Some ErrClientClosed
        \<and> (lf_running c' \<longrightarrow> lf_running c))"
proof -
  have inv: "life_inv c" using life_inv_acts [OF assms] by (simp add: life_inv_def new_client_life_def)
  have "fst (Client_Start c') = Some ErrClientClosed" if "lf_closed c" "client_acts bs c = Some c'"
    using closed_stays [OF that(2,1)] by (simp add: Client_Start_def)
  moreover have "lf_running c" if "lf_closed c" "client_acts bs c = Some c'" "lf_running c'"
    using that
  proof (induction bs arbitrary: c)
    case (Cons b bs)
    then obtain c1 where c1: "client_act b c = Some c1" "client_acts bs c1 = Some c'" by (auto simp: bind_eq_Some_conv)
    moreover have "lf_closed c1" using closed_stays [of "[b]" c c1] c1(1) Cons.prems(1) by simp
    ultimately have "lf_running c1" using Cons.IH Cons.prems(3) by blast
    then show ?case using c1(1) Cons.prems(1) by (cases b) (auto simp: life_defs split: if_splits)
  qed simp
  ultimately show ?thesis using inv by (auto simp: life_inv_def)
qed

lemma go_client_close_order_witness:
  "\<exists>c c'. client_acts [CallStart, CallClose, RunReturns, CloseGoesOn] new_client_life = Some c
     \<and> lf_ctx_closes c = 1 \<and> \<not> lf_running c
     \<and> client_acts [CallStart, CallClose] c = Some c' \<and> fst (Client_Start c') = Some ErrClientClosed"
proof -
  obtain c where c: "client_acts [CallStart, CallClose, RunReturns, CloseGoesOn] new_client_life = Some c"
    "lf_ctx_closes c = 1" "lf_closed c" by (simp add: life_defs new_client_life_def)
  obtain c' where c': "client_acts [CallStart, CallClose] c = Some c'" by simp
  show ?thesis using go_client_close_order [OF c(1), of "[CallStart, CallClose]" c'] c c' by blast
qed

end
