(* ===== verification/Spec2Isabelle.thy ===== *)
theory Spec2Isabelle
  imports Trust_Tests Go_Client
begin

text \<open>
  A verification library for \<open>libdd-rc\<close>, the Remote Config client library. The program is a Rust
  library with a C interface, and a Go package that drives it:

  \<^item> \<open>src/lib/rc-crypto\<close>: hashes, keys, signatures, certificates and their identifiers;
  \<^item> \<open>src/lib/rc-x509-roots\<close> and \<open>src/lib/rc-x509-trust\<close>: embedded roots, the certificate cache, the
    building and the verification of chains, the trust store, and the issuer and property tests of
    that crate;
  \<^item> \<open>src/lib/rc-x509-proto\<close> and \<open>src/lib/rc-x509-client\<close>: wire messages, the connection state
    machine, the actor that runs a connection, the event loop that starts and stops actors;
  \<^item> \<open>src/lib/rc-x509-ffi\<close>: contexts, connections, callbacks and the log sink of the C interface;
  \<^item> \<open>src/ffi-hosts/go\<close>: the bindings (\<open>internal/libddrcffi\<close>), with a pool that runs the host's
    handlers, and the reconnecting client (\<open>rcx509\<close>).

  The host feeds messages of the server into a connection through the C interface. The actor of the
  connection gives them to its delegate, which performs the handshake and offers requests to
  the host; the host's results travel back through the actor and the thread that sends.

  \<^bold>\<open>Conventions\<close> (\<open>RC_Prelude\<close>). A struct is a record, an enum a datatype, a Rust \<open>Result\<close> a
  sum read with \<open>Ok\<close> and \<open>Err\<close>. A call that may panic returns \<open>'a run\<close>; one that may also wait
  for ever returns \<open>'a comp\<close>. Integers keep their width where the code relies on it. Third-party
  code (aws-lc, rcgen, x509-parser, webpki, mini-moka, tokio, jiff, generated protobuf code, websockets) is a record of
  operations passed as an argument. What is relied on of it is a named predicate such as \<open>moka_laws\<close>,
  \<open>sha_digest_len\<close> or \<open>issuing_laws\<close>, and a sample instance satisfies it. Randomness is an argument.
  Where the calls a component makes matter, it runs in an environment that logs them.

  \<^bold>\<open>Theories\<close>, in the order of the code:

  \<^item> \<open>Hex_Repr\<close>, \<open>Hash_Sign\<close>, \<open>Cert_Ids\<close>, \<open>Certificate_Model\<close>, \<open>Csr\<close>, \<open>Connection_Id\<close> model
    \<open>rc-crypto\<close>. The lemmas give the exact domain of every constructor, when construction from DER
    panics, that renderings are injective and comparisons agree with them (the locale
    \<open>rendered\<close>, interpreted by each type that renders itself), the profile of requests, and when
    the server's connection identifier is accepted.
  \<^item> \<open>Chain_Build\<close>, \<open>Trust_Store\<close>, \<open>Chain_Verify\<close> model \<open>rc-x509-roots\<close> and \<open>rc-x509-trust\<close>. Chain
    building is characterised by all three of its outcomes against the contract of a cache (the locale
    \<open>cert_cache_contract\<close>), which the in-memory cache satisfies after any history; validation is
    sound, ignores the signature and the payload, and yields only well-formed certificates; a
    chain is accepted exactly under the listed calls of the path validator.
  \<^item> \<open>Test_Issuer\<close>, \<open>Test_Chains\<close>, \<open>Sample_Issuer\<close>, \<open>Trust_Tests\<close> model \<open>rc-x509-trust/src/test_issuer\<close>
    and the property tests in \<open>chain/mod.rs\<close>, \<open>chain/build_unverified.rs\<close>, \<open>chain/verify_chain.rs\<close>,
    \<open>trust_store/store.rs\<close> and \<open>trust_store/root_set.rs\<close>. A test is a function that panics where an assertion fails.
    Instead of samples, all inputs are covered: valid chains pass, the limit of the walk is exact, chains with a
    gap or a loop are rejected by building alone, the other fifteen mutations are built in full and left
    to the path validator, and every mutator of one certificate changes one field of that one.
  \<^item> \<open>Client_Types\<close>, \<open>Codec\<close>, \<open>Dispatch\<close>, \<open>Delegate\<close>, \<open>Delegate_Protocol\<close>, \<open>Actor\<close>, \<open>Entrypoint\<close> model
    \<open>rc-x509-client\<close>. The delegate refines an abstract protocol machine, so a request reaches the
    host only after a verified handshake and nothing follows a protocol error; the
    retry and actor loops return exactly under stated conditions; the actor forwards results in
    order; the event loop stops and joins every connection it started.
  \<^item> \<open>FFI_Connection\<close>, \<open>FFI_Tasks\<close>, \<open>FFI_Ctx\<close> model \<open>rc-x509-ffi\<close>. Whatever the host calls, the events
    follow the documented lifecycle, every thread that was started is joined, and an invalid
    call is harmless in a release build; the two threads call the host once per message, in order.
  \<^item> \<open>Go_Pool\<close>, \<open>Go_Host\<close>, \<open>Go_Client\<close> model \<open>src/ffi-hosts/go\<close>. Goroutines are guarded actions
    between synchronisation points, interleaved freely. The pool answers a job at most once and
    can always shut down unless handlers hang; the composition of bindings and library aborts
    only in the listed cases, owns its handles exactly until it is closed and behaves alike on both
    builds of the library; the client's sessions release what they acquire. Two races of the pool
    are proved to be possible.

  \<^bold>\<open>Bounds.\<close> The walk of chain building is structurally bounded by the six intermediates of
  \<open>MAX_INTERMEDIATES\<close>. Loops that may run for ever are \<open>partial_function (option)\<close>, where not
  returning is \<open>None\<close>, and their termination is stated as such; rounds of the Go client are
  counted by a number that the theorems quantify over. The theorems on generated chains assume that the keys
  drawn in one test differ (\<open>fresh_ids\<close>), up to a bound on the draws that covers the test.

  \<^bold>\<open>Not modelled.\<close> The byte encoding of protobuf messages, which is generated at build time, and generated Go code; the path
  validation of webpki and the cryptography of aws-lc, which are called, not contained; traits
  without code; doubles, fuzz targets and the harness of the integration tests; fixed-example unit tests; the
  proptest strategies, replaced by quantification; the raw memory behind pointers of the C
  interface, apart from ownership; the Windows variant of the log sink; the WebAssembly packaging
  and the build scripts.
\<close>

section \<open>Properties that span the client\<close>

text \<open>
  C1. From the event loop of the library down to the host: take any actor that the event loop
  starts and any run of it that returns. If a request was offered to the host, then the run
  began with a hello that carries a fresh nonce, afterwards received an acknowledgement whose
  connection identifier verifies against that nonce, after that a dispatch message with a
  non-empty signature of a named certificate and the content of the request, and only then
  offered it.
\<close>

theorem client_dispatch_requires_handshake:
  fixes v :: 'v
  assumes "handle_connection_events (logged_runtime R) s info v (w, []) = Some (Ret (w', l))"
    and "LcSpawn k a \<in> set l"
    and "actor_run (logged E) (logged_polls S) (message_delegate_impl (logged E) I) a (w1, []) = Some (Ret (w2, tr))"
    and "EvTrySend c d r \<in> set tr"
  shows "\<exists>n m x u cid sg pre post.
      tr = EvRandFill (Ok (nonce_as_bytes n)) # EvIoSend (ClientHello (hello_of info m n)) x # pre
        @ EvMessage (Ok (Dispatch (dr_correlation_id d) (dr_payload d) (Some sg))) # post
    \<and> EvMessage (Ok (ClientHelloAck u)) \<in> set pre
    \<and> verify_connection_id (id_sha I) (id_new_v8 I) u n = Ret (Ok cid)
    \<and> ds_signature sg \<noteq> [] \<and> length (ds_cert_id sg) \<in> {16..64}
    \<and> EvTrySend c d r \<in> set post"
proof -
  obtain stop pub ch where a: "a = connection_actor_new stop (message_delegate_new stop pub info v) ch"
    using lifecycle_log_started [OF events_log [OF assms(1)] assms(2)] by (auto simp: well_started_def)
  obtain n m lr ins l2 e and d0 :: "'v message_delegate"
    where ph: "phase_of (delegate_state d0) = AwaitAck n"
    and tr: "tr = EvRandFill (Ok (nonce_as_bytes n)) # lr @ l2 @ [e]"
    and hello: "retry_log (ClientHello (hello_of info m n)) stop lr"
    and t: "run_trace (protocol_trace_step I) stop d0 ins l2" and e: "final_event stop ch e"
    using fresh_actor_trace [OF assms(3) [unfolded a]] by metis
  obtain x lr' where lr: "lr = EvIoSend (ClientHello (hello_of info m n)) x # lr'"
    using retry_log_first [OF hello] by blast
  have "EvTrySend c d r \<in> set l2"
    using assms(4) tr e retry_log_no_dispatch [OF hello] by (auto simp: final_event_def)
  from run_trace_offer [OF t this] obtain pre sg post where
    l2: "l2 = pre @ EvMessage (Ok (Dispatch (dr_correlation_id d) (dr_payload d) (Some sg))) # post"
    and o: "EvTrySend c d r \<in> set post" "ds_signature sg \<noteq> []" "length (ds_cert_id sg) \<in> {16..64}"
    and j: "justified I (phase_of (delegate_state d0)) pre" by blast
  obtain u cid where "EvMessage (Ok (ClientHelloAck u)) \<in> set pre"
    "verify_connection_id (id_sha I) (id_new_v8 I) u n = Ret (Ok cid)"
    using j ph by (auto simp: justified_def)
  then show ?thesis using tr lr l2 o
    by (intro exI [of _ n] exI [of _ m] exI [of _ x] exI [of _ u] exI [of _ cid] exI [of _ sg]
        exI [of _ "lr' @ pre"] exI [of _ "post @ [e]"]) simp
qed

theorem client_dispatch_requires_handshake_witness:
  "\<exists>n m x u cid sg pre post.
      sample_run_log = EvRandFill (Ok (nonce_as_bytes n)) # EvIoSend (ClientHello (hello_of sample_app m n)) x # pre
        @ EvMessage (Ok (Dispatch (dr_correlation_id sample_request) (dr_payload sample_request) (Some sg))) # post
    \<and> EvMessage (Ok (ClientHelloAck u)) \<in> set pre
    \<and> verify_connection_id (id_sha sample_ids) (id_new_v8 sample_ids) u n = Ret (Ok cid)
    \<and> ds_signature sg \<noteq> [] \<and> length (ds_cert_id sg) \<in> {16..64}
    \<and> EvTrySend 1 sample_request TrySent \<in> set post"
  by (rule client_dispatch_requires_handshake [OF sample_events_run _ sample_actor_run, of 1])
    (simp_all add: sample_events_log_def sample_run_log_def)

end
